(* ===== verification/Prelude.thy ===== *)
theory Prelude
  imports Main "HOL-Library.State_Monad" "HOL-Library.Signed_Division"
begin

text \<open>
  What every component shares: Go's fixed-width integers, the string functions of the Go
  standard library that the sources call, JSON values, and the state monad in which the
  handlers and reconcilers are written, with its weakest-precondition calculus.

  \<^item> \<open>int32\<close> and \<open>int64\<close> values are integers kept in range by \<open>i32\<close> and \<open>i64\<close>, which
    write out the two's complement wrap-around of Go's arithmetic and conversions.
  \<^item> A Go \<open>string\<close> is a list of bytes (\<open>char list\<close>).
  \<^item> A call that touches the outside (the API server, the clock, a notification channel) is
    a value of \<open>('w, 'a) state\<close>: it takes the world and returns a result and the next world.
\<close>

section \<open>Fixed-width integers\<close>

definition i32 :: "int \<Rightarrow> int" where
  "i32 x = (x + 2 ^ 31) mod 2 ^ 32 - 2 ^ 31"

definition i64 :: "int \<Rightarrow> int" where
  "i64 x = (x + 2 ^ 63) mod 2 ^ 64 - 2 ^ 63"

definition is_i32 :: "int \<Rightarrow> bool" where
  "is_i32 x \<longleftrightarrow> - (2 ^ 31) \<le> x \<and> x < 2 ^ 31"

definition is_i64 :: "int \<Rightarrow> bool" where
  "is_i64 x \<longleftrightarrow> - (2 ^ 63) \<le> x \<and> x < 2 ^ 63"

lemma i32_id [simp]: "is_i32 x \<Longrightarrow> i32 x = x"
  by (simp add: i32_def is_i32_def)

lemma i64_id [simp]: "is_i64 x \<Longrightarrow> i64 x = x"
  by (simp add: i64_def is_i64_def)

lemma is_i32_i32 [simp, intro]: "is_i32 (i32 x)"
  by (simp add: i32_def is_i32_def pos_mod_bound)

lemma is_i64_i64 [simp, intro]: "is_i64 (i64 x)"
  by (simp add: i64_def is_i64_def pos_mod_bound)

lemma i32_diff_nonneg [simp]: "0 \<le> y \<Longrightarrow> y \<le> x \<Longrightarrow> is_i32 x \<Longrightarrow> i32 (x - y) = x - y"
  by (rule i32_id) (simp add: is_i32_def)

lemma is_i32_bounded: "0 \<le> y \<Longrightarrow> y \<le> x \<Longrightarrow> is_i32 x \<Longrightarrow> is_i32 y"
  by (simp add: is_i32_def)

lemma is_i64_53: "0 \<le> k \<Longrightarrow> k \<le> 2 ^ 53 \<Longrightarrow> is_i64 k"
  by (simp add: is_i64_def)

section \<open>Strings\<close>

type_synonym 'v strmap = "string \<Rightarrow> 'v option"

text \<open>\<open>strings.HasPrefix\<close>, \<open>strings.Contains\<close> of one byte, \<open>strings.TrimPrefix\<close>.\<close>

fun HasPrefix :: "string \<Rightarrow> string \<Rightarrow> bool" where
  "HasPrefix s [] = True"
| "HasPrefix [] (p # ps) = False"
| "HasPrefix (c # s) (p # ps) = (c = p \<and> HasPrefix s ps)"

definition TrimPrefix :: "string \<Rightarrow> string \<Rightarrow> string" where
  "TrimPrefix s p = (if HasPrefix s p then drop (length p) s else s)"

text \<open>\<open>strings.ReplaceAll\<close> with a one-byte pattern, which is how the sources use it for
  escaping, and the decimal form that \<open>%d\<close> prints.\<close>

definition ReplaceChar :: "char \<Rightarrow> string \<Rightarrow> string \<Rightarrow> string" where
  "ReplaceChar c r s = concat (map (\<lambda>x. if x = c then r else [x]) s)"

text \<open>\<open>strings.Split\<close> at a one-byte separator: always at least one part.\<close>

fun Split :: "char \<Rightarrow> string \<Rightarrow> string list" where
  "Split c [] = [[]]"
| "Split c (x # s) =
     (if x = c then [] # Split c s
      else (case Split c s of [] \<Rightarrow> [[x]] | p # ps \<Rightarrow> (x # p) # ps))"

text \<open>\<open>strings.SplitN(s, sep, 2)\<close>: the part before the first separator and the rest.\<close>

fun SplitN2 :: "char \<Rightarrow> string \<Rightarrow> string list" where
  "SplitN2 c [] = [[]]"
| "SplitN2 c (x # s) =
     (if x = c then [[], s]
      else (case SplitN2 c s of [] \<Rightarrow> [[x]] | p # ps \<Rightarrow> (x # p) # ps))"

text \<open>ASCII lower-casing, for \<open>strings.ToLower\<close> and \<open>strings.EqualFold\<close>.\<close>

definition lower_char :: "char \<Rightarrow> char" where
  "lower_char c = (let n = (of_char c :: nat) in
     if 65 \<le> n \<and> n \<le> 90 then char_of (n + 32) else c)"

definition ToLower :: "string \<Rightarrow> string" where
  "ToLower s = map lower_char s"

fun show_nat :: "nat \<Rightarrow> string" where
  "show_nat n = (if n < 10 then [char_of (48 + n)]
     else show_nat (n div 10) @ [char_of (48 + n mod 10)])"

declare show_nat.simps [simp del]

definition show_int :: "int \<Rightarrow> string" where
  "show_int n = (if n < 0 then CHR ''-'' # show_nat (nat (- n)) else show_nat (nat n))"

lemma HasPrefix_append [simp]: "HasPrefix (p @ s) p"
  by (induction p) auto

lemma HasPrefix_iff: "HasPrefix s p \<longleftrightarrow> (\<exists>t. s = p @ t)"
  by (induction s p rule: HasPrefix.induct) auto

lemma TrimPrefix_append [simp]: "TrimPrefix (p @ s) p = s"
  by (simp add: TrimPrefix_def)

lemma Split_not_Nil [simp]: "Split c s \<noteq> []"
  by (induction s) (auto split: list.splits)

lemma Split_no_sep: "c \<notin> set s \<Longrightarrow> Split c s = [s]"
  by (induction s) auto

lemma Split_append: "c \<notin> set s \<Longrightarrow> Split c (s @ c # t) = s # Split c t"
  by (induction s) auto

lemma SplitN2_append: "c \<notin> set s \<Longrightarrow> SplitN2 c (s @ c # t) = [s, t]"
  by (induction s) auto

lemma show_nat_not_Nil [simp]: "show_nat n \<noteq> []"
  by (subst show_nat.simps) simp

lemma show_int_not_Nil [simp]: "show_int n \<noteq> []"
  by (simp add: show_int_def)

text \<open>Reading decimal numbers back.\<close>

definition is_digit :: "char \<Rightarrow> bool" where
  "is_digit c \<longleftrightarrow> 48 \<le> (of_char c :: nat) \<and> (of_char c :: nat) \<le> 57"

definition digit_val :: "char \<Rightarrow> nat" where
  "digit_val c = of_char c - 48"

fun read_digits :: "nat \<Rightarrow> string \<Rightarrow> nat \<times> string" where
  "read_digits acc [] = (acc, [])"
| "read_digits acc (c # s) =
    (if is_digit c then read_digits (10 * acc + digit_val c) s else (acc, c # s))"

definition read_int :: "string \<Rightarrow> (int \<times> string) option" where
  "read_int s = (case s of
      [] \<Rightarrow> None
    | c # t \<Rightarrow>
        if c = CHR ''-'' then (case t of
            [] \<Rightarrow> None
          | d # _ \<Rightarrow> if is_digit d then (case read_digits 0 t of (n, rest) \<Rightarrow> Some (- int n, rest)) else None)
        else if is_digit c then (case read_digits 0 s of (n, rest) \<Rightarrow> Some (int n, rest))
        else None)"

lemma digit_char [simp]: "d < 10 \<Longrightarrow> is_digit (char_of (48 + d))" "d < 10 \<Longrightarrow> digit_val (char_of (48 + d)) = d"
  by (simp_all add: is_digit_def digit_val_def)

lemma show_nat_digits: "c \<in> set (show_nat n) \<Longrightarrow> is_digit c"
proof (induction n rule: show_nat.induct)
  case (1 n)
  then show ?case by (subst (asm) (2) show_nat.simps) (auto split: if_splits)
qed

lemma read_digits_show: "\<exists>k. read_digits acc (show_nat n @ rest) = read_digits (k * acc + n) rest"
proof (induction n arbitrary: acc rest rule: show_nat.induct)
  case (1 n)
  show ?case
  proof (cases "n < 10")
    case True
    then show ?thesis by (subst show_nat.simps) (auto intro: exI[of _ 10])
  next
    case False
    obtain k where k: "read_digits acc (show_nat (n div 10) @ [char_of (48 + n mod 10)] @ rest) =
        read_digits (k * acc + n div 10) ([char_of (48 + n mod 10)] @ rest)"
      using 1[OF False] by blast
    have "10 * (k * acc + n div 10) + n mod 10 = (10 * k) * acc + n" by (simp add: algebra_simps)
    then show ?thesis using False k by (subst show_nat.simps) (auto simp: ac_simps intro!: exI[of _ "10 * k"])
  qed
qed

lemma read_digits_show0 [simp]:
  assumes "rest = [] \<or> \<not> is_digit (hd rest)"
  shows "read_digits 0 (show_nat n @ rest) = (n, rest)"
proof -
  have "read_digits n rest = (n, rest)" using assms by (cases rest) auto
  then show ?thesis using read_digits_show[of 0 n rest] by auto
qed

lemma read_int_show:
  assumes "rest = [] \<or> \<not> is_digit (hd rest)"
  shows "read_int (show_int n @ rest) = Some (n, rest)"
proof -
  have h: "\<exists>c t. show_nat m = c # t \<and> is_digit c \<and> c \<noteq> CHR ''-''" for m
  proof -
    obtain c t where ct: "show_nat m = c # t" by (cases "show_nat m") auto
    then have "is_digit c" using show_nat_digits[of c m] by simp
    moreover have "\<not> is_digit (CHR ''-'')" by (simp add: is_digit_def)
    ultimately show ?thesis using ct by auto
  qed
  show ?thesis
  proof (cases "n < 0")
    case True
    obtain c t where ct: "show_nat (nat (- n)) = c # t" "is_digit c" using h by blast
    have "read_digits 0 ((c # t) @ rest) = (nat (- n), rest)"
      using read_digits_show0[OF assms, of "nat (- n)"] ct(1) by simp
    then show ?thesis using True ct by (simp add: read_int_def show_int_def)
  next
    case False
    obtain c t where ct: "show_nat (nat n) = c # t" "is_digit c" "c \<noteq> CHR ''-''" using h by blast
    have "read_digits 0 ((c # t) @ rest) = (nat n, rest)"
      using read_digits_show0[OF assms, of "nat n"] ct(1) by simp
    then show ?thesis using False ct by (simp add: read_int_def show_int_def)
  qed
qed

section \<open>Stateful code: the state monad and its weakest preconditions\<close>

text \<open>
  \<open>wp m Q w\<close>: the run of \<open>m\<close> from the world \<open>w\<close> ends in a result and a world that satisfy
  \<open>Q\<close>. The collection \<open>wp\<close> holds the rules that compute it on the monad's operations; each
  interface adds a rule per call.
\<close>

named_theorems wp "weakest preconditions of the state monad"

abbreviation ret :: "'a \<Rightarrow> ('w, 'a) state" where
  "ret \<equiv> State_Monad.return"

abbreviation act :: "('w \<Rightarrow> 'a \<times> 'w) \<Rightarrow> ('w, 'a) state" where
  "act \<equiv> State"

definition wp :: "('w, 'a) state \<Rightarrow> ('a \<Rightarrow> 'w \<Rightarrow> bool) \<Rightarrow> 'w \<Rightarrow> bool" where
  "wp m Q w \<longleftrightarrow> (case run_state m w of (a, w') \<Rightarrow> Q a w')"

lemma wp_return [wp, simp]: "wp (ret a) Q = Q a"
  by (simp add: wp_def fun_eq_iff)

lemma wp_bind [wp, simp]: "wp (m \<bind> f) Q = wp m (\<lambda>a. wp (f a) Q)"
  by (simp add: wp_def fun_eq_iff split: prod.splits)

lemma wp_conseq: "wp m P w \<Longrightarrow> (\<And>a w'. P a w' \<Longrightarrow> Q a w') \<Longrightarrow> wp m Q w"
  by (auto simp: wp_def split: prod.splits)

lemma wp_conj: "wp m P w \<Longrightarrow> wp m Q w \<Longrightarrow> wp m (\<lambda>a w'. P a w' \<and> Q a w') w"
  by (auto simp: wp_def split: prod.splits)

lemma wp_run: "wp m Q w \<longleftrightarrow> Q (fst (run_state m w)) (snd (run_state m w))"
  by (simp add: wp_def split: prod.splits)

lemma wpI: "(\<And>a w'. run_state m w = (a, w') \<Longrightarrow> Q a w') \<Longrightarrow> wp m Q w"
  by (simp add: wp_def split: prod.splits)

lemma wpD: "wp m Q w \<Longrightarrow> run_state m w = (a, w') \<Longrightarrow> Q a w'"
  by (simp add: wp_def)

lemma wp_any: "(\<And>a w'. Q a w') \<Longrightarrow> wp m Q w"
  by (simp add: wp_run)

text \<open>\<open>keeps f m\<close>: the run of \<open>m\<close> leaves the view \<open>f\<close> of the world as it was.\<close>

definition keeps :: "('w \<Rightarrow> 'v) \<Rightarrow> ('w, 'a) state \<Rightarrow> bool" where
  "keeps f m \<longleftrightarrow> (\<forall>w. f (snd (run_state m w)) = f w)"

lemma keeps_return [simp, intro]: "keeps f (ret a)"
  by (simp add: keeps_def)

lemma keeps_bind [intro]: "keeps f m \<Longrightarrow> (\<And>a. keeps f (g a)) \<Longrightarrow> keeps f (m \<bind> g)"
  by (simp add: keeps_def split: prod.splits) (metis snd_conv)

lemma wp_keeps:
  assumes "keeps f m" and "\<And>a w'. f w' = f w \<Longrightarrow> Q a w'"
  shows "wp m Q w"
  using assms by (auto simp: keeps_def wp_run)

section \<open>Slices\<close>

text \<open>\<open>xs[i]\<close>: an index outside the slice panics, which is \<open>None\<close>.\<close>

definition index :: "'a list \<Rightarrow> int \<Rightarrow> 'a option" where
  "index xs i = (if 0 \<le> i \<and> i < int (length xs) then Some (xs ! nat i) else None)"

lemma index_Some_iff: "index xs i = Some x \<longleftrightarrow> 0 \<le> i \<and> i < int (length xs) \<and> x = xs ! nat i"
  by (auto simp: index_def)

lemma index_in_set: "index xs i = Some x \<Longrightarrow> x \<in> set xs"
  by (auto simp: index_Some_iff nat_less_iff)

lemma index_total: "0 \<le> i \<Longrightarrow> i < int (length xs) \<Longrightarrow> \<exists>x \<in> set xs. index xs i = Some x"
  by (simp add: index_def nat_less_iff)

lemma index_sorted_mono:
  "sorted xs \<Longrightarrow> i \<le> j \<Longrightarrow> index xs i = Some x \<Longrightarrow> index xs j = Some y \<Longrightarrow> x \<le> y"
  by (auto simp: index_Some_iff sorted_iff_nth_mono nat_less_iff)

end
