(* ===== verification/Float64.thy ===== *)
theory Float64
  imports Complex_Main "HOL-Library.Log_Nat" Prelude
begin

text \<open>
  Go's \<open>float64\<close>: IEEE 754 binary64 with round-to-nearest-even, executable on rationals.
  A finite value is the rational it denotes; every arithmetic operation rounds the exact
  rational result to 53 bits of precision (gradual underflow below \<open>2 powi (-1022)\<close>) and
  overflows to an infinity. The two zeros are identified: the sources never divide by a
  zero and never print one that could be negative.

  The locales \<open>monotone_rounding\<close> and \<open>accurate_rounding\<close> state what the clients use of a
  rounding function; they are interpreted on \<open>round64\<close> at the end.
\<close>

section \<open>Rounding to 53 bits\<close>

definition exponent :: "rat \<Rightarrow> int" where
  "exponent x = (let (p, q) = quotient_of \<bar>x\<bar>; e = bitlen p - bitlen q
     in if 2 powi e \<le> \<bar>x\<bar> then e else e - 1)"

definition round_even :: "rat \<Rightarrow> int" where
  "round_even x = (let f = \<lfloor>x\<rfloor>; d = x - of_int f in
     if d < 1 / 2 then f else if d > 1 / 2 then f + 1 else if even f then f else f + 1)"

definition ulp_exponent :: "rat \<Rightarrow> int" where
  "ulp_exponent x = max (exponent x - 52) (- 1074)"

definition round64 :: "rat \<Rightarrow> rat" where
  "round64 x = (if x = 0 then 0 else
     (let u = 2 powi ulp_exponent x in of_int (round_even (x / u)) * u))"

lemma pow2_pos [simp]: "(0::rat) < 2 powi n"
  by simp

lemma pow2_mono: "m \<le> n \<Longrightarrow> (2::rat) powi m \<le> 2 powi n"
  by (rule power_int_increasing) auto

lemma pow2_less_imp: "(2::rat) powi m < 2 powi n \<Longrightarrow> m < n"
  by (meson linorder_not_less pow2_mono)

lemma pow2_of_int: "0 \<le> n \<Longrightarrow> (2::rat) powi n = of_int (2 ^ nat n)"
  by (simp add: power_int_def)

lemma pow2_multiple:
  assumes "m \<le> n"
  shows "(2::rat) powi n = of_int (2 ^ nat (n - m)) * 2 powi m"
proof -
  have "(2::rat) powi n = 2 powi (n - m) * 2 powi m" by (simp flip: power_int_add)
  also have "(2::rat) powi (n - m) = of_int (2 ^ nat (n - m))"
    using assms by (intro pow2_of_int) simp
  finally show ?thesis .
qed

lemma bitlen_ratio:
  assumes "0 < p" "0 < q"
  shows "2 powi (bitlen p - bitlen q - 1) \<le> (of_int p / of_int q :: rat)"
    and "(of_int p / of_int q :: rat) < 2 powi (bitlen p - bitlen q + 1)"
proof -
  have ge1: "1 \<le> bitlen p" "1 \<le> bitlen q"
    using assms bitlen_eq_zero_iff[of p] bitlen_eq_zero_iff[of q] bitlen_nonneg[of p]
      bitlen_nonneg[of q] by linarith+
  have lo: "2 powi (bitlen n - 1) \<le> (of_int n :: rat)" and hi: "(of_int n :: rat) < 2 powi bitlen n"
    if "0 < n" "1 \<le> bitlen n" for n
  proof -
    from bitlen_bounds[OF that(1)] have b: "2 ^ nat (bitlen n - 1) \<le> n" "n < 2 ^ nat (bitlen n)"
      by auto
    have "(2::rat) powi (bitlen n - 1) = of_int (2 ^ nat (bitlen n - 1))"
      using that by (intro pow2_of_int) simp
    also have "\<dots> \<le> of_int n" using b by (simp only: of_int_le_iff)
    finally show "2 powi (bitlen n - 1) \<le> (of_int n :: rat)" .
    have "(of_int n :: rat) < of_int (2 ^ nat (bitlen n))" using b by (simp only: of_int_less_iff)
    also have "\<dots> = 2 powi bitlen n" using that by (intro pow2_of_int[symmetric]) simp
    finally show "(of_int n :: rat) < 2 powi bitlen n" .
  qed
  note bp = lo[OF assms(1) ge1(1)] hi[OF assms(1) ge1(1)]
  note bq = lo[OF assms(2) ge1(2)] hi[OF assms(2) ge1(2)]
  have q0: "(0::rat) < of_int q" using assms by simp
  have "(2::rat) powi (bitlen p - bitlen q - 1) * of_int q
      \<le> 2 powi (bitlen p - bitlen q - 1) * 2 powi bitlen q"
    using bq by (intro mult_left_mono) auto
  also have "\<dots> = 2 powi (bitlen p - 1)"
    by (simp flip: power_int_add add: algebra_simps)
  finally show "2 powi (bitlen p - bitlen q - 1) \<le> (of_int p / of_int q :: rat)"
    using bp q0 by (simp add: pos_le_divide_eq)
  have "(of_int p :: rat) < 2 powi (bitlen p - bitlen q + 1) * 2 powi (bitlen q - 1)"
    using bp by (simp flip: power_int_add)
  also have "\<dots> \<le> 2 powi (bitlen p - bitlen q + 1) * of_int q"
    using bq by (intro mult_left_mono) auto
  finally show "(of_int p / of_int q :: rat) < 2 powi (bitlen p - bitlen q + 1)"
    using q0 by (simp add: pos_divide_less_eq)
qed

lemma exponent_bounds:
  assumes "x \<noteq> 0"
  shows "2 powi exponent x \<le> \<bar>x\<bar>" and "\<bar>x\<bar> < 2 powi (exponent x + 1)"
proof -
  obtain p q where pq: "quotient_of \<bar>x\<bar> = (p, q)" by force
  have q: "0 < q" using quotient_of_denom_pos[OF pq] .
  have xe: "\<bar>x\<bar> = of_int p / of_int q" using quotient_of_div[OF pq] .
  have "0 < (of_int p / of_int q :: rat)" using assms by (simp flip: xe)
  then have p: "0 < p" using q by (simp add: zero_less_divide_iff)
  note b = bitlen_ratio[OF p q]
  have e: "exponent x = (if 2 powi (bitlen p - bitlen q) \<le> \<bar>x\<bar> then bitlen p - bitlen q
      else bitlen p - bitlen q - 1)"
    by (simp add: exponent_def pq Let_def)
  show "2 powi exponent x \<le> \<bar>x\<bar>" using b by (auto simp: e simp flip: xe)
  show "\<bar>x\<bar> < 2 powi (exponent x + 1)" using b by (auto simp: e simp flip: xe)
qed

lemma exponent_minus [simp]: "exponent (- x) = exponent x"
  by (simp add: exponent_def)

lemma exponent_mono:
  assumes "0 < x" "x \<le> y"
  shows "exponent x \<le> exponent y"
proof (rule ccontr)
  assume "\<not> ?thesis"
  then have "(2::rat) powi (exponent y + 1) \<le> 2 powi exponent x" by (intro pow2_mono) simp
  also have "\<dots> \<le> x" using exponent_bounds(1)[of x] assms by simp
  also have "\<dots> \<le> y" by fact
  finally show False using exponent_bounds(2)[of y] assms by simp
qed

lemma round_even_of_int [simp]: "round_even (of_int n) = n"
  by (simp add: round_even_def)

lemma round_even_mono: "x \<le> y \<Longrightarrow> round_even x \<le> round_even y"
proof -
  assume xy: "x \<le> y"
  then have "\<lfloor>x\<rfloor> \<le> \<lfloor>y\<rfloor>" by (rule floor_mono)
  then consider "\<lfloor>x\<rfloor> + 1 \<le> \<lfloor>y\<rfloor>" | "\<lfloor>x\<rfloor> = \<lfloor>y\<rfloor>" by linarith
  then show ?thesis
  proof cases
    case 1
    then show ?thesis by (auto simp: round_even_def Let_def)
  next
    case 2
    then show ?thesis using xy by (auto simp: round_even_def Let_def)
  qed
qed

lemma round_even_error: "\<bar>of_int (round_even x) - x\<bar> \<le> 1 / 2"
  using floor_correct[of x] by (auto simp: round_even_def Let_def abs_le_iff)

lemma round_even_minus: "round_even (- x) = - round_even x"
proof (cases "x = of_int \<lfloor>x\<rfloor>")
  case True
  then show ?thesis by (metis of_int_minus round_even_of_int)
next
  case False
  then have "\<lfloor>- x\<rfloor> = - \<lfloor>x\<rfloor> - 1"
    by (metis ceiling_altdef floor_minus minus_add_distrib uminus_add_conv_diff add.commute)
  then show ?thesis by (auto simp: round_even_def Let_def)
qed

lemma round64_0 [simp]: "round64 0 = 0"
  by (simp add: round64_def)

lemma round64_minus: "round64 (- x) = - round64 x"
  by (simp add: round64_def ulp_exponent_def Let_def round_even_minus)

lemma round64_le_pow2:
  assumes "0 < x" "x \<le> 2 powi k" "ulp_exponent x \<le> k"
  shows "round64 x \<le> 2 powi k"
proof -
  let ?u = "(2::rat) powi ulp_exponent x"
  have k: "(2::rat) powi k = of_int (2 ^ nat (k - ulp_exponent x)) * ?u"
    using assms(3) by (rule pow2_multiple)
  have "x / ?u \<le> of_int (2 ^ nat (k - ulp_exponent x))"
    using assms(2) k by (simp add: pos_divide_le_eq)
  from round_even_mono[OF this] have "round_even (x / ?u) \<le> 2 ^ nat (k - ulp_exponent x)"
    by (simp only: round_even_of_int)
  then have "of_int (round_even (x / ?u)) * ?u \<le> of_int (2 ^ nat (k - ulp_exponent x)) * ?u"
    by (intro mult_right_mono) (simp_all only: of_int_le_iff, simp)
  then show ?thesis using assms(1) k by (simp add: round64_def Let_def)
qed

lemma round64_ge_pow2:
  assumes "2 powi k \<le> x" "ulp_exponent x \<le> k"
  shows "2 powi k \<le> round64 x"
proof -
  let ?u = "(2::rat) powi ulp_exponent x"
  have k: "(2::rat) powi k = of_int (2 ^ nat (k - ulp_exponent x)) * ?u"
    using assms(2) by (rule pow2_multiple)
  have "of_int (2 ^ nat (k - ulp_exponent x)) \<le> x / ?u"
    using assms(1) k by (simp add: pos_le_divide_eq)
  from round_even_mono[OF this] have "2 ^ nat (k - ulp_exponent x) \<le> round_even (x / ?u)"
    by (simp only: round_even_of_int)
  then have "of_int (2 ^ nat (k - ulp_exponent x)) * ?u \<le> of_int (round_even (x / ?u)) * ?u"
    by (intro mult_right_mono) (simp_all only: of_int_le_iff, simp)
  moreover have "x \<noteq> 0" using assms(1) pow2_pos[of k] by linarith
  ultimately show ?thesis using k by (simp add: round64_def Let_def)
qed

lemma round64_mono_pos:
  assumes "0 < x" "x \<le> y"
  shows "round64 x \<le> round64 y"
proof -
  have e: "exponent x \<le> exponent y" using assms by (rule exponent_mono)
  show ?thesis
  proof (cases "ulp_exponent x = ulp_exponent y")
    case True
    have "x / 2 powi ulp_exponent x \<le> y / 2 powi ulp_exponent x"
      using assms by (simp add: divide_right_mono)
    from round_even_mono[OF this] show ?thesis
      using assms True by (simp add: round64_def Let_def mult_right_mono)
  next
    case False
    with e have lt: "exponent x < exponent y" "ulp_exponent y = exponent y - 52"
      "ulp_exponent x \<le> exponent y"
      by (auto simp: ulp_exponent_def)
    have "x \<le> 2 powi exponent y"
    proof -
      have "x < 2 powi (exponent x + 1)" using exponent_bounds(2)[of x] assms by simp
      also have "\<dots> \<le> 2 powi exponent y" using lt by (intro pow2_mono) simp
      finally show ?thesis by simp
    qed
    then have "round64 x \<le> 2 powi exponent y"
      using assms lt by (intro round64_le_pow2)
    also have "2 powi exponent y \<le> round64 y"
      using exponent_bounds(1)[of y] assms lt by (intro round64_ge_pow2) auto
    finally show ?thesis .
  qed
qed

lemma round64_nonneg: "0 \<le> x \<Longrightarrow> 0 \<le> round64 x"
proof -
  assume x: "0 \<le> x"
  let ?u = "(2::rat) powi ulp_exponent x"
  have "of_int 0 \<le> x / ?u" using x by (simp add: divide_nonneg_pos)
  from round_even_mono[OF this] have "0 \<le> round_even (x / ?u)" by (simp only: round_even_of_int)
  then show ?thesis by (simp add: round64_def Let_def)
qed

lemma round64_mono: "x \<le> y \<Longrightarrow> round64 x \<le> round64 y"
proof -
  assume xy: "x \<le> y"
  consider "0 < x" | "x \<le> 0" "0 \<le> y" | "y < 0" by linarith
  then show ?thesis
  proof cases
    case 1
    then show ?thesis using xy by (rule round64_mono_pos)
  next
    case 2
    have "0 \<le> round64 (- x)" "0 \<le> round64 y" using 2 by (auto intro: round64_nonneg)
    then show ?thesis by (simp add: round64_minus)
  next
    case 3
    have "round64 (- y) \<le> round64 (- x)" using 3 xy by (intro round64_mono_pos) auto
    then show ?thesis by (simp add: round64_minus)
  qed
qed

text \<open>An integer multiple of a power of two that fits 53 bits is its own rounding.\<close>

lemma round64_multiple:
  assumes "x = of_int k * 2 powi q" "ulp_exponent x \<le> q"
  shows "round64 x = x"
proof (cases "x = 0")
  case False
  let ?u = "(2::rat) powi ulp_exponent x"
  have "x = of_int (k * 2 ^ nat (q - ulp_exponent x)) * ?u"
    using assms(1) pow2_multiple[OF assms(2)] by (simp only: of_int_mult mult.assoc)
  then have "x / ?u = of_int (k * 2 ^ nat (q - ulp_exponent x))"
    by (metis nonzero_mult_div_cancel_right pow2_pos less_irrefl)
  then have "of_int (round_even (x / ?u)) * ?u = x / ?u * ?u"
    by (simp only: round_even_of_int)
  then show ?thesis using False by (simp add: round64_def Let_def)
qed simp

lemma round64_representable:
  assumes x: "x = of_int k * 2 powi q" and k: "\<bar>k\<bar> \<le> 2 ^ 53" and q: "- 1074 \<le> q"
  shows "round64 x = x"
proof (cases "x = 0")
  case False
  have le: "\<bar>x\<bar> \<le> 2 powi (53 + q)"
  proof -
    have "\<bar>x\<bar> = of_int \<bar>k\<bar> * 2 powi q" by (simp add: x abs_mult)
    also have "\<dots> \<le> of_int (2 ^ 53) * 2 powi q"
      using k by (intro mult_right_mono) (simp_all only: of_int_le_iff, simp)
    also have "\<dots> = 2 powi (53 + q)" by (simp add: power_int_add)
    finally show ?thesis .
  qed
  have e: "exponent x \<le> 53 + q"
    using order_trans[OF exponent_bounds(1)[OF False] le]
      power_int_strict_increasing[of "53 + q" "exponent x" "2::rat"] by fastforce
  show ?thesis
  proof (cases "exponent x \<le> 52 + q")
    case True
    with q have "ulp_exponent x \<le> q" by (simp add: ulp_exponent_def)
    with x show ?thesis by (rule round64_multiple)
  next
    case 2: False
    with e have e53: "exponent x = 53 + q" by simp
    with exponent_bounds(1)[OF False] le have "\<bar>x\<bar> = 2 powi (53 + q)" by simp
    also have "\<dots> = of_int (2 ^ 52) * 2 powi (q + 1)" by (simp add: power_int_add)
    finally have "x = of_int (2 ^ 52) * 2 powi (q + 1) \<or> x = of_int (- (2 ^ 52)) * 2 powi (q + 1)"
      by (auto simp: abs_if split: if_splits)
    moreover have "ulp_exponent x \<le> q + 1" using e53 q by (simp add: ulp_exponent_def)
    ultimately show ?thesis using round64_multiple by blast
  qed
qed simp

lemma round64_of_int:
  assumes "\<bar>n\<bar> \<le> 2 ^ 53"
  shows "round64 (of_int n) = of_int n"
  by (rule round64_representable[of _ n 0]) (use assms in simp_all)

lemma round64_form:
  "\<exists>k q. round64 x = of_int k * 2 powi q \<and> \<bar>k\<bar> \<le> 2 ^ 53 \<and> - 1074 \<le> q"
proof (cases "x = 0")
  case True
  then show ?thesis by (intro exI[of _ 0]) simp
next
  case False
  let ?q = "ulp_exponent x" and ?k = "round_even (x / 2 powi ulp_exponent x)"
  have "\<bar>x\<bar> \<le> 2 powi (exponent x + 1)" using exponent_bounds(2)[OF False] by simp
  also have "\<dots> \<le> 2 powi (53 + ?q)" by (rule pow2_mono) (simp add: ulp_exponent_def)
  also have "\<dots> = of_int (2 ^ 53) * 2 powi ?q" by (simp add: power_int_add)
  finally have "\<bar>x\<bar> / 2 powi ?q \<le> of_int (2 ^ 53)" by (simp add: pos_divide_le_eq)
  then have "x / 2 powi ?q \<le> of_int (2 ^ 53)" "of_int (- (2 ^ 53)) \<le> x / 2 powi ?q"
    by (simp_all add: abs_if divide_simps split: if_splits)
  from this[THEN round_even_mono] have "\<bar>?k\<bar> \<le> 2 ^ 53" by (simp only: round_even_of_int abs_le_iff minus_le_iff)
  then show ?thesis using False
    by (intro exI[of _ ?k] exI[of _ ?q]) (simp add: round64_def Let_def ulp_exponent_def)
qed

lemma round64_idem [simp]: "round64 (round64 x) = round64 x"
  using round64_form[of x] round64_representable by blast

lemma round64_half_ulp: "x \<noteq> 0 \<Longrightarrow> \<bar>round64 x - x\<bar> \<le> 1 / 2 * 2 powi ulp_exponent x"
proof -
  let ?u = "(2::rat) powi ulp_exponent x"
  assume "x \<noteq> 0"
  then have "round64 x - x = (of_int (round_even (x / ?u)) - x / ?u) * ?u"
    by (simp add: round64_def Let_def left_diff_distrib)
  then have "\<bar>round64 x - x\<bar> = \<bar>of_int (round_even (x / ?u)) - x / ?u\<bar> * ?u"
    by (simp add: abs_mult)
  also have "\<dots> \<le> 1 / 2 * ?u"
    by (intro mult_right_mono round_even_error) simp
  finally show ?thesis .
qed

lemma round64_error:
  assumes "2 powi (- 1022) \<le> \<bar>x\<bar>"
  shows "\<bar>round64 x - x\<bar> \<le> 2 powi (- 53) * \<bar>x\<bar>"
proof -
  let ?u = "(2::rat) powi ulp_exponent x"
  have x: "x \<noteq> 0" using assms pow2_pos[of "- 1022"] by auto
  have "(2::rat) powi (- 1022) < 2 powi (exponent x + 1)"
    using assms exponent_bounds(2)[OF x] by linarith
  from pow2_less_imp[OF this] have q: "ulp_exponent x = exponent x - 52"
    by (simp add: ulp_exponent_def)
  have "\<bar>round64 x - x\<bar> \<le> 1 / 2 * ?u" using x by (rule round64_half_ulp)
  also have "\<dots> = 2 powi (- 53) * 2 powi exponent x"
    using q by (simp flip: power_int_add add: power_int_diff power_int_minus)
  also have "\<dots> \<le> 2 powi (- 53) * \<bar>x\<bar>"
    using exponent_bounds(1)[OF x] by (intro mult_left_mono) auto
  finally show ?thesis .
qed

text \<open>
  The relative error holds below the normal range too, for a sum or difference of float64
  values: it is a multiple of the smallest subnormal, so there the rounding is exact.
\<close>

definition on_grid :: "rat \<Rightarrow> bool" where
  "on_grid x \<longleftrightarrow> (\<exists>k. x = of_int k * 2 powi (- 1074))"

lemma on_grid_representable: "round64 x = x \<Longrightarrow> on_grid x"
proof -
  assume "round64 x = x"
  with round64_form[of x] obtain k q where "x = of_int k * 2 powi q" "- 1074 \<le> q" by auto
  with pow2_multiple[of "- 1074" q] show ?thesis
    unfolding on_grid_def by (intro exI[of _ "k * 2 ^ nat (q - - 1074)"]) (simp add: mult.assoc)
qed

lemma on_grid_add: "on_grid x \<Longrightarrow> on_grid y \<Longrightarrow> on_grid (x + y)"
  unfolding on_grid_def by (metis distrib_right of_int_add)

lemma on_grid_diff: "on_grid x \<Longrightarrow> on_grid y \<Longrightarrow> on_grid (x - y)"
  unfolding on_grid_def by (metis left_diff_distrib of_int_diff)

lemma round64_error_grid:
  assumes "on_grid x"
  shows "\<bar>round64 x - x\<bar> \<le> 2 powi (- 53) * \<bar>x\<bar>"
proof (cases "2 powi (- 1022) \<le> \<bar>x\<bar>")
  case True
  then show ?thesis by (rule round64_error)
next
  case False
  have "ulp_exponent x \<le> - 1074" if "x \<noteq> 0"
  proof -
    have "(2::rat) powi exponent x < 2 powi (- 1022)"
      using exponent_bounds(1)[OF that] False by linarith
    from pow2_less_imp[OF this] show ?thesis by (simp add: ulp_exponent_def)
  qed
  with assms have "round64 x = x"
    unfolding on_grid_def using round64_multiple round64_0 by metis
  then show ?thesis by simp
qed

section \<open>What the clients use of a rounding function\<close>

locale monotone_rounding =
  fixes rnd :: "rat \<Rightarrow> rat"
  assumes rnd_mono: "x \<le> y \<Longrightarrow> rnd x \<le> rnd y"
    and rnd_int: "\<bar>n\<bar> \<le> 2 ^ 53 \<Longrightarrow> rnd (of_int n) = of_int n"
begin

lemma rnd_zero [simp]: "rnd 0 = 0"
  using rnd_int[of 0] by simp

lemma rnd_one [simp]: "rnd 1 = 1"
  using rnd_int[of 1] by simp

lemma rnd_nonneg: "0 \<le> x \<Longrightarrow> 0 \<le> rnd x"
  using rnd_mono[of 0 x] by simp

lemma rnd_ge_int: "\<bar>n\<bar> \<le> 2 ^ 53 \<Longrightarrow> of_int n \<le> x \<Longrightarrow> of_int n \<le> rnd x"
  using rnd_mono[of "of_int n" x] by (simp add: rnd_int)

lemma rnd_le_int: "\<bar>n\<bar> \<le> 2 ^ 53 \<Longrightarrow> x \<le> of_int n \<Longrightarrow> rnd x \<le> of_int n"
  using rnd_mono[of x "of_int n"] by (simp add: rnd_int)

lemma rnd_unit: "0 \<le> x \<Longrightarrow> x \<le> 1 \<Longrightarrow> 0 \<le> rnd x \<and> rnd x \<le> 1"
  using rnd_nonneg[of x] rnd_mono[of x 1] by simp

text \<open>A rounded product of a value in \<open>[0, 1]\<close> with an integer stays below the integer.\<close>

lemma rnd_scale_le:
  assumes "0 \<le> x" "x \<le> 1" "0 \<le> n" "n \<le> 2 ^ 53"
  shows "0 \<le> rnd (x * of_int n) \<and> rnd (x * of_int n) \<le> of_int n"
proof -
  have "0 \<le> x * of_int n" "x * of_int n \<le> of_int n"
    using assms by (simp_all add: mult_left_le_one_le)
  then show ?thesis using assms by (auto intro: rnd_nonneg rnd_le_int)
qed

end

locale accurate_rounding = monotone_rounding +
  fixes eps tiny :: rat
  assumes eps_pos: "0 \<le> eps" and eps_lt: "eps < 1"
    and rnd_error: "tiny \<le> \<bar>x\<bar> \<Longrightarrow> \<bar>rnd x - x\<bar> \<le> eps * \<bar>x\<bar>"
begin

text \<open>Rounding loses at most the fraction \<open>eps\<close> of a positive value, and gains at most it.\<close>

lemma rnd_lower: "tiny \<le> x \<Longrightarrow> 0 \<le> x \<Longrightarrow> (1 - eps) * x \<le> rnd x"
  using rnd_error[of x] by (simp add: abs_le_iff algebra_simps)

lemma rnd_upper: "tiny \<le> x \<Longrightarrow> 0 \<le> x \<Longrightarrow> rnd x \<le> (1 + eps) * x"
  using rnd_error[of x] by (simp add: abs_le_iff algebra_simps)

text \<open>A chain of operations: one more rounding adds one factor. Below \<open>tiny\<close> the error is absolute, so an upper
  bound holds for values from there on.\<close>

lemma rnd_chain_upper:
  assumes "0 < tiny" "x \<le> (1 + eps) ^ n * max y tiny"
  shows "rnd x \<le> (1 + eps) ^ Suc n * max y tiny"
proof -
  let ?y = "(1 + eps) ^ n * max y tiny"
  have "1 * tiny \<le> ?y" using assms(1) eps_pos by (intro mult_mono one_le_power) auto
  then have "rnd ?y \<le> (1 + eps) * ?y" using assms(1) by (intro rnd_upper) auto
  then show ?thesis using rnd_mono[OF assms(2)] by (simp add: mult.assoc)
qed

lemma rnd_chain_lower:
  assumes "tiny \<le> x" "0 \<le> x" "(1 - eps) ^ n * y \<le> x"
  shows "(1 - eps) ^ Suc n * y \<le> rnd x"
proof -
  have "(1 - eps) * ((1 - eps) ^ n * y) \<le> (1 - eps) * x" using assms(3) eps_lt by (intro mult_left_mono) auto
  also have "\<dots> \<le> rnd x" by (rule rnd_lower[OF assms(1,2)])
  finally show ?thesis by (simp add: mult.assoc)
qed

end

definition unit_roundoff :: rat where
  "unit_roundoff = 1 / 2 ^ 53"

definition min_normal :: rat where
  "min_normal = 1 / 2 ^ 1022"

interpretation r64: accurate_rounding round64 unit_roundoff min_normal
proof unfold_locales
  show "\<And>x y. x \<le> y \<Longrightarrow> round64 x \<le> round64 y" by (rule round64_mono)
  show "\<And>n. \<bar>n\<bar> \<le> 2 ^ 53 \<Longrightarrow> round64 (of_int n) = of_int n" by (rule round64_of_int)
  show "0 \<le> unit_roundoff" "unit_roundoff < 1" by (simp_all add: unit_roundoff_def)
  have eqs: "min_normal = 2 powi (- 1022)" "unit_roundoff = 2 powi (- 53)"
    by (simp_all add: min_normal_def unit_roundoff_def power_int_minus_divide)
  show "\<And>x. min_normal \<le> \<bar>x\<bar> \<Longrightarrow> \<bar>round64 x - x\<bar> \<le> unit_roundoff * \<bar>x\<bar>"
    unfolding eqs by (rule round64_error)
qed

text \<open>Below the normal range the error is half of the smallest subnormal.\<close>

lemma round64_error_max: "\<bar>round64 x - x\<bar> \<le> unit_roundoff * max \<bar>x\<bar> min_normal"
proof (cases "min_normal \<le> \<bar>x\<bar>")
  case True
  then show ?thesis using r64.rnd_error[of x] by (simp add: max_absorb1)
next
  case False
  have eqs: "min_normal = 2 powi (- 1022)" "unit_roundoff = 2 powi (- 53)"
    by (simp_all add: min_normal_def unit_roundoff_def power_int_minus_divide)
  show ?thesis
  proof (cases "x = 0")
    case x: False
    have "(2::rat) powi exponent x < 2 powi (- 1022)"
      using exponent_bounds(1)[OF x] False unfolding eqs by linarith
    from pow2_less_imp[OF this] have q: "ulp_exponent x = - 1074" by (simp add: ulp_exponent_def)
    from round64_half_ulp[OF x] have "\<bar>round64 x - x\<bar> \<le> 1 / 2 * 2 powi (- 1074)" unfolding q .
    also have "\<dots> = unit_roundoff * min_normal" by (simp add: min_normal_def unit_roundoff_def power_int_minus_divide)
    finally show ?thesis using False by (simp add: max_absorb2)
  qed (simp add: eqs)
qed

section \<open>The type and its operations\<close>

datatype float64 = NaN | PInf | NInf | Fin rat

definition f_overflow :: rat where
  "f_overflow = 2 ^ 1024"

definition f_of_rat :: "rat \<Rightarrow> float64" where
  "f_of_rat r = (let y = round64 r in
     if y \<ge> f_overflow then PInf else if y \<le> - f_overflow then NInf else Fin y)"

definition f_of_int :: "int \<Rightarrow> float64" where
  "f_of_int n = f_of_rat (of_int n)"

definition inf_sgn :: "bool \<Rightarrow> float64" where
  "inf_sgn pos = (if pos then PInf else NInf)"

fun fadd :: "float64 \<Rightarrow> float64 \<Rightarrow> float64" where
  "fadd (Fin x) (Fin y) = f_of_rat (x + y)"
| "fadd NaN _ = NaN"
| "fadd _ NaN = NaN"
| "fadd PInf NInf = NaN"
| "fadd NInf PInf = NaN"
| "fadd PInf _ = PInf"
| "fadd _ PInf = PInf"
| "fadd NInf _ = NInf"
| "fadd _ NInf = NInf"

fun fneg :: "float64 \<Rightarrow> float64" where
  "fneg NaN = NaN" | "fneg PInf = NInf" | "fneg NInf = PInf" | "fneg (Fin x) = Fin (- x)"

definition fsub :: "float64 \<Rightarrow> float64 \<Rightarrow> float64" where
  "fsub x y = fadd x (fneg y)"

fun fmul_inf :: "bool \<Rightarrow> float64 \<Rightarrow> float64" where
  "fmul_inf pos NaN = NaN"
| "fmul_inf pos PInf = inf_sgn pos"
| "fmul_inf pos NInf = inf_sgn (\<not> pos)"
| "fmul_inf pos (Fin x) = (if x = 0 then NaN else inf_sgn (pos \<longleftrightarrow> 0 < x))"

fun fmul :: "float64 \<Rightarrow> float64 \<Rightarrow> float64" where
  "fmul (Fin x) (Fin y) = f_of_rat (x * y)"
| "fmul NaN _ = NaN"
| "fmul PInf y = fmul_inf True y"
| "fmul NInf y = fmul_inf False y"
| "fmul (Fin x) NaN = NaN"
| "fmul (Fin x) PInf = fmul_inf True (Fin x)"
| "fmul (Fin x) NInf = fmul_inf False (Fin x)"

fun fdiv :: "float64 \<Rightarrow> float64 \<Rightarrow> float64" where
  "fdiv NaN _ = NaN"
| "fdiv _ NaN = NaN"
| "fdiv (Fin x) (Fin y) =
     (if y = 0 then (if x = 0 then NaN else inf_sgn (0 < x)) else f_of_rat (x / y))"
| "fdiv (Fin x) _ = Fin 0"
| "fdiv PInf (Fin y) = inf_sgn (0 \<le> y)"
| "fdiv NInf (Fin y) = inf_sgn (\<not> 0 \<le> y)"
| "fdiv _ _ = NaN"

fun flt :: "float64 \<Rightarrow> float64 \<Rightarrow> bool" where
  "flt (Fin x) (Fin y) = (x < y)"
| "flt NaN _ = False"
| "flt _ NaN = False"
| "flt NInf y = (y \<noteq> NInf)"
| "flt x PInf = (x \<noteq> PInf)"
| "flt _ _ = False"

fun fle :: "float64 \<Rightarrow> float64 \<Rightarrow> bool" where
  "fle NaN _ = False"
| "fle _ NaN = False"
| "fle x y = (x = y \<or> flt x y)"

text \<open>\<open>math.Floor\<close>, \<open>math.Ceil\<close>, \<open>math.Round\<close> (half away from zero) and \<open>math.Max\<close>.
  The integer results are exact: a float64 with a fractional part is below \<open>2 ^ 52\<close>.\<close>

fun f_map :: "(rat \<Rightarrow> int) \<Rightarrow> float64 \<Rightarrow> float64" where
  "f_map g (Fin x) = Fin (of_int (g x))"
| "f_map g NaN = NaN"
| "f_map g PInf = PInf"
| "f_map g NInf = NInf"

definition Floor :: "float64 \<Rightarrow> float64" where "Floor x = f_map floor x"

definition Ceil :: "float64 \<Rightarrow> float64" where "Ceil x = f_map ceiling x"

definition round_away :: "rat \<Rightarrow> int" where
  "round_away x = (if x < 0 then \<lceil>x - 1 / 2\<rceil> else \<lfloor>x + 1 / 2\<rfloor>)"

definition Round :: "float64 \<Rightarrow> float64" where "Round x = f_map round_away x"

definition fMax :: "float64 \<Rightarrow> float64 \<Rightarrow> float64" where
  "fMax x y = (if x = PInf \<or> y = PInf then PInf else if x = NaN \<or> y = NaN then NaN
     else if flt y x then x else y)"

text \<open>
  Conversion to a signed integer truncates; outside the target's range the Go specification
  leaves the value to the implementation, so it is the parameter \<open>oor\<close>.
\<close>

definition trunc_rat :: "rat \<Rightarrow> int" where
  "trunc_rat x = (if x < 0 then \<lceil>x\<rceil> else \<lfloor>x\<rfloor>)"

fun f_to_i32 :: "(float64 \<Rightarrow> int) \<Rightarrow> float64 \<Rightarrow> int" where
  "f_to_i32 oor (Fin x) = (if is_i32 (trunc_rat x) then trunc_rat x else i32 (oor (Fin x)))"
| "f_to_i32 oor x = i32 (oor x)"

fun f_to_i64 :: "(float64 \<Rightarrow> int) \<Rightarrow> float64 \<Rightarrow> int" where
  "f_to_i64 oor (Fin x) = (if is_i64 (trunc_rat x) then trunc_rat x else i64 (oor (Fin x)))"
| "f_to_i64 oor x = i64 (oor x)"

text \<open>The verb \<open>%.1f\<close> of package fmt: the exact value rounded to one decimal, half to even.\<close>

fun fmt_f1 :: "float64 \<Rightarrow> string" where
  "fmt_f1 NaN = ''NaN''"
| "fmt_f1 PInf = ''+Inf''"
| "fmt_f1 NInf = ''-Inf''"
| "fmt_f1 (Fin x) = (let n = nat (round_even (\<bar>x\<bar> * 10)) in
     (if x < 0 then ''-'' else []) @ show_nat (n div 10) @ ''.'' @ show_nat (n mod 10))"

lemma is_i32_f_to_i32 [simp, intro]: "is_i32 (f_to_i32 oor x)"
  by (cases x) auto

lemma f_of_rat_finite: "\<bar>round64 r\<bar> < f_overflow \<Longrightarrow> f_of_rat r = Fin (round64 r)"
  by (auto simp: f_of_rat_def Let_def)

lemma int53_lt_overflow: "\<bar>n\<bar> \<le> 2 ^ 53 \<Longrightarrow> \<bar>of_int n\<bar> < f_overflow"
proof -
  assume n: "\<bar>n\<bar> \<le> 2 ^ 53"
  have "(2::int) ^ 53 < 2 ^ 1024" by (rule power_strict_increasing) auto
  with n have "\<bar>n\<bar> < 2 ^ 1024" by (rule le_less_trans)
  then have "(of_int \<bar>n\<bar> :: rat) < of_int (2 ^ 1024)" by (simp only: of_int_less_iff)
  then show ?thesis by (simp add: f_overflow_def)
qed

lemma f_of_rat_of_int: "\<bar>n\<bar> \<le> 2 ^ 53 \<Longrightarrow> f_of_rat (of_int n) = Fin (of_int n)"
  using int53_lt_overflow[of n] by (subst f_of_rat_finite) (simp_all add: round64_of_int)

lemma f_of_rat_numeral [simp]:
  "numeral n \<le> (2 ^ 53 :: int) \<Longrightarrow> f_of_rat (numeral n) = Fin (numeral n)"
  "numeral n \<le> (2 ^ 53 :: int) \<Longrightarrow> f_of_rat (- numeral n) = Fin (- numeral n)"
  "f_of_rat 0 = Fin 0"
  "f_of_rat 1 = Fin 1"
  using f_of_rat_of_int[of "numeral n"] f_of_rat_of_int[of "- numeral n"] f_of_rat_of_int[of 0]
    f_of_rat_of_int[of 1]
  by simp_all

lemma f_of_int_small: "\<bar>n\<bar> \<le> 2 ^ 53 \<Longrightarrow> f_of_int n = Fin (of_int n)"
  by (simp add: f_of_int_def f_of_rat_of_int)

lemma f_of_int_i32 [simp]: "is_i32 n \<Longrightarrow> f_of_int n = Fin (of_int n)"
  by (rule f_of_int_small) (auto simp: is_i32_def)

text \<open>Comparison is the order of the values, with no value related to \<open>NaN\<close>.\<close>

lemma flt_irrefl [simp]: "\<not> flt x x"
  by (cases x) auto

lemma fle_Fin [simp]: "fle (Fin x) (Fin y) \<longleftrightarrow> x \<le> y"
  by auto

lemma f_to_i32_ceiling:
  "is_i32 \<lceil>x\<rceil> \<Longrightarrow> f_to_i32 oor (Ceil (Fin x)) = \<lceil>x\<rceil>"
  by (simp add: Ceil_def trunc_rat_def)

lemma r64_error_grid: "on_grid x \<Longrightarrow> \<bar>round64 x - x\<bar> \<le> unit_roundoff * \<bar>x\<bar>"
  using round64_error_grid[of x] by (simp add: unit_roundoff_def power_int_minus_divide)

lemma r64_sum_le: "on_grid x \<Longrightarrow> 0 \<le> x \<Longrightarrow> round64 x \<le> (1 + unit_roundoff) * x"
  using r64_error_grid[of x] abs_ge_self[of "round64 x - x"] by (simp add: algebra_simps)

section \<open>The order of \<open>sort.Float64s\<close>\<close>

text \<open>\<open>NaN\<close> values come first, then the values in numeric order.\<close>

instantiation float64 :: linorder
begin

fun less_eq_float64 :: "float64 \<Rightarrow> float64 \<Rightarrow> bool" where
  "less_eq_float64 NaN y = True"
| "less_eq_float64 x NaN = False"
| "less_eq_float64 NInf y = True"
| "less_eq_float64 x NInf = False"
| "less_eq_float64 (Fin x) (Fin y) = (x \<le> y)"
| "less_eq_float64 (Fin x) PInf = True"
| "less_eq_float64 PInf (Fin y) = False"
| "less_eq_float64 PInf PInf = True"

definition less_float64 :: "float64 \<Rightarrow> float64 \<Rightarrow> bool" where
  "less_float64 x y \<longleftrightarrow> x \<le> y \<and> \<not> y \<le> x"

instance
proof
  fix x y z :: float64
  show "x < y \<longleftrightarrow> x \<le> y \<and> \<not> y \<le> x" by (rule less_float64_def)
  show "x \<le> x" by (cases x) auto
  show "x \<le> y \<Longrightarrow> y \<le> z \<Longrightarrow> x \<le> z" by (cases x; cases y; cases z) auto
  show "x \<le> y \<Longrightarrow> y \<le> x \<Longrightarrow> x = y" by (cases x; cases y) auto
  show "x \<le> y \<or> y \<le> x" by (cases x; cases y) auto
qed

end

text \<open>It is the comparison \<open>x < y || (isNaN(x) && !isNaN(y))\<close> of package sort.\<close>

lemma less_float64_iff: "x < y \<longleftrightarrow> flt x y \<or> (x = NaN \<and> y \<noteq> NaN)"
  by (cases x; cases y) (auto simp: less_float64_def)

end
