(* ===== verification/API_Types.thy ===== *)
theory API_Types
  imports Float64
begin

text \<open>
  The custom resources of \<open>api/v1alpha1\<close>: \<open>RightsizingPolicy\<close> and
  \<open>RightsizingRecommendation\<close>, field by field, and the default policy.

  \<^item> \<open>resource.Quantity\<close> is a type of k8s.io/apimachinery: it is the type parameter \<open>'q\<close>,
    with the operations the sources call collected in the record \<open>quantity_lib\<close>.
  \<^item> \<open>RecommendationState\<close> and \<open>RecommendationDirection\<close> are Go string types: any string can
    come back from the API server (a fresh object has state \<open>[]\<close>), so they stay strings.
  \<^item> A \<open>*metav1.Time\<close> is a \<open>time option\<close>; a time is in nanoseconds since the epoch. Through
    the API server a \<open>metav1.Time\<close> keeps whole seconds only: \<open>serStatus\<close>.
\<close>

type_synonym time = int

abbreviation (input) Second :: time where "Second \<equiv> 1000000000"
abbreviation (input) Minute :: time where "Minute \<equiv> 60 * Second"
abbreviation (input) Hour :: time where "Hour \<equiv> 60 * Minute"

section \<open>Quantities\<close>

record 'q quantity_lib =
  ParseQuantity :: "string \<Rightarrow> 'q option"
  Value :: "'q \<Rightarrow> int"
  QString :: "'q \<Rightarrow> string"
  ZeroQuantity :: 'q

section \<open>Constants\<close>

definition AnnotationExclude :: string where
  "AnnotationExclude = ''rightsizing.redhatconsulting.io/exclude''"

definition LabelOwner :: string where
  "LabelOwner = ''rightsizing.redhatconsulting.io/owner''"

definition DirectionDownsize :: string where "DirectionDownsize = ''downsize''"
definition DirectionUpsize :: string where "DirectionUpsize = ''upsize''"

definition StatePending :: string where "StatePending = ''pending''"
definition StateAwaitingApproval :: string where "StateAwaitingApproval = ''awaiting-approval''"
definition StateApproved :: string where "StateApproved = ''approved''"
definition StateAppliedPendingRestart :: string where
  "StateAppliedPendingRestart = ''applied-pending-restart''"
definition StateApplied :: string where "StateApplied = ''applied''"
definition StateReverted :: string where "StateReverted = ''reverted''"
definition StateFailed :: string where "StateFailed = ''failed''"

lemmas state_defs = StatePending_def StateAwaitingApproval_def StateApproved_def
  StateAppliedPendingRestart_def StateApplied_def StateReverted_def StateFailed_def

lemma states_distinct [simp]:
  "StatePending \<noteq> StateAwaitingApproval" "StateAwaitingApproval \<noteq> StatePending"
  "StatePending \<noteq> StateAppliedPendingRestart" "StateAppliedPendingRestart \<noteq> StatePending"
  "StatePending \<noteq> StateApplied" "StateApplied \<noteq> StatePending"
  "StatePending \<noteq> StateReverted" "StateReverted \<noteq> StatePending"
  "StatePending \<noteq> StateFailed" "StateFailed \<noteq> StatePending"
  "StateAwaitingApproval \<noteq> StateAppliedPendingRestart"
  "StateAppliedPendingRestart \<noteq> StateAwaitingApproval"
  "StateAwaitingApproval \<noteq> StateApplied" "StateApplied \<noteq> StateAwaitingApproval"
  "StateAwaitingApproval \<noteq> StateReverted" "StateReverted \<noteq> StateAwaitingApproval"
  "StateAwaitingApproval \<noteq> StateFailed" "StateFailed \<noteq> StateAwaitingApproval"
  "StateAppliedPendingRestart \<noteq> StateApplied" "StateApplied \<noteq> StateAppliedPendingRestart"
  "StateAppliedPendingRestart \<noteq> StateReverted" "StateReverted \<noteq> StateAppliedPendingRestart"
  "StateAppliedPendingRestart \<noteq> StateFailed" "StateFailed \<noteq> StateAppliedPendingRestart"
  "StateApplied \<noteq> StateReverted" "StateReverted \<noteq> StateApplied"
  "StateApplied \<noteq> StateFailed" "StateFailed \<noteq> StateApplied"
  "StateReverted \<noteq> StateFailed" "StateFailed \<noteq> StateReverted"
  "StateApproved \<noteq> StatePending" "StateApproved \<noteq> StateAwaitingApproval"
  "StateApproved \<noteq> StateAppliedPendingRestart" "StateApproved \<noteq> StateApplied"
  "StateApproved \<noteq> StateReverted" "StateApproved \<noteq> StateFailed"
  "StatePending \<noteq> StateApproved" "StateAwaitingApproval \<noteq> StateApproved"
  "StateAppliedPendingRestart \<noteq> StateApproved" "StateApplied \<noteq> StateApproved"
  "StateReverted \<noteq> StateApproved" "StateFailed \<noteq> StateApproved"
  "[] \<noteq> StatePending" "[] \<noteq> StateAwaitingApproval" "[] \<noteq> StateAppliedPendingRestart"
  "[] \<noteq> StateApplied" "[] \<noteq> StateReverted" "[] \<noteq> StateFailed" "[] \<noteq> StateApproved"
  by (simp_all add: state_defs)

lemma directions_distinct [simp]:
  "DirectionDownsize \<noteq> DirectionUpsize" "DirectionUpsize \<noteq> DirectionDownsize"
  by (simp_all add: DirectionDownsize_def DirectionUpsize_def)

section \<open>RightsizingPolicy\<close>

record AlgorithmSpec =
  Percentile :: int
  HeadroomPercent :: int

record 'q ThresholdsSpec =
  MinCPUSavings :: int
  MinMemorySavings :: 'q
  UpsizeUtilizationPercent :: int

record AutoModeSpec =
  Enabled :: bool
  Schedule :: string

record 'q MetricsStorageSpec =
  RetentionDays :: int
  StorageSize :: 'q

record 'q RightsizingPolicySpec =
  LookbackDays :: int
  Algorithm :: AlgorithmSpec
  Thresholds :: "'q ThresholdsSpec"
  RevertRetentionDays :: int
  AutoMode :: AutoModeSpec
  ReconcileIntervalMinutes :: int
  MetricsStorage :: "'q MetricsStorageSpec"

record 'q RightsizingPolicy =
  PolicyName :: string
  PolicyResourceVersion :: nat
  PolicySpec :: "'q RightsizingPolicySpec"

text \<open>\<open>MustParse\<close> panics on a string that does not parse: \<open>None\<close>.\<close>

definition DefaultPolicySpec :: "'q quantity_lib \<Rightarrow> 'q RightsizingPolicySpec option" where
  "DefaultPolicySpec Q =
    (case (ParseQuantity Q ''1Gi'', ParseQuantity Q ''50Gi'') of
       (Some minMem, Some storage) \<Rightarrow> Some
         \<lparr>LookbackDays = 30,
          Algorithm = \<lparr>Percentile = 95, HeadroomPercent = 20\<rparr>,
          Thresholds = \<lparr>MinCPUSavings = 1, MinMemorySavings = minMem, UpsizeUtilizationPercent = 90\<rparr>,
          RevertRetentionDays = 30,
          AutoMode = \<lparr>Enabled = False, Schedule = ''0 2 * * *''\<rparr>,
          ReconcileIntervalMinutes = 60,
          MetricsStorage = \<lparr>RetentionDays = 90, StorageSize = storage\<rparr>\<rparr>
     | _ \<Rightarrow> None)"

section \<open>RightsizingRecommendation\<close>

record CPUSpec =
  Cores :: int
  Sockets :: int
  Threads :: int

record 'q ResourceSpec =
  CPU :: CPUSpec
  Memory :: 'q

record ObjectRef =
  RefName :: string
  RefNamespace :: string

record MetricsSnapshot =
  SnapLookbackDays :: int
  CPUP95Percent :: float64
  MemoryP95Percent :: float64
  CPUMaxPercent :: float64
  MemoryMaxPercent :: float64

record 'q SavingsSpec =
  SavingsCPU :: int
  SavingsMemory :: 'q

record 'q RightsizingRecommendationSpec =
  VirtualMachineRef :: ObjectRef
  Direction :: string
  Current :: "'q ResourceSpec"
  Recommended :: "'q ResourceSpec"
  Savings :: "'q SavingsSpec"
  Metrics :: MetricsSnapshot
  HotplugCapable :: bool
  Reason :: string

record 'q RightsizingRecommendationStatus =
  State :: string
  LastCalculated :: "time option"
  AppliedAt :: "time option"
  ScheduledRestartAt :: "time option"
  RevertBefore :: "time option"
  RevertConfig :: "'q ResourceSpec option"
  Message :: string
  Owner :: string
  ApprovalToken :: string
  NotifiedAt :: "time option"
  ApprovedBy :: string
  ApprovedAt :: "time option"
  RejectedBy :: string
  RejectedAt :: "time option"
  RejectionReason :: string
  ServiceNowIncident :: string
  ReminderSentAt :: "time option"

record 'q RightsizingRecommendation =
  Name :: string
  Namespace :: string
  ResourceVersion :: nat
  Spec :: "'q RightsizingRecommendationSpec"
  Status :: "'q RightsizingRecommendationStatus"

text \<open>The zero value of the status: what a newly created object has.\<close>

definition emptyStatus :: "'q RightsizingRecommendationStatus" where
  "emptyStatus = \<lparr>State = [], LastCalculated = None, AppliedAt = None,
     ScheduledRestartAt = None, RevertBefore = None, RevertConfig = None, Message = [],
     Owner = [], ApprovalToken = [], NotifiedAt = None, ApprovedBy = [], ApprovedAt = None,
     RejectedBy = [], RejectedAt = None, RejectionReason = [], ServiceNowIncident = [],
     ReminderSentAt = None\<rparr>"

abbreviation updStatus ::
  "('q RightsizingRecommendationStatus \<Rightarrow> 'q RightsizingRecommendationStatus) \<Rightarrow>
   'q RightsizingRecommendation \<Rightarrow> 'q RightsizingRecommendation" where
  "updStatus f r \<equiv> r\<lparr>Status := f (Status r)\<rparr>"

abbreviation recKey :: "'q RightsizingRecommendation \<Rightarrow> string \<times> string" where
  "recKey r \<equiv> (Namespace r, Name r)"

abbreviation recState :: "'q RightsizingRecommendation \<Rightarrow> string" where
  "recState r \<equiv> State (Status r)"

definition truncSecond :: "time \<Rightarrow> time" where
  "truncSecond t = t - t mod Second"

text \<open>A status as the API server gives it back: times in whole seconds. The zero time of package time (the
  first instant of the year 1), which would come back as no time at all, is left out of the model.\<close>

definition serStatus ::
  "'q RightsizingRecommendationStatus \<Rightarrow> 'q RightsizingRecommendationStatus" where
  "serStatus s = s\<lparr>LastCalculated := map_option truncSecond (LastCalculated s),
     AppliedAt := map_option truncSecond (AppliedAt s),
     ScheduledRestartAt := map_option truncSecond (ScheduledRestartAt s),
     RevertBefore := map_option truncSecond (RevertBefore s),
     NotifiedAt := map_option truncSecond (NotifiedAt s),
     ApprovedAt := map_option truncSecond (ApprovedAt s),
     RejectedAt := map_option truncSecond (RejectedAt s),
     ReminderSentAt := map_option truncSecond (ReminderSentAt s)\<rparr>"

lemma truncSecond_idem [simp]: "truncSecond (truncSecond t) = truncSecond t"
  by (simp add: truncSecond_def mod_diff_left_eq flip: mod_diff_eq)

lemma truncSecond_le: "truncSecond t \<le> t" and truncSecond_gt: "t - Second < truncSecond t"
  by (simp_all add: truncSecond_def)

lemma serStatus_fields [simp]:
  "State (serStatus s) = State s" "RevertConfig (serStatus s) = RevertConfig s"
  "Message (serStatus s) = Message s" "Owner (serStatus s) = Owner s"
  "ApprovalToken (serStatus s) = ApprovalToken s" "ApprovedBy (serStatus s) = ApprovedBy s"
  "RejectedBy (serStatus s) = RejectedBy s" "RejectionReason (serStatus s) = RejectionReason s"
  "ServiceNowIncident (serStatus s) = ServiceNowIncident s"
  "AppliedAt (serStatus s) = map_option truncSecond (AppliedAt s)"
  "ScheduledRestartAt (serStatus s) = map_option truncSecond (ScheduledRestartAt s)"
  "NotifiedAt (serStatus s) = map_option truncSecond (NotifiedAt s)"
  "ReminderSentAt (serStatus s) = map_option truncSecond (ReminderSentAt s)"
  "LastCalculated (serStatus s) = map_option truncSecond (LastCalculated s)"
  by (simp_all add: serStatus_def)

lemma serStatus_idem [simp]: "serStatus (serStatus s) = serStatus s"
  by (simp add: serStatus_def option.map_comp o_def)

end
