(* ===== verification/JSON.thy ===== *)
theory JSON
  imports Prelude Float64
begin

text \<open>
  JSON values, access by path, and the JSON merge patch of RFC 7386 by which the API server
  applies the patches of this program to a virtual machine.

  A number whose literal is an integer is \<open>JNum\<close>; any other number is \<open>JReal\<close>, its literal with the
  nearest binary64 value.
\<close>

datatype json =
    JNull
  | JBool bool
  | JNum int
  | JReal string float64
  | JStr string
  | JArr "json list"
  | JObj "(string \<times> json) list"

text \<open>A JSON merge patch (RFC 7386) as the API server applies it, for stating what the patches
  of this program do to a VM document.\<close>

fun set_field :: "string \<Rightarrow> json \<Rightarrow> (string \<times> json) list \<Rightarrow> (string \<times> json) list" where
  "set_field k v [] = [(k, v)]"
| "set_field k v ((k', v') # kvs) = (if k = k' then (k, v) # kvs else (k', v') # set_field k v kvs)"

definition field :: "json \<Rightarrow> string \<Rightarrow> json option" where
  "field j k = (case j of JObj fs \<Rightarrow> map_of fs k | _ \<Rightarrow> None)"

fun at_path :: "json \<Rightarrow> string list \<Rightarrow> json option" where
  "at_path j [] = Some j"
| "at_path j (k # ks) = (case field j k of None \<Rightarrow> None | Some j' \<Rightarrow> at_path j' ks)"

definition orNull :: "json option \<Rightarrow> json" where
  "orNull jo = (case jo of None \<Rightarrow> JNull | Some j \<Rightarrow> j)"

fun merge :: "json \<Rightarrow> json \<Rightarrow> json" and
  merge_fields :: "(string \<times> json) list \<Rightarrow> (string \<times> json) list \<Rightarrow> (string \<times> json) list" where
  "merge target (JObj kvs) =
     JObj (merge_fields (case target of JObj fs \<Rightarrow> fs | _ \<Rightarrow> []) kvs)"
| "merge target patch = patch"
| "merge_fields fs [] = fs"
| "merge_fields fs ((k, v) # kvs) = merge_fields
     (if v = JNull then filter (\<lambda>kv. fst kv \<noteq> k) fs
      else set_field k (merge (orNull (map_of fs k)) v) fs) kvs"

lemma map_of_set_field [simp]: "map_of (set_field k v fs) k' = (if k' = k then Some v else map_of fs k')"
  by (induction fs rule: set_field.induct) auto

lemma field_JNull [simp]: "field JNull k = None"
  by (simp add: field_def)

lemma orNull_simps [simp]: "orNull None = JNull" "orNull (Some j) = j"
  by (simp_all add: orNull_def)

lemma field_merge [simp]: "field (merge t (JObj [(k, JObj kvs)])) k' =
    (if k' = k then Some (merge (orNull (field t k)) (JObj kvs)) else field t k')"
  by (auto simp: field_def simp del: merge.simps(1) merge_fields.simps(2) split: json.splits)
     (auto simp: field_def split: json.splits)

lemma field_merge_leaf [simp]: "field (merge t (JObj [(k, JNum n)])) k' =
    (if k' = k then Some (JNum n) else field t k')"
  "field (merge t (JObj [(k, JStr v)])) k' = (if k' = k then Some (JStr v) else field t k')"
  by (auto simp: field_def split: json.splits)

lemma field_merge2 [simp]: "k1 \<noteq> k2 \<Longrightarrow> field (merge t (JObj [(k1, JObj kvs), (k2, JObj kvs')])) k' =
    (if k' = k2 then Some (merge (orNull (field t k2)) (JObj kvs'))
     else if k' = k1 then Some (merge (orNull (field t k1)) (JObj kvs)) else field t k')"
  by (auto simp: field_def split: json.splits)

end
