(* ===== verification/Notifier.thy ===== *)
theory Notifier
  imports Prelude
begin

text \<open>
  The notification dispatcher (\<open>internal/notifier/notifier.go\<close>): the notification, the
  \<open>Forwarder\<close> interface and the loop that sends to every registered forwarder.

  A forwarder is a record of its two methods. What \<open>Send\<close> does is the business of the
  channel (HTTP, SMTP, SNMP); the dispatcher relies on nothing but that it returns, so the
  only law of the locale \<open>channels\<close> is how a view of the world records an attempt.
\<close>

record Notification =
  VMName :: string
  NtfNamespace :: string
  NtfOwner :: string
  NtfDirection :: string
  CurrentCPU :: int
  CurrentMemory :: int
  RecCPU :: int
  RecMemory :: int
  ApprovalURL :: string

text \<open>\<open>Send\<close> returns the text of the error, \<open>None\<close> for \<open>nil\<close>.\<close>

record 'w Forwarder =
  FwdName :: string
  Send :: "Notification \<Rightarrow> ('w, string option) state"

record 'w Dispatcher =
  forwarders :: "'w Forwarder list"

text \<open>The parameter \<open>exclude\<close> is a \<open>map[string]bool\<close>, \<open>None\<close> for the nil map.\<close>

definition skips :: "(string \<Rightarrow> bool) option \<Rightarrow> string \<Rightarrow> bool" where
  "skips exclude name = (case exclude of None \<Rightarrow> False | Some ex \<Rightarrow> ex name)"

lemma skips_simps [simp]: "\<not> skips None name" "skips (Some ex) name = ex name"
  by (simp_all add: skips_def)

fun sendTo ::
  "'w Forwarder list \<Rightarrow> Notification \<Rightarrow> (string \<Rightarrow> bool) option \<Rightarrow> ('w, string list) state" where
  "sendTo [] n exclude = ret []"
| "sendTo (fwd # fwds) n exclude =
    (if skips exclude (FwdName fwd)
     then sendTo fwds n exclude
     else do {
       err \<leftarrow> Send fwd n;
       errs \<leftarrow> sendTo fwds n exclude;
       ret (case err of None \<Rightarrow> errs | Some e \<Rightarrow> (FwdName fwd @ '': '' @ e) # errs)
     })"

definition sendFiltered ::
  "'w Dispatcher \<Rightarrow> Notification \<Rightarrow> (string \<Rightarrow> bool) option \<Rightarrow> ('w, string list) state" where
  "sendFiltered d n exclude = sendTo (forwarders d) n exclude"

definition SendAll :: "'w Dispatcher \<Rightarrow> Notification \<Rightarrow> ('w, string list) state" where
  "SendAll d n = sendFiltered d n None"

definition SendAllExcept ::
  "'w Dispatcher \<Rightarrow> Notification \<Rightarrow> string list \<Rightarrow> ('w, string list) state" where
  "SendAllExcept d n excludeTypes = sendFiltered d n (Some (\<lambda>t. t \<in> set excludeTypes))"

section \<open>What the channels promise\<close>

text \<open>\<open>log\<close> is a view of the world that records events in order; \<open>mk\<close> makes the event of one
  delivery attempt from the forwarder's name and the notification.\<close>

locale channels =
  fixes fs :: "'w Forwarder list"
    and log :: "'w \<Rightarrow> 'e list"
    and mk :: "string \<Rightarrow> Notification \<Rightarrow> 'e"
  assumes Send_logs: "f \<in> set fs \<Longrightarrow>
    log (snd (run_state (Send f n) w)) = log w @ [mk (FwdName f) n]"
begin

lemma Send_wp:
  "f \<in> set fs \<Longrightarrow> (\<And>e w'. log w' = log w @ [mk (FwdName f) n] \<Longrightarrow> Q e w') \<Longrightarrow> wp (Send f n) Q w"
  by (simp add: wp_run Send_logs)

text \<open>Each forwarder that is not excluded gets exactly one attempt, in order, whatever the
  others return; the excluded ones get none.\<close>

lemma sendTo_logs:
  assumes "set gs \<subseteq> set fs"
  shows "wp (sendTo gs n exclude) (\<lambda>errs w'.
    log w' = log w @ map (\<lambda>f. mk (FwdName f) n)
      (filter (\<lambda>f. \<not> skips exclude (FwdName f)) gs)) w"
  using assms
proof (induction gs arbitrary: w)
  case (Cons g gs)
  then have IH: "wp (sendTo gs n exclude) (\<lambda>errs w'.
    log w' = log v @ map (\<lambda>f. mk (FwdName f) n)
      (filter (\<lambda>f. \<not> skips exclude (FwdName f)) gs)) v" for v
    by simp
  show ?case
    using Cons.prems
    by (auto intro!: Send_wp wp_conseq[OF IH])
qed simp

end

end
