(* ===== verification/Kube.thy ===== *)
theory Kube
  imports API_Types JSON Notifier
begin

text \<open>
  The cluster as the program sees it. The Kubernetes clients (controller-runtime's
  \<open>client.Client\<close>, client-go's \<open>dynamic.Interface\<close> and \<open>kubernetes.Interface\<close>), the
  \<open>unstructured\<close> accessors and the clock are not code of the repository: they are records of
  operations, passed to every function that uses them, and the locales below state what the
  code relies on of them.

  The laws speak about two views of the world.

  \<^item> \<open>ev\<close>, the log of what the program did through these clients, in order: a recommendation
    created, its spec or its status replaced (with the version before and after), one deleted,
    a patch sent to a VM, a notification sent, the clock read.
  \<^item> \<open>hi\<close>, the versions of recommendations that the API server has stored so far. Other actors
    may add versions at any time, inside any call: the laws only say that versions are never
    lost, and that the name and the \<open>resourceVersion\<close> determine a version.

  Reads may be stale (the manager's client reads from a cache): a read returns some version
  of \<open>hi\<close>. A write through \<open>Update\<close> is a compare-and-swap on the \<open>resourceVersion\<close>: what it
  replaces has the version of the object passed. A call that returns an error may or may not
  have taken effect (a timeout after the write).
\<close>

section \<open>Errors and requests\<close>

text \<open>\<open>errors.IsNotFound\<close> separates one kind; every error has a text.\<close>

datatype api_error = NotFound string | ApiError string

fun errorText :: "api_error \<Rightarrow> string" where
  "errorText (NotFound s) = s"
| "errorText (ApiError s) = s"

fun IsNotFound :: "api_error \<Rightarrow> bool" where
  "IsNotFound (NotFound s) = True"
| "IsNotFound (ApiError s) = False"

type_synonym 'a result = "api_error + 'a"
type_synonym 'q recommendation = "'q RightsizingRecommendation"

record UserInfo =
  Username :: string
  UID :: string
  Groups :: "string list"

record SubjectAccessReviewSpec =
  SarUser :: string
  SarGroups :: "string list"
  SarVerb :: string
  SarGroup :: string
  SarResource :: string
  SarNamespace :: string

section \<open>The clients\<close>

text \<open>\<open>client.Client\<close>, one operation per object kind and call the sources make. \<open>Update\<close>,
  \<open>Create\<close> and \<open>Status().Update\<close> overwrite the object they are given with the answer of the
  server, which here is the value they return.\<close>

record ('w, 'o, 'q) client =
  getPolicy :: "string \<Rightarrow> ('w, 'q RightsizingPolicy result) state"
  updatePolicy :: "'q RightsizingPolicy \<Rightarrow> ('w, 'q RightsizingPolicy result) state"
  getRec :: "string \<Rightarrow> string \<Rightarrow> ('w, 'q recommendation result) state"
  listRecs :: "string option \<Rightarrow> ('w, 'q recommendation list result) state"
  createRec :: "'q recommendation \<Rightarrow> ('w, 'q recommendation result) state"
  updateRec :: "'q recommendation \<Rightarrow> ('w, 'q recommendation result) state"
  updateRecStatus :: "'q recommendation \<Rightarrow> ('w, 'q recommendation result) state"
  deleteRec :: "'q recommendation \<Rightarrow> ('w, api_error option) state"
  getVMObject :: "string \<Rightarrow> string \<Rightarrow> ('w, 'o result) state"
  getNamespaceLabels :: "string \<Rightarrow> ('w, string strmap result) state"

text \<open>\<open>dynamic.Interface\<close> on the resource \<open>kubevirt.io/v1 virtualmachines\<close>: all patches the
  sources send are JSON merge patches; the last argument is the list of subresources.\<close>

record ('w, 'o) dynamic =
  dynGet :: "string \<Rightarrow> string \<Rightarrow> ('w, 'o result) state"
  dynList :: "('w, 'o list result) state"
  dynPatch :: "string \<Rightarrow> string \<Rightarrow> json \<Rightarrow> string list \<Rightarrow> ('w, 'o result) state"

text \<open>\<open>kubernetes.Interface\<close>: token reviews (\<open>Authenticated\<close> and the user) and subject access
  reviews (\<open>Allowed\<close>).\<close>

record 'w clientset =
  tokenReview :: "string \<Rightarrow> ('w, (bool \<times> UserInfo) result) state"
  subjectAccessReview :: "SubjectAccessReviewSpec \<Rightarrow> ('w, bool result) state"

text \<open>Accessors of an unstructured object. \<open>NestedInt64\<close> and \<open>NestedString\<close> return \<open>None\<close> when
  the Go functions return \<open>found = false\<close>, which they do also with every error.\<close>

record 'o unstructured =
  NestedInt64 :: "'o \<Rightarrow> string list \<Rightarrow> int option"
  NestedString :: "'o \<Rightarrow> string list \<Rightarrow> string option"
  GetAnnotations :: "'o \<Rightarrow> string strmap"
  GetLabels :: "'o \<Rightarrow> string strmap"
  GetName :: "'o \<Rightarrow> string"
  GetNamespace :: "'o \<Rightarrow> string"

section \<open>The log of effects\<close>

datatype 'q event =
    RecCreated "'q recommendation"
  | RecUpdated "'q recommendation" "'q recommendation"
  | RecStatusUpdated "'q recommendation" "'q recommendation"
  | RecDeleted "'q recommendation"
  | PolicyUpdated "'q RightsizingPolicy"
  | VMPatched string string json "string list"
  | NotificationSent string Notification
  | ClockRead time

text \<open>\<open>trace ev hi w0 es w\<close>: from \<open>w0\<close> to \<open>w\<close> exactly the events \<open>es\<close> were logged, and no
  stored version was lost.\<close>

definition trace ::
  "('w \<Rightarrow> 'e list) \<Rightarrow> ('w \<Rightarrow> 'v set) \<Rightarrow> 'w \<Rightarrow> 'e list \<Rightarrow> 'w \<Rightarrow> bool" where
  "trace ev hi w0 es w \<longleftrightarrow> ev w = ev w0 @ es \<and> hi w0 \<subseteq> hi w"

lemma trace_refl [simp, intro]: "trace ev hi w [] w"
  by (simp add: trace_def)

lemma trace_trans: "trace ev hi w0 es w1 \<Longrightarrow> trace ev hi w1 fs w2 \<Longrightarrow> trace ev hi w0 (es @ fs) w2"
  by (auto simp: trace_def)

lemma trace_hi: "trace ev hi w0 es w \<Longrightarrow> x \<in> hi w0 \<Longrightarrow> x \<in> hi w"
  by (auto simp: trace_def)

text \<open>A call that writes nothing: what the reads, the reviews and the clock promise.\<close>

definition quiet :: "('w \<Rightarrow> 'e list) \<Rightarrow> ('w \<Rightarrow> 'v set) \<Rightarrow> ('w, 'a) state \<Rightarrow> bool" where
  "quiet ev hi m \<longleftrightarrow> (\<forall>w. trace ev hi w [] (snd (run_state m w)))"

lemma quiet_return [simp, intro]: "quiet ev hi (ret a)"
  by (simp add: quiet_def)

lemma quiet_wp: "quiet ev hi m \<Longrightarrow> (\<And>a w'. trace ev hi w [] w' \<Longrightarrow> Q a w') \<Longrightarrow> wp m Q w"
  by (auto simp: quiet_def wp_run)

lemma quiet_bind [intro]:
  assumes "quiet ev hi m" and "\<And>a. quiet ev hi (f a)"
  shows "quiet ev hi (m \<bind> f)"
proof -
  have "wp (m \<bind> f) (\<lambda>_ w'. trace ev hi w [] w') w" for w
    using assms by (auto intro!: quiet_wp[OF assms(1)] quiet_wp[OF assms(2)] dest: trace_trans)
  then show ?thesis by (simp add: quiet_def wp_run del: wp_bind)
qed

text \<open>\<open>refused m w\<close>: a run of \<open>m\<close> ended in \<open>w\<close> with an error.\<close>

definition refused :: "('w, 'e + 'a) state \<Rightarrow> 'w \<Rightarrow> bool" where
  "refused m w' \<longleftrightarrow> (\<exists>w e. run_state m w = (Inl e, w'))"

text \<open>The same of a call that returns an error or nothing.\<close>

definition failed :: "('w, 'e option) state \<Rightarrow> 'w \<Rightarrow> bool" where
  "failed m w' \<longleftrightarrow> (\<exists>w e. run_state m w = (Some e, w'))"

text \<open>\<open>emits\<close>: every run logs a list of events that satisfies \<open>T\<close>.\<close>

definition emits ::
  "('w \<Rightarrow> 'e list) \<Rightarrow> ('w \<Rightarrow> 'v set) \<Rightarrow> ('e list \<Rightarrow> bool) \<Rightarrow> ('w, 'a) state \<Rightarrow> bool" where
  "emits ev hi T m \<longleftrightarrow> (\<forall>w. wp m (\<lambda>_ w'. \<exists>es. trace ev hi w es w' \<and> T es) w)"

section \<open>Laws: the store of recommendations\<close>

text \<open>Reads return a stored version under the name asked for; a write that succeeds, and a
  write that fails after it took effect, logs one event and stores one version.\<close>

locale recommendation_store =
  fixes C :: "('w, 'o, 'q) client"
    and ev :: "'w \<Rightarrow> 'q event list"
    and hi :: "'w \<Rightarrow> 'q recommendation set"
  assumes versions: "x \<in> hi w \<Longrightarrow> y \<in> hi w \<Longrightarrow> recKey x = recKey y \<Longrightarrow>
      ResourceVersion x = ResourceVersion y \<Longrightarrow> x = y"
    and getRec_quiet: "quiet ev hi (getRec C ns n)"
    and getRec_stored: "run_state (getRec C ns n) w = (Inr x, w') \<Longrightarrow>
      x \<in> hi w' \<and> recKey x = (ns, n)"
    and listRecs_quiet: "quiet ev hi (listRecs C ons)"
    and listRecs_stored: "run_state (listRecs C ons) w = (Inr xs, w') \<Longrightarrow> set xs \<subseteq> hi w'"
    and getPolicy_quiet: "quiet ev hi (getPolicy C n)"
    and getVMObject_quiet: "quiet ev hi (getVMObject C ns n)"
    and getNamespaceLabels_quiet: "quiet ev hi (getNamespaceLabels C ns)"
    and updatePolicy_law: "run_state (updatePolicy C p) w = (rp, w') \<Longrightarrow>
      (trace ev hi w [] w' \<and> isl rp) \<or> trace ev hi w [PolicyUpdated p] w'"
    and createRec_law: "run_state (createRec C x) w = (r, w') \<Longrightarrow>
      (trace ev hi w [] w' \<and> isl r) \<or>
      (\<exists>new. trace ev hi w [RecCreated new] w' \<and> new \<in> hi w' \<and> recKey new = recKey x \<and>
        Spec new = Spec x \<and> Status new = emptyStatus \<and> (isl r \<or> r = Inr new))"
    and updateRec_law: "run_state (updateRec C x) w = (r, w') \<Longrightarrow>
      (trace ev hi w [] w' \<and> isl r) \<or>
      (\<exists>old new. trace ev hi w [RecUpdated old new] w' \<and> old \<in> hi w' \<and> new \<in> hi w' \<and>
        recKey old = recKey x \<and> ResourceVersion old = ResourceVersion x \<and> recKey new = recKey x \<and>
        Spec new = Spec x \<and> Status new = Status old \<and> (isl r \<or> r = Inr new))"
    and updateRecStatus_law: "run_state (updateRecStatus C x) w = (r, w') \<Longrightarrow>
      (trace ev hi w [] w' \<and> isl r) \<or>
      (\<exists>old new. trace ev hi w [RecStatusUpdated old new] w' \<and> old \<in> hi w' \<and> new \<in> hi w' \<and>
        recKey old = recKey x \<and> ResourceVersion old = ResourceVersion x \<and> recKey new = recKey x \<and>
        Spec new = Spec old \<and> Status new = serStatus (Status x) \<and> (isl r \<or> r = Inr new))"
    and deleteRec_law: "run_state (deleteRec C x) w = (rd, w') \<Longrightarrow>
      (trace ev hi w [] w' \<and> rd \<noteq> None) \<or>
      (\<exists>old. trace ev hi w [RecDeleted old] w' \<and> old \<in> hi w' \<and> recKey old = recKey x)"
begin

text \<open>The rules for symbolic execution. They start from the trace since \<open>w0\<close> and hand on
  the extended trace; the version a write replaces is the one the program read.\<close>

lemma getRec_wp:
  assumes "trace ev hi w0 es w"
    and "\<And>e w'. trace ev hi w0 es w' \<Longrightarrow> hi w \<subseteq> hi w' \<Longrightarrow> Q (Inl e) w'"
    and "\<And>x w'. trace ev hi w0 es w' \<Longrightarrow> hi w \<subseteq> hi w' \<Longrightarrow> x \<in> hi w' \<Longrightarrow> Namespace x = ns \<Longrightarrow>
      Name x = n \<Longrightarrow> Q (Inr x) w'"
  shows "wp (getRec C ns n) Q w"
proof (rule wpI)
  fix r w' assume run: "run_state (getRec C ns n) w = (r, w')"
  then have t: "trace ev hi w [] w'" using getRec_quiet unfolding quiet_def by (metis snd_conv)
  then have "trace ev hi w0 es w'" "hi w \<subseteq> hi w'"
    using trace_trans[OF assms(1) t] by (auto simp: trace_def)
  then show "Q r w'" using assms(2,3) getRec_stored run by (cases r) auto
qed

lemma listRecs_wp:
  assumes "trace ev hi w0 es w"
    and "\<And>e w'. trace ev hi w0 es w' \<Longrightarrow> hi w \<subseteq> hi w' \<Longrightarrow> Q (Inl e) w'"
    and "\<And>xs w'. trace ev hi w0 es w' \<Longrightarrow> hi w \<subseteq> hi w' \<Longrightarrow> set xs \<subseteq> hi w' \<Longrightarrow> Q (Inr xs) w'"
  shows "wp (listRecs C ons) Q w"
proof (rule wpI)
  fix r w' assume run: "run_state (listRecs C ons) w = (r, w')"
  then have t: "trace ev hi w [] w'" using listRecs_quiet unfolding quiet_def by (metis snd_conv)
  then have "trace ev hi w0 es w'" "hi w \<subseteq> hi w'"
    using trace_trans[OF assms(1) t] by (auto simp: trace_def)
  then show "Q r w'" using assms(2,3) listRecs_stored run by (cases r) auto
qed

lemma updateRecStatus_refused_wp:
  assumes "trace ev hi w0 es w" and "old \<in> hi w" and "recKey x = recKey old"
    and "ResourceVersion x = ResourceVersion old"
    and "\<And>e w'. trace ev hi w0 es w' \<Longrightarrow> hi w \<subseteq> hi w' \<Longrightarrow> refused (updateRecStatus C x) w' \<Longrightarrow> Q (Inl e) w'"
    and "\<And>new r w'. trace ev hi w0 (es @ [RecStatusUpdated old new]) w' \<Longrightarrow> hi w \<subseteq> hi w' \<Longrightarrow>
      new \<in> hi w' \<Longrightarrow> recKey new = recKey old \<Longrightarrow> Spec new = Spec old \<Longrightarrow>
      Status new = serStatus (Status x) \<Longrightarrow> isl r \<or> r = Inr new \<Longrightarrow> Q r w'"
  shows "wp (updateRecStatus C x) Q w"
proof (rule wpI)
  fix r w' assume run: "run_state (updateRecStatus C x) w = (r, w')"
  from updateRecStatus_law[OF run] consider
      (fail) "trace ev hi w [] w'" "isl r"
    | (ok) o' new where "trace ev hi w [RecStatusUpdated o' new] w'" "o' \<in> hi w'" "new \<in> hi w'"
        "recKey o' = recKey x" "ResourceVersion o' = ResourceVersion x" "recKey new = recKey x"
        "Spec new = Spec o'" "Status new = serStatus (Status x)" "isl r \<or> r = Inr new"
    by blast
  then show "Q r w'"
  proof cases
    case fail
    then show ?thesis
      using assms(5)[of w' "projl r"] trace_trans[OF assms(1) fail(1)]
      run by (auto simp: trace_def isl_def refused_def)
  next
    case ok
    have "old \<in> hi w'" using ok(1) assms(2) by (auto simp: trace_def)
    then have "o' = old" using versions ok(2,4,5) assms(3,4) by metis
    then show ?thesis
      using assms(6)[of new w' r] trace_trans[OF assms(1) ok(1)] ok assms(3)
      by (auto simp: trace_def)
  qed
qed

lemma updateRecStatus_wp:
  assumes "trace ev hi w0 es w" and "old \<in> hi w" and "recKey x = recKey old"
    and "ResourceVersion x = ResourceVersion old"
    and "\<And>e w'. trace ev hi w0 es w' \<Longrightarrow> hi w \<subseteq> hi w' \<Longrightarrow> Q (Inl e) w'"
    and "\<And>new r w'. trace ev hi w0 (es @ [RecStatusUpdated old new]) w' \<Longrightarrow> hi w \<subseteq> hi w' \<Longrightarrow>
      new \<in> hi w' \<Longrightarrow> recKey new = recKey old \<Longrightarrow> Spec new = Spec old \<Longrightarrow>
      Status new = serStatus (Status x) \<Longrightarrow> isl r \<or> r = Inr new \<Longrightarrow> Q r w'"
  shows "wp (updateRecStatus C x) Q w"
  by (rule updateRecStatus_refused_wp[OF assms(1-4)]) (rule assms(5,6); assumption)+

lemma updateRec_wp:
  assumes "trace ev hi w0 es w" and "old \<in> hi w" and "recKey x = recKey old"
    and "ResourceVersion x = ResourceVersion old"
    and "\<And>e w'. trace ev hi w0 es w' \<Longrightarrow> hi w \<subseteq> hi w' \<Longrightarrow> Q (Inl e) w'"
    and "\<And>new r w'. trace ev hi w0 (es @ [RecUpdated old new]) w' \<Longrightarrow> hi w \<subseteq> hi w' \<Longrightarrow>
      new \<in> hi w' \<Longrightarrow> recKey new = recKey old \<Longrightarrow> Spec new = Spec x \<Longrightarrow>
      Status new = Status old \<Longrightarrow> isl r \<or> r = Inr new \<Longrightarrow> Q r w'"
  shows "wp (updateRec C x) Q w"
proof (rule wpI)
  fix r w' assume run: "run_state (updateRec C x) w = (r, w')"
  from updateRec_law[OF run] consider
      (fail) "trace ev hi w [] w'" "isl r"
    | (ok) o' new where "trace ev hi w [RecUpdated o' new] w'" "o' \<in> hi w'" "new \<in> hi w'"
        "recKey o' = recKey x" "ResourceVersion o' = ResourceVersion x" "recKey new = recKey x"
        "Spec new = Spec x" "Status new = Status o'" "isl r \<or> r = Inr new"
    by blast
  then show "Q r w'"
  proof cases
    case fail
    then show ?thesis
      using assms(5)[of w' "projl r"] trace_trans[OF assms(1) fail(1)]
      by (auto simp: trace_def isl_def)
  next
    case ok
    have "old \<in> hi w'" using ok(1) assms(2) by (auto simp: trace_def)
    then have "o' = old" using versions ok(2,4,5) assms(3,4) by metis
    then show ?thesis
      using assms(6)[of new w' r] trace_trans[OF assms(1) ok(1)] ok assms(3)
      by (auto simp: trace_def)
  qed
qed

lemma createRec_wp:
  assumes "trace ev hi w0 es w"
    and "\<And>e w'. trace ev hi w0 es w' \<Longrightarrow> hi w \<subseteq> hi w' \<Longrightarrow> Q (Inl e) w'"
    and "\<And>new r w'. trace ev hi w0 (es @ [RecCreated new]) w' \<Longrightarrow> hi w \<subseteq> hi w' \<Longrightarrow>
      new \<in> hi w' \<Longrightarrow> recKey new = recKey x \<Longrightarrow> Spec new = Spec x \<Longrightarrow>
      Status new = emptyStatus \<Longrightarrow> isl r \<or> r = Inr new \<Longrightarrow> Q r w'"
  shows "wp (createRec C x) Q w"
proof (rule wpI)
  fix r w' assume run: "run_state (createRec C x) w = (r, w')"
  from createRec_law[OF run] show "Q r w'"
    using assms(2)[of w' "projl r"] assms(3)[of _ w' r] trace_trans[OF assms(1), of _ w']
    by (fastforce simp: trace_def isl_def)
qed

lemma deleteRec_wp:
  assumes "trace ev hi w0 es w"
    and "\<And>e w'. trace ev hi w0 es w' \<Longrightarrow> hi w \<subseteq> hi w' \<Longrightarrow> failed (deleteRec C x) w' \<Longrightarrow> Q (Some e) w'"
    and "\<And>old r w'. trace ev hi w0 (es @ [RecDeleted old]) w' \<Longrightarrow> hi w \<subseteq> hi w' \<Longrightarrow>
      old \<in> hi w' \<Longrightarrow> recKey old = recKey x \<Longrightarrow> Q r w'"
  shows "wp (deleteRec C x) Q w"
proof (rule wpI)
  fix r w' assume run: "run_state (deleteRec C x) w = (r, w')"
  from deleteRec_law[OF run] consider (fail) e where "trace ev hi w [] w'" "r = Some e"
    | (ok) old where "trace ev hi w [RecDeleted old] w'" "old \<in> hi w'" "recKey old = recKey x" by auto
  then show "Q r w'"
  proof cases
    case fail
    then show ?thesis using assms(2)[of w' e] trace_trans[OF assms(1) fail(1)] run by (auto simp: trace_def failed_def)
  next
    case ok
    then show ?thesis using assms(3)[of old w' r] trace_trans[OF assms(1) ok(1)] by (simp add: trace_def)
  qed
qed

lemma updatePolicy_wp:
  assumes "trace ev hi w0 es w"
    and "\<And>e w'. trace ev hi w0 es w' \<Longrightarrow> hi w \<subseteq> hi w' \<Longrightarrow> refused (updatePolicy C p) w' \<Longrightarrow> Q (Inl e) w'"
    and "\<And>r w'. trace ev hi w0 (es @ [PolicyUpdated p]) w' \<Longrightarrow> hi w \<subseteq> hi w' \<Longrightarrow> Q r w'"
  shows "wp (updatePolicy C p) Q w"
proof (rule wpI)
  fix r w' assume run: "run_state (updatePolicy C p) w = (r, w')"
  from updatePolicy_law[OF run] consider (fail) e where "trace ev hi w [] w'" "r = Inl e"
    | (ok) "trace ev hi w [PolicyUpdated p] w'" by (auto simp: isl_def)
  then show "Q r w'"
  proof cases
    case fail
    then show ?thesis using assms(2)[of w' e] trace_trans[OF assms(1) fail(1)] run by (auto simp: trace_def refused_def)
  next
    case ok
    then show ?thesis using assms(3)[of w' r] trace_trans[OF assms(1) ok(1)] by (simp add: trace_def)
  qed
qed

end

text \<open>A quiet call inside a symbolic execution.\<close>

lemma quiet_trace_wp:
  assumes "quiet ev hi m" and "trace ev hi w0 es w"
    and "\<And>a w'. trace ev hi w0 es w' \<Longrightarrow> hi w \<subseteq> hi w' \<Longrightarrow> Q a w'"
  shows "wp m Q w"
proof (rule quiet_wp[OF assms(1)])
  fix a w' assume t: "trace ev hi w [] w'"
  show "Q a w'" using assms(3) trace_trans[OF assms(2) t] t by (auto simp: trace_def)
qed

section \<open>Laws: virtual machines, the clock, notifications\<close>

locale vm_api =
  fixes D :: "('w, 'o) dynamic"
    and ev :: "'w \<Rightarrow> 'q event list"
    and hi :: "'w \<Rightarrow> 'q recommendation set"
  assumes dynGet_quiet: "quiet ev hi (dynGet D ns n)"
    and dynList_quiet: "quiet ev hi (dynList D)"
    and dynPatch_law: "run_state (dynPatch D ns n patch subs) w = (r, w') \<Longrightarrow>
      (trace ev hi w [] w' \<and> isl r) \<or> trace ev hi w [VMPatched ns n patch subs] w'"
begin

lemma dynPatch_outcome_wp:
  assumes "trace ev hi w0 es w"
    and "\<And>r pre w'. trace ev hi w0 (es @ pre) w' \<Longrightarrow> hi w \<subseteq> hi w' \<Longrightarrow> pre = [] \<or> pre = [VMPatched ns n patch subs] \<Longrightarrow>
      (if isl r then refused (dynPatch D ns n patch subs) w' else pre \<noteq> []) \<Longrightarrow> Q r w'"
  shows "wp (dynPatch D ns n patch subs) Q w"
proof (rule wpI)
  fix r w' assume run: "run_state (dynPatch D ns n patch subs) w = (r, w')"
  then have ref: "isl r \<Longrightarrow> refused (dynPatch D ns n patch subs) w'" by (auto simp: refused_def isl_def)
  from dynPatch_law[OF run] show "Q r w'"
  proof
    assume q: "trace ev hi w [] w' \<and> isl r"
    show ?thesis using q ref trace_trans[OF assms(1), of "[]" w'] by (intro assms(2)[of "[]"]) (auto simp: trace_def)
  next
    assume q: "trace ev hi w [VMPatched ns n patch subs] w'"
    show ?thesis using q ref trace_trans[OF assms(1) q]
      by (intro assms(2)[of "[VMPatched ns n patch subs]"]) (auto simp: trace_def)
  qed
qed

lemma dynPatch_wp:
  assumes "trace ev hi w0 es w"
    and "\<And>e w'. trace ev hi w0 es w' \<Longrightarrow> hi w \<subseteq> hi w' \<Longrightarrow> Q (Inl e) w'"
    and "\<And>r w'. trace ev hi w0 (es @ [VMPatched ns n patch subs]) w' \<Longrightarrow> hi w \<subseteq> hi w' \<Longrightarrow> Q r w'"
  shows "wp (dynPatch D ns n patch subs) Q w"
proof (rule wpI)
  fix r w' assume run: "run_state (dynPatch D ns n patch subs) w = (r, w')"
  from dynPatch_law[OF run] show "Q r w'"
    using assms(2)[of w' "projl r"] assms(3)[of w' r] trace_trans[OF assms(1), of _ w']
    by (fastforce simp: trace_def isl_def)
qed

end

text \<open>The dispatcher's channels: sending a notification writes nothing to the cluster; what the log
  shows of it are attempts to deliver it over the channel.\<close>

definition deliveries :: "string \<Rightarrow> Notification \<Rightarrow> 'q event list \<Rightarrow> bool" where
  "deliveries name n es \<longleftrightarrow> list_all (\<lambda>e. e = NotificationSent name n) es"

locale notifying =
  fixes fs :: "'w Forwarder list"
    and ev :: "'w \<Rightarrow> 'q event list"
    and hi :: "'w \<Rightarrow> 'q recommendation set"
  assumes Send_emits: "f \<in> set fs \<Longrightarrow> emits ev hi (deliveries (FwdName f) n) (Send f n)"
begin

lemma sendTo_emits:
  "set gs \<subseteq> set fs \<Longrightarrow> emits ev hi (list_all (\<lambda>e. \<exists>f \<in> set gs. \<not> skips exclude (FwdName f) \<and>
    e = NotificationSent (FwdName f) n)) (sendTo gs n exclude)"
proof (induction gs)
  case (Cons g gs)
  let ?T = "\<lambda>gs. list_all (\<lambda>e. \<exists>f \<in> set gs. \<not> skips exclude (FwdName f) \<and> e = NotificationSent (FwdName f) n)"
  have IH: "wp (sendTo gs n exclude) (\<lambda>_ w'. \<exists>es. trace ev hi v es w' \<and> ?T gs es) v" for v
    using Cons by (simp add: emits_def)
  have grow: "?T gs es \<Longrightarrow> ?T (g # gs) es" for es by (auto simp: list_all_iff)
  show ?case unfolding emits_def
  proof
    fix w
    show "wp (sendTo (g # gs) n exclude) (\<lambda>_ w'. \<exists>es. trace ev hi w es w' \<and> ?T (g # gs) es) w"
    proof (cases "skips exclude (FwdName g)")
      case True
      show ?thesis using IH[of w] by (simp add: True)
    next
      case False
      have g: "wp (Send g n) (\<lambda>_ w'. \<exists>es. trace ev hi w es w' \<and> deliveries (FwdName g) n es) w"
        using Send_emits[of g n] Cons.prems by (simp add: emits_def)
      have "wp (sendTo gs n exclude) (\<lambda>_ w'. \<exists>es. trace ev hi w es w' \<and> ?T (g # gs) es) v"
        if "trace ev hi w ds v" "deliveries (FwdName g) n ds" for v ds
      proof (rule wp_conseq[OF IH], elim exE conjE)
        fix r w' es assume "trace ev hi v es w'" "?T gs es"
        then show "\<exists>es. trace ev hi w es w' \<and> ?T (g # gs) es"
          using trace_trans[OF that(1)] that(2) grow[of es] False
          by (intro exI[of _ "ds @ es"]) (auto simp: deliveries_def list_all_iff)
      qed
      then show ?thesis using False by (auto intro!: wp_conseq[OF g])
    qed
  qed
qed (auto simp: emits_def intro!: exI[of _ "[]"])

lemma sendTo_wp:
  assumes "trace ev hi w0 es w" and "set gs \<subseteq> set fs"
    and "\<And>errs ns w'. trace ev hi w0 (es @ ns) w' \<Longrightarrow> hi w \<subseteq> hi w' \<Longrightarrow>
      list_all (\<lambda>e. \<exists>f \<in> set gs. \<not> skips exclude (FwdName f) \<and> e = NotificationSent (FwdName f) n) ns \<Longrightarrow> Q errs w'"
  shows "wp (sendTo gs n exclude) Q w"
proof (rule wp_conseq[OF sendTo_emits[OF assms(2), unfolded emits_def, rule_format]], elim exE conjE)
  fix errs w' ns assume t: "trace ev hi w ns w'"
    and ns: "list_all (\<lambda>e. \<exists>f \<in> set gs. \<not> skips exclude (FwdName f) \<and> e = NotificationSent (FwdName f) n) ns"
  show "Q errs w'" by (rule assms(3)[OF trace_trans[OF assms(1) t] _ ns]) (use t in \<open>simp add: trace_def\<close>)
qed

end

text \<open>Channels whose attempts all show in the log.\<close>

locale notified = channels fs ev NotificationSent
  for fs :: "'w Forwarder list" and ev :: "'w \<Rightarrow> 'q event list" +
  fixes hi :: "'w \<Rightarrow> 'q recommendation set"
  assumes Send_hi: "f \<in> set fs \<Longrightarrow> hi w \<subseteq> hi (snd (run_state (Send f n) w))"
begin

sublocale weak: notifying fs ev hi
  by unfold_locales
     (auto simp: emits_def deliveries_def wp_run trace_def Send_logs intro!: exI[of _ "[NotificationSent _ n]" for n] Send_hi)

lemma sendTo_exact_wp:
  assumes "trace ev hi w0 es w" and "set gs \<subseteq> set fs"
    and "\<And>errs w'. trace ev hi w0 (es @ map (\<lambda>f. NotificationSent (FwdName f) n)
        (filter (\<lambda>f. \<not> skips exclude (FwdName f)) gs)) w' \<Longrightarrow> hi w \<subseteq> hi w' \<Longrightarrow> Q errs w'"
  shows "wp (sendTo gs n exclude) Q w"
proof (rule wp_conseq[OF wp_conj[OF sendTo_logs[OF assms(2)] weak.sendTo_wp[OF trace_refl assms(2)]]])
  fix errs w' assume *: "ev w' = ev w @ map (\<lambda>f. NotificationSent (FwdName f) n)
      (filter (\<lambda>f. \<not> skips exclude (FwdName f)) gs) \<and> hi w \<subseteq> hi w'"
  show "Q errs w'" by (rule assms(3)) (use * assms(1) in \<open>auto simp: trace_def\<close>)
qed

end

locale clock =
  fixes Now :: "('w, time) state"
    and ev :: "'w \<Rightarrow> 'q event list"
    and hi :: "'w \<Rightarrow> 'q recommendation set"
  assumes Now_law: "run_state Now w = (t, w') \<Longrightarrow> trace ev hi w [ClockRead t] w'"
begin

lemma Now_wp:
  assumes "trace ev hi w0 es w"
    and "\<And>t w'. trace ev hi w0 (es @ [ClockRead t]) w' \<Longrightarrow> hi w \<subseteq> hi w' \<Longrightarrow> Q t w'"
  shows "wp Now Q w"
proof (rule wpI)
  fix t w' assume run: "run_state Now w = (t, w')"
  show "Q t w'" using assms(2) trace_trans[OF assms(1) Now_law[OF run]] Now_law[OF run]
    by (simp add: trace_def)
qed

end

text \<open>Reviews write nothing.\<close>

locale reviews =
  fixes K :: "'w clientset"
    and ev :: "'w \<Rightarrow> 'e list"
    and hi :: "'w \<Rightarrow> 'v set"
  assumes tokenReview_quiet: "quiet ev hi (tokenReview K tok)"
    and subjectAccessReview_quiet: "quiet ev hi (subjectAccessReview K sar)"

text \<open>Whole numbers of GiB parse, and their value is in bytes.\<close>

locale quantities =
  fixes Q :: "'q quantity_lib"
  assumes parse_gib: "is_i32 n \<Longrightarrow>
    \<exists>q. ParseQuantity Q (show_int n @ ''Gi'') = Some q \<and> Value Q q = n * 2 ^ 30"
begin

lemma DefaultPolicySpec_total: "DefaultPolicySpec Q \<noteq> None"
proof -
  have "show_int 1 = ''1''" "show_int 50 = ''50''"
    by code_simp+
  then show ?thesis
    using parse_gib[of 1] parse_gib[of 50] by (auto simp: DefaultPolicySpec_def is_i32_def)
qed

end

end
