(* ===== verification/Mem_Cluster.thy ===== *)
theory Mem_Cluster
  imports Kube
begin

text \<open>
  A cluster in memory, in the manner of controller-runtime's fake client: an instance of every
  interface of \<open>Kube\<close>, so that the laws stated there are seen to hold together, and a world
  in which the handlers and reconcilers can be run on concrete inputs.

  Stored versions are kept in an association list keyed by namespace, name and
  \<open>resourceVersion\<close>, together with the current version of each name; a virtual machine is its
  JSON document; a quantity is its value in bytes.
\<close>

type_synonym recKey = "string \<times> string"

record memWorld =
  wHist :: "((recKey \<times> nat) \<times>
    (int RightsizingRecommendationSpec \<times> int RightsizingRecommendationStatus)) list"
  wCur :: "(recKey \<times> nat) list"
  wPolicy :: "int RightsizingPolicy option"
  wVMs :: "(recKey \<times> json) list"
  wNamespaces :: "(string \<times> (string \<times> string) list) list"
  wTokens :: "(string \<times> UserInfo) list"
  wAllowed :: "(string \<times> string \<times> string \<times> string) list"
  wNow :: time
  wEvents :: "int event list"

definition emptyWorld :: memWorld where
  "emptyWorld = \<lparr>wHist = [], wCur = [], wPolicy = None, wVMs = [], wNamespaces = [],
     wTokens = [], wAllowed = [], wNow = 0, wEvents = []\<rparr>"

definition newRV :: "memWorld \<Rightarrow> nat" where
  "newRV w = Suc (foldr (\<lambda>e m. max (snd (fst e)) m) (wHist w) 0)"

definition memHist :: "memWorld \<Rightarrow> int recommendation set" where
  "memHist w = {x. map_of (wHist w) (recKey x, ResourceVersion x) = Some (Spec x, Status x)}"

definition memRec :: "recKey \<Rightarrow> nat \<Rightarrow> int RightsizingRecommendationSpec \<Rightarrow>
    int RightsizingRecommendationStatus \<Rightarrow> int recommendation" where
  "memRec k rv sp st = \<lparr>Name = snd k, Namespace = fst k, ResourceVersion = rv, Spec = sp, Status = st\<rparr>"

definition memLookup :: "memWorld \<Rightarrow> recKey \<Rightarrow> int recommendation option" where
  "memLookup w k = (case map_of (wCur w) k of
      None \<Rightarrow> None
    | Some rv \<Rightarrow> (case map_of (wHist w) (k, rv) of
          None \<Rightarrow> None
        | Some (sp, st) \<Rightarrow> Some (memRec k rv sp st)))"

definition memStore :: "recKey \<Rightarrow> int RightsizingRecommendationSpec \<Rightarrow>
    int RightsizingRecommendationStatus \<Rightarrow> (int recommendation \<Rightarrow> int event) \<Rightarrow> memWorld \<Rightarrow>
    int recommendation \<times> memWorld" where
  "memStore k sp st mk w = (let rv = newRV w; x = memRec k rv sp st in
     (x, w\<lparr>wHist := ((k, rv), (sp, st)) # wHist w, wCur := (k, rv) # wCur w,
           wEvents := wEvents w @ [mk x]\<rparr>))"

section \<open>The clients\<close>

definition notFound :: api_error where "notFound = NotFound ''not found''"
definition conflict :: api_error where "conflict = ApiError ''conflict''"

definition memGetRec :: "string \<Rightarrow> string \<Rightarrow> (memWorld, int recommendation result) state" where
  "memGetRec ns n = act (\<lambda>w. (case memLookup w (ns, n) of None \<Rightarrow> Inl notFound | Some x \<Rightarrow> Inr x, w))"

definition memListRecs :: "string option \<Rightarrow> (memWorld, int recommendation list result) state" where
  "memListRecs ons = act (\<lambda>w. (Inr (List.map_filter (memLookup w)
     (filter (\<lambda>k. case ons of None \<Rightarrow> True | Some ns \<Rightarrow> fst k = ns) (remdups (map fst (wCur w))))), w))"

definition memCreateRec :: "int recommendation \<Rightarrow> (memWorld, int recommendation result) state" where
  "memCreateRec x = act (\<lambda>w. case memLookup w (recKey x) of
      Some _ \<Rightarrow> (Inl (ApiError ''already exists''), w)
    | None \<Rightarrow> (case memStore (recKey x) (Spec x) emptyStatus RecCreated w of (y, w') \<Rightarrow> (Inr y, w')))"

text \<open>Both updates compare the \<open>resourceVersion\<close> and store a new version.\<close>

definition memUpdate :: "(int recommendation \<Rightarrow> int RightsizingRecommendationSpec) \<Rightarrow>
    (int recommendation \<Rightarrow> int RightsizingRecommendationStatus) \<Rightarrow>
    (int recommendation \<Rightarrow> int recommendation \<Rightarrow> int event) \<Rightarrow> int recommendation \<Rightarrow>
    memWorld \<Rightarrow> int recommendation result \<times> memWorld" where
  "memUpdate sp st mk x w = (case memLookup w (recKey x) of
      None \<Rightarrow> (Inl notFound, w)
    | Some old \<Rightarrow> if ResourceVersion old \<noteq> ResourceVersion x then (Inl conflict, w)
        else (case memStore (recKey x) (sp old) (st old) (mk old) w of (y, w') \<Rightarrow> (Inr y, w')))"

definition memUpdateRec :: "int recommendation \<Rightarrow> (memWorld, int recommendation result) state" where
  "memUpdateRec x = act (memUpdate (\<lambda>_. Spec x) Status RecUpdated x)"

definition memUpdateStatus :: "int recommendation \<Rightarrow> (memWorld, int recommendation result) state" where
  "memUpdateStatus x = act (memUpdate Spec (\<lambda>_. serStatus (Status x)) RecStatusUpdated x)"

definition memDeleteRec :: "int recommendation \<Rightarrow> (memWorld, api_error option) state" where
  "memDeleteRec x = act (\<lambda>w. case memLookup w (recKey x) of
      None \<Rightarrow> (Some notFound, w)
    | Some old \<Rightarrow> (None, w\<lparr>wCur := filter (\<lambda>kv. fst kv \<noteq> recKey x) (wCur w),
                           wEvents := wEvents w @ [RecDeleted old]\<rparr>))"

definition memGetVM :: "string \<Rightarrow> string \<Rightarrow> (memWorld, json result) state" where
  "memGetVM ns n = act (\<lambda>w. (case map_of (wVMs w) (ns, n) of None \<Rightarrow> Inl notFound | Some v \<Rightarrow> Inr v, w))"

definition memClient :: "(memWorld, json, int) client" where
  "memClient = \<lparr>
     getPolicy = (\<lambda>n. act (\<lambda>w. (case wPolicy w of None \<Rightarrow> Inl notFound | Some p \<Rightarrow> Inr p, w))),
     updatePolicy = (\<lambda>p. act (\<lambda>w. (Inr p, w\<lparr>wPolicy := Some p,
       wEvents := wEvents w @ [PolicyUpdated p]\<rparr>))),
     getRec = memGetRec,
     listRecs = memListRecs,
     createRec = memCreateRec,
     updateRec = memUpdateRec,
     updateRecStatus = memUpdateStatus,
     deleteRec = memDeleteRec,
     getVMObject = memGetVM,
     getNamespaceLabels = (\<lambda>ns. act (\<lambda>w. (case map_of (wNamespaces w) ns of
       None \<Rightarrow> Inl notFound | Some ls \<Rightarrow> Inr (map_of ls), w)))\<rparr>"

definition memPatchVM ::
  "string \<Rightarrow> string \<Rightarrow> json \<Rightarrow> string list \<Rightarrow> (memWorld, json result) state" where
  "memPatchVM ns n patch subs = act (\<lambda>w. case map_of (wVMs w) (ns, n) of
      None \<Rightarrow> (Inl notFound, w)
    | Some v \<Rightarrow> let v' = (if subs = [] then merge v patch else v) in
        (Inr v', w\<lparr>wVMs := ((ns, n), v') # wVMs w,
                   wEvents := wEvents w @ [VMPatched ns n patch subs]\<rparr>))"

definition memDynamic :: "(memWorld, json) dynamic" where
  "memDynamic = \<lparr>dynGet = memGetVM,
     dynList = act (\<lambda>w. (Inr (List.map_filter (map_of (wVMs w)) (remdups (map fst (wVMs w)))), w)),
     dynPatch = memPatchVM\<rparr>"

definition memClientset :: "memWorld clientset" where
  "memClientset = \<lparr>
     tokenReview = (\<lambda>tok. act (\<lambda>w. (Inr (case map_of (wTokens w) tok of
         None \<Rightarrow> (False, \<lparr>Username = [], UID = [], Groups = []\<rparr>)
       | Some u \<Rightarrow> (True, u)), w))),
     subjectAccessReview = (\<lambda>s. act (\<lambda>w.
       (Inr ((SarUser s, SarVerb s, SarResource s, SarNamespace s) \<in> set (wAllowed w)), w)))\<rparr>"

definition memNow :: "(memWorld, time) state" where
  "memNow = act (\<lambda>w. (wNow w, w\<lparr>wEvents := wEvents w @ [ClockRead (wNow w)]\<rparr>))"

definition memForwarder :: "string \<Rightarrow> memWorld Forwarder" where
  "memForwarder name = \<lparr>FwdName = name,
     Send = (\<lambda>n. act (\<lambda>w. (None, w\<lparr>wEvents := wEvents w @ [NotificationSent name n]\<rparr>)))\<rparr>"

section \<open>Objects and quantities\<close>

definition jsonStrings :: "json option \<Rightarrow> string strmap" where
  "jsonStrings j k = (case j of
      Some (JObj fs) \<Rightarrow> (case map_of fs k of Some (JStr s) \<Rightarrow> Some s | _ \<Rightarrow> None)
    | _ \<Rightarrow> None)"

definition jsonStr :: "json option \<Rightarrow> string option" where
  "jsonStr j = (case j of Some (JStr s) \<Rightarrow> Some s | _ \<Rightarrow> None)"

definition memUnstructured :: "json unstructured" where
  "memUnstructured = \<lparr>
     NestedInt64 = (\<lambda>v p. case at_path v p of Some (JNum n) \<Rightarrow> Some n | _ \<Rightarrow> None),
     NestedString = (\<lambda>v p. jsonStr (at_path v p)),
     GetAnnotations = (\<lambda>v. jsonStrings (at_path v [''metadata'', ''annotations''])),
     GetLabels = (\<lambda>v. jsonStrings (at_path v [''metadata'', ''labels''])),
     GetName = (\<lambda>v. case jsonStr (at_path v [''metadata'', ''name'']) of None \<Rightarrow> [] | Some s \<Rightarrow> s),
     GetNamespace = (\<lambda>v. case jsonStr (at_path v [''metadata'', ''namespace'']) of None \<Rightarrow> [] | Some s \<Rightarrow> s)\<rparr>"

definition memQuantities :: "int quantity_lib" where
  "memQuantities = \<lparr>
     ParseQuantity = (\<lambda>s. case read_int s of
         None \<Rightarrow> None
       | Some (n, rest) \<Rightarrow> if rest = ''Gi'' then Some (n * 2 ^ 30) else if rest = [] then Some n else None),
     Value = (\<lambda>q. q),
     QString = show_int,
     ZeroQuantity = 0\<rparr>"

text \<open>The document of a virtual machine: labels, annotations, CPU cores, memory request and
  \<open>maxSockets\<close>.\<close>

definition vmDoc :: "string \<Rightarrow> string \<Rightarrow> (string \<times> string) list \<Rightarrow> (string \<times> string) list \<Rightarrow>
    int \<Rightarrow> string \<Rightarrow> int \<Rightarrow> json" where
  "vmDoc ns n labels annotations cores memory maxSockets = JObj [
     (''metadata'', JObj [(''name'', JStr n), (''namespace'', JStr ns),
        (''labels'', JObj (map (\<lambda>(k, v). (k, JStr v)) labels)),
        (''annotations'', JObj (map (\<lambda>(k, v). (k, JStr v)) annotations))]),
     (''spec'', JObj [(''template'', JObj [(''spec'', JObj [(''domain'', JObj [
        (''cpu'', JObj [(''cores'', JNum cores), (''maxSockets'', JNum maxSockets)]),
        (''resources'', JObj [(''requests'', JObj [(''memory'', JStr memory)])])])])])])]"

section \<open>The laws hold\<close>

lemmas mem_defs = memClient_def memGetRec_def memListRecs_def memCreateRec_def memUpdateRec_def
  memUpdateStatus_def memDeleteRec_def memGetVM_def memDynamic_def memPatchVM_def
  memClientset_def memNow_def memForwarder_def

lemma newRV_bound: "(k, rv) \<in> fst ` set (wHist w) \<Longrightarrow> rv < newRV w"
proof -
  have "rv \<le> foldr (\<lambda>e m. max (snd (fst e)) m) es 0" if "(k, rv) \<in> fst ` set es"
    for es :: "((recKey \<times> nat) \<times> 'a) list"
    using that by (induction es) (force simp: max_def)+
  then show "(k, rv) \<in> fst ` set (wHist w) \<Longrightarrow> rv < newRV w" by (auto simp: newRV_def less_Suc_eq_le)
qed

lemma newRV_fresh [simp]: "map_of (wHist w) (k, newRV w) = None"
  using newRV_bound[of k "newRV w" w] by (auto simp: map_of_eq_None_iff)

lemma memLookup_stored: "memLookup w k = Some x \<Longrightarrow> x \<in> memHist w \<and> recKey x = k"
  by (auto simp: memLookup_def memHist_def memRec_def split: option.splits prod.splits)

lemma memStore_trace:
  "memStore k sp st mk w = (x, w') \<Longrightarrow>
    trace wEvents memHist w [mk x] w' \<and> x \<in> memHist w' \<and> recKey x = k \<and> Spec x = sp \<and> Status x = st"
  by (auto simp: memStore_def Let_def trace_def memHist_def memRec_def)

lemma memUpdate_run:
  assumes "memUpdate sp st mk x w = (r, w')"
  shows "(trace wEvents memHist w [] w' \<and> isl r) \<or>
    (\<exists>old new. trace wEvents memHist w [mk old new] w' \<and> old \<in> memHist w' \<and> new \<in> memHist w' \<and>
      recKey old = recKey x \<and> ResourceVersion old = ResourceVersion x \<and> recKey new = recKey x \<and>
      Spec new = sp old \<and> Status new = st old \<and> (isl r \<or> r = Inr new))"
proof (cases "\<exists>old. memLookup w (recKey x) = Some old \<and> ResourceVersion old = ResourceVersion x")
  case True
  then obtain old where old: "memLookup w (recKey x) = Some old" "ResourceVersion old = ResourceVersion x"
    by blast
  obtain y w1 where st: "memStore (recKey x) (sp old) (st old) (mk old) w = (y, w1)" by fastforce
  note S = memStore_trace[OF st]
  have "old \<in> memHist w1" "recKey old = recKey x"
    using memLookup_stored[OF old(1)] trace_hi S by metis+
  moreover have "r = Inr y" "w' = w1" using assms old st by (simp_all add: memUpdate_def)
  ultimately show ?thesis using S old(2) by blast
next
  case False
  then have "isl r \<and> w' = w" using assms by (auto simp: memUpdate_def split: option.splits if_splits)
  then show ?thesis by simp
qed

lemma memCreate_run:
  assumes "run_state (memCreateRec x) w = (r, w')"
  shows "(trace wEvents memHist w [] w' \<and> isl r) \<or>
    (\<exists>new. trace wEvents memHist w [RecCreated new] w' \<and> new \<in> memHist w' \<and> recKey new = recKey x \<and>
      Spec new = Spec x \<and> Status new = emptyStatus \<and> (isl r \<or> r = Inr new))"
proof (cases "memLookup w (recKey x)")
  case None
  obtain y w1 where st: "memStore (recKey x) (Spec x) emptyStatus RecCreated w = (y, w1)" by fastforce
  have "r = Inr y" "w' = w1" using assms None st by (simp_all add: memCreateRec_def)
  then show ?thesis using memStore_trace[OF st] by blast
next
  case (Some old)
  then have "isl r \<and> w' = w" using assms by (auto simp: memCreateRec_def)
  then show ?thesis by simp
qed

lemma memClient_simps [simp]:
  "getRec memClient = memGetRec" "listRecs memClient = memListRecs"
  "createRec memClient = memCreateRec" "updateRec memClient = memUpdateRec"
  "updateRecStatus memClient = memUpdateStatus" "deleteRec memClient = memDeleteRec"
  "getVMObject memClient = memGetVM"
  by (simp_all add: memClient_def)

lemma memHist_frame [simp]:
  "memHist (w\<lparr>wPolicy := p\<rparr>) = memHist w" "memHist (w\<lparr>wVMs := v\<rparr>) = memHist w"
  "memHist (w\<lparr>wEvents := e\<rparr>) = memHist w" "memHist (w\<lparr>wCur := c\<rparr>) = memHist w"
  by (simp_all add: memHist_def)

lemma memDelete_run:
  assumes "run_state (memDeleteRec x) w = (r, w')"
  shows "(trace wEvents memHist w [] w' \<and> r \<noteq> None) \<or>
    (\<exists>old. trace wEvents memHist w [RecDeleted old] w' \<and> old \<in> memHist w' \<and> recKey old = recKey x)"
proof (cases "memLookup w (recKey x)")
  case None
  then have "r \<noteq> None \<and> w' = w" using assms by (auto simp: memDeleteRec_def)
  then show ?thesis by simp
next
  case (Some old)
  then have w': "w' = w\<lparr>wCur := filter (\<lambda>kv. fst kv \<noteq> recKey x) (wCur w),
      wEvents := wEvents w @ [RecDeleted old]\<rparr>"
    using assms by (simp add: memDeleteRec_def)
  have t: "trace wEvents memHist w [RecDeleted old] w'" by (simp add: w' trace_def)
  have "old \<in> memHist w'" "recKey old = recKey x" using memLookup_stored[OF Some] by (simp_all add: w')
  with t show ?thesis by metis
qed

interpretation mem: recommendation_store memClient wEvents memHist
proof (unfold_locales, goal_cases)
  case (1 x w y) then show ?case by (simp add: memHist_def)
next
  case (3 ns n w x w') then show ?case
    using memLookup_stored by (auto simp: mem_defs split: option.splits)
next
  case (5 ons w xs w') then show ?case
    using memLookup_stored by (auto simp: mem_defs List.map_filter_def split: option.splits)
next
  case (9 p w r w') then show ?case by (auto simp: mem_defs trace_def)
next
  case (10 x w r w') then show ?case
    using memCreate_run[of x w r w'] by simp
next
  case (11 x w r w') then show ?case
    using memUpdate_run[of "\<lambda>_. Spec x" Status RecUpdated x w r w'] by (simp add: memUpdateRec_def)
next
  case (12 x w r w') then show ?case
    using memUpdate_run[of Spec "\<lambda>_. serStatus (Status x)" RecStatusUpdated x w r w']
    by (simp add: memUpdateStatus_def)
next
  case (13 x w r w') then show ?case
    using memDelete_run[of x w r w'] by simp
qed (auto simp: mem_defs quiet_def)

interpretation mem: vm_api memDynamic wEvents memHist
  by unfold_locales (auto simp: mem_defs quiet_def trace_def Let_def split: option.splits)

interpretation mem: clock memNow wEvents memHist
  by unfold_locales (auto simp: mem_defs trace_def)

interpretation mem: reviews memClientset wEvents memHist
  by unfold_locales (auto simp: mem_defs quiet_def)

interpretation mem: notified "map memForwarder names" wEvents memHist for names
  by unfold_locales (auto simp: mem_defs)

interpretation mem: quantities memQuantities
proof
  fix n :: int assume "is_i32 n"
  show "\<exists>q. ParseQuantity memQuantities (show_int n @ ''Gi'') = Some q \<and> Value memQuantities q = n * 2 ^ 30"
    by (simp add: memQuantities_def read_int_show is_digit_def)
qed

end
