(* ===== verification/Owner.thy ===== *)
theory Owner
  imports Mem_Cluster
begin

text \<open>
  The owner of a virtual machine (\<open>internal/owner/resolver.go\<close>): the owner label of the VM,
  else that of its namespace, else the empty string. An error is the text after \<open>Inl\<close>.
\<close>

definition ResolveOwner ::
  "'o unstructured \<Rightarrow> ('w, 'o, 'q) client \<Rightarrow> string \<Rightarrow> string \<Rightarrow> ('w, string + string) state" where
  "ResolveOwner U C vmName namespace = do {
     vm \<leftarrow> getVMObject C namespace vmName;
     case vm of
       Inl err \<Rightarrow> ret (Inl (''failed to get VirtualMachine '' @ namespace @ ''/'' @ vmName @ '': '' @
         errorText err))
     | Inr v \<Rightarrow>
         (case GetLabels U v LabelOwner of
            Some owner \<Rightarrow> ret (Inr owner)
          | None \<Rightarrow> do {
              ns \<leftarrow> getNamespaceLabels C namespace;
              case ns of
                Inl err \<Rightarrow> ret (Inl (''failed to get Namespace '' @ namespace @ '': '' @ errorText err))
              | Inr labels \<Rightarrow>
                  (case labels LabelOwner of Some owner \<Rightarrow> ret (Inr owner) | None \<Rightarrow> ret (Inr []))
            })
   }"

text \<open>Both callers log an error and go on with the empty owner.\<close>

definition ownerOf :: "string + string \<Rightarrow> string" where
  "ownerOf r = (case r of Inl err \<Rightarrow> [] | Inr owner \<Rightarrow> owner)"

context recommendation_store
begin

lemma ResolveOwner_quiet: "quiet ev hi (ResolveOwner U C vm ns)"
  unfolding ResolveOwner_def
  by (intro quiet_bind getVMObject_quiet)
     (auto split: sum.splits option.splits intro!: quiet_bind getNamespaceLabels_quiet)

end

text \<open>The owner of a VM is its own label where it has one, an empty label included; the
  namespace label counts only when the VM has none, and a VM with neither has the empty owner
  without an error.\<close>

lemma resolve_owner_precedence:
  assumes "run_state (getVMObject C ns vm) w = (Inr v, w1)"
    and "run_state (getNamespaceLabels C ns) w1 = (Inr labels, w2)"
  shows "fst (run_state (ResolveOwner U C vm ns) w) =
    Inr (case GetLabels U v LabelOwner of Some o1 \<Rightarrow> o1
         | None \<Rightarrow> (case labels LabelOwner of Some o2 \<Rightarrow> o2 | None \<Rightarrow> []))"
  using assms by (simp add: ResolveOwner_def split: option.splits)

end
