(* ===== verification/Applier.thy ===== *)
theory Applier
  imports Mem_Cluster "HOL-Library.Sublist"
begin

text \<open>
  Changes to virtual machines (\<open>internal/applier/applier.go\<close>): the hotplug test, the merge
  patch of CPU cores and guest memory, and the restart through the VM's subresource.
\<close>

record ('w, 'o) Applier =
  dynamicClient :: "('w, 'o) dynamic"

definition IsHotplugCapable :: "'o unstructured \<Rightarrow> 'o \<Rightarrow> bool" where
  "IsHotplugCapable U vm =
    (case NestedInt64 U vm [''spec'', ''template'', ''spec'', ''domain'', ''cpu'', ''maxSockets''] of
       None \<Rightarrow> False
     | Some maxSockets \<Rightarrow> 0 < maxSockets)"

definition GetVM :: "('w, 'o) Applier \<Rightarrow> string \<Rightarrow> string \<Rightarrow> ('w, 'o result) state" where
  "GetVM a name namespace = dynGet (dynamicClient a) namespace name"

text \<open>The patch document; \<open>json.Marshal\<close> of it cannot fail, it holds only strings, an integer
  and string-keyed maps.\<close>

definition resourcePatch :: "int \<Rightarrow> string \<Rightarrow> json" where
  "resourcePatch cpuCores memory =
    JObj [(''spec'', JObj [(''template'', JObj [(''spec'', JObj [(''domain'',
      JObj [(''cpu'', JObj [(''cores'', JNum cpuCores)]),
            (''memory'', JObj [(''guest'', JStr memory)])])])])])]"

definition PatchVMResources ::
  "'q quantity_lib \<Rightarrow> ('w, 'o) Applier \<Rightarrow> string \<Rightarrow> string \<Rightarrow> int \<Rightarrow> 'q \<Rightarrow> ('w, string option) state" where
  "PatchVMResources Q a name namespace cpuCores memory = do {
     r \<leftarrow> dynPatch (dynamicClient a) namespace name (resourcePatch cpuCores (QString Q memory)) [];
     ret (case r of
       Inl err \<Rightarrow> Some (''patching VM '' @ namespace @ ''/'' @ name @ '': '' @ errorText err)
     | Inr _ \<Rightarrow> None)
   }"

definition RestartVM :: "('w, 'o) Applier \<Rightarrow> string \<Rightarrow> string \<Rightarrow> ('w, string option) state" where
  "RestartVM a name namespace = do {
     r \<leftarrow> dynPatch (dynamicClient a) namespace name (JObj []) [''restart''];
     ret (case r of
       Inl err \<Rightarrow> Some (''restarting VM '' @ namespace @ ''/'' @ name @ '': '' @ errorText err)
     | Inr _ \<Rightarrow> None)
   }"

context vm_api
begin

lemma PatchVMResources_wp:
  assumes "dynamicClient a = D" and "trace ev hi w0 es w"
    and "\<And>e w'. trace ev hi w0 es w' \<Longrightarrow> hi w \<subseteq> hi w' \<Longrightarrow> Q (Some e) w'"
    and "\<And>r w'. trace ev hi w0 (es @ [VMPatched ns n (resourcePatch c (QString ql m)) []]) w' \<Longrightarrow>
      hi w \<subseteq> hi w' \<Longrightarrow> Q r w'"
  shows "wp (PatchVMResources ql a n ns c m) Q w"
  unfolding PatchVMResources_def assms(1) wp_bind wp_return
  by (rule dynPatch_wp[OF assms(2)]) (auto intro: assms(3,4))

lemma RestartVM_wp:
  assumes "dynamicClient a = D" and "trace ev hi w0 es w"
    and "\<And>e w'. trace ev hi w0 es w' \<Longrightarrow> hi w \<subseteq> hi w' \<Longrightarrow> Q (Some e) w'"
    and "\<And>r w'. trace ev hi w0 (es @ [VMPatched ns n (JObj []) [''restart'']]) w' \<Longrightarrow>
      hi w \<subseteq> hi w' \<Longrightarrow> Q r w'"
  shows "wp (RestartVM a n ns) Q w"
  unfolding RestartVM_def assms(1) wp_bind wp_return
  by (rule dynPatch_wp[OF assms(2)]) (auto intro: assms(3,4))

end

section \<open>The effect of the patch\<close>

text \<open>A path is \<open>parallel\<close> to another when neither is a prefix of the other: it leads to another place.\<close>

abbreviation coresPath :: "string list" where
  "coresPath \<equiv> [''spec'', ''template'', ''spec'', ''domain'', ''cpu'', ''cores'']"

abbreviation guestPath :: "string list" where
  "guestPath \<equiv> [''spec'', ''template'', ''spec'', ''domain'', ''memory'', ''guest'']"

lemma parallel_Cons [simp]: "parallel (k # q) (k' # p) \<longleftrightarrow> k \<noteq> k' \<or> parallel q p" "\<not> parallel [] p" "\<not> parallel q []"
  by (auto simp: parallel_def)

lemma at_orNull: "q \<noteq> [] \<Longrightarrow> at_path (orNull j) q = (case j of None \<Rightarrow> None | Some j' \<Rightarrow> at_path j' q)"
  by (cases j; cases q) simp_all

lemma merge_nested:
  assumes "\<And>t q. parallel q p \<Longrightarrow> parallel q p' \<Longrightarrow> at_path (merge t (JObj kvs)) q = at_path t q"
    and "parallel q (k # p)" "parallel q (k # p')"
  shows "at_path (merge vm (JObj [(k, JObj kvs)])) q = at_path vm q"
proof (cases q)
  case (Cons k' r)
  show ?thesis
  proof (cases "k' = k")
    case True
    then have r: "parallel r p" "parallel r p'" "r \<noteq> []" using assms(2,3) Cons by auto
    then show ?thesis using assms(1)[OF r(1,2)] at_orNull[OF r(3)] Cons True by (simp del: merge.simps)
  qed (use Cons in \<open>simp del: merge.simps\<close>)
qed (use assms(2) in simp)

lemma merge_leaf:
  "parallel q [k] \<Longrightarrow> at_path (merge t (JObj [(k, JNum n)])) q = at_path t q"
  "parallel q [k] \<Longrightarrow> at_path (merge t (JObj [(k, JStr v)])) q = at_path t q"
  by (cases q; simp del: merge.simps)+

lemma merge_domain:
  assumes "parallel q [''cpu'', ''cores'']" "parallel q [''memory'', ''guest'']"
  shows "at_path (merge t (JObj [(''cpu'', JObj [(''cores'', JNum c)]), (''memory'', JObj [(''guest'', JStr m)])])) q = at_path t q"
proof (cases q)
  case (Cons k r)
  have "r \<noteq> []" if "k = ''cpu'' \<or> k = ''memory''" using assms Cons that by auto
  then show ?thesis using assms Cons at_orNull merge_leaf by (auto simp del: merge.simps split: option.splits)
qed (use assms in simp)

text \<open>C34: merged into any VM document, the resource patch sets the CPU cores and the guest
  memory to the given values and changes nothing else: whatever any other path of the document leads to, sockets and threads of the
  CPU included, is what it was, and nothing appears where nothing was.\<close>

theorem resource_patch_effect:
  "at_path (merge vm (resourcePatch c m)) coresPath = Some (JNum c) \<and>
   at_path (merge vm (resourcePatch c m)) guestPath = Some (JStr m) \<and>
   (parallel q coresPath \<and> parallel q guestPath \<longrightarrow> at_path (merge vm (resourcePatch c m)) q = at_path vm q)"
proof -
  have "at_path (merge vm (resourcePatch c m)) q = at_path vm q" if "parallel q coresPath" "parallel q guestPath"
    unfolding resourcePatch_def by (rule merge_nested merge_domain that | assumption)+
  then show ?thesis by (auto simp: resourcePatch_def simp del: merge.simps)
qed

theorem resource_patch_effect_witness:
  "at_path (merge (JObj [(''spec'', JObj [(''template'', JObj [(''spec'', JObj [(''domain'', JObj [(''cpu'',
      JObj [(''sockets'', JNum 2), (''cores'', JNum 8)])])])])])]) (resourcePatch 4 ''8Gi''))
      [''spec'', ''template'', ''spec'', ''domain'', ''cpu'', ''sockets''] = Some (JNum 2) \<and>
   at_path (merge (JObj []) (resourcePatch 4 ''8Gi'')) [''spec'', ''template'', ''spec'', ''domain'', ''cpu'', ''sockets''] = None"
proof -
  let ?vm = "JObj [(''spec'', JObj [(''template'', JObj [(''spec'', JObj [(''domain'', JObj [(''cpu'',
      JObj [(''sockets'', JNum 2), (''cores'', JNum 8)])])])])])]"
  let ?q = "[''spec'', ''template'', ''spec'', ''domain'', ''cpu'', ''sockets'']"
  have "at_path ?vm ?q = Some (JNum 2)" "at_path (JObj []) ?q = None" by (simp_all add: field_def)
  then show ?thesis using resource_patch_effect[of ?vm 4 "''8Gi''" ?q] resource_patch_effect[of "JObj []" 4 "''8Gi''" ?q]
    by (simp del: merge.simps at_path.simps)
qed

end
