(* ===== verification/Approval_Token.thy ===== *)
theory Approval_Token
  imports Mem_Cluster
begin

text \<open>
  Approval tokens (\<open>internal/approval/token.go\<close>): a JWT with the namespace and name of the
  recommendation and its owner, signed with HS256, valid for a given time.

  The JWT library (golang-jwt v5) is a parameter, the record \<open>jwt_lib\<close>; the locale \<open>jwt\<close> states
  what the code relies on. \<open>ParseWithClaims\<close> takes the time of the call, the key function (by
  the algorithm of the token's header) and the token.
\<close>

record ApprovalClaims =
  Subject :: string
  ExpiresAt :: "time option"
  IssuedAt :: "time option"
  Issuer :: string
  ClmNamespace :: string
  RecName :: string
  ClmOwner :: string

record jwt_lib =
  NewNumericDate :: "time \<Rightarrow> time"
  SignedString :: "string \<Rightarrow> string \<Rightarrow> ApprovalClaims \<Rightarrow> string + string"
  IsHMAC :: "string \<Rightarrow> bool"
  ParseWithClaims :: "time \<Rightarrow> (string \<Rightarrow> string + string) \<Rightarrow> string \<Rightarrow> string + (ApprovalClaims \<times> bool)"

record TokenManager =
  signingKey :: string

definition newClaims :: "jwt_lib \<Rightarrow> time \<Rightarrow> string \<Rightarrow> string \<Rightarrow> string \<Rightarrow> time \<Rightarrow> ApprovalClaims" where
  "newClaims J now namespace recName owner ttl =
    \<lparr>Subject = owner, ExpiresAt = Some (NewNumericDate J (now + ttl)),
     IssuedAt = Some (NewNumericDate J now), Issuer = ''ovro'',
     ClmNamespace = namespace, RecName = recName, ClmOwner = owner\<rparr>"

definition GenerateToken :: "jwt_lib \<Rightarrow> ('w, time) state \<Rightarrow> TokenManager \<Rightarrow> string \<Rightarrow> string \<Rightarrow>
    string \<Rightarrow> time \<Rightarrow> ('w, string + string) state" where
  "GenerateToken J Now tm namespace recName owner ttl = do {
     now \<leftarrow> Now;
     ret (SignedString J ''HS256'' (signingKey tm) (newClaims J now namespace recName owner ttl))
   }"

definition keyFunc :: "jwt_lib \<Rightarrow> TokenManager \<Rightarrow> string \<Rightarrow> string + string" where
  "keyFunc J tm alg = (if IsHMAC J alg then Inr (signingKey tm)
     else Inl (''unexpected signing method: '' @ alg))"

definition ValidateToken :: "jwt_lib \<Rightarrow> ('w, time) state \<Rightarrow> TokenManager \<Rightarrow> string \<Rightarrow>
    ('w, string + ApprovalClaims) state" where
  "ValidateToken J Now tm tokenString = do {
     now \<leftarrow> Now;
     ret (case ParseWithClaims J now (keyFunc J tm) tokenString of
       Inl err \<Rightarrow> Inl err
     | Inr (claims, valid) \<Rightarrow> if valid then Inr claims else Inl ''invalid token'')
   }"

section \<open>What the JWT library promises\<close>

definition ascii :: "string \<Rightarrow> bool" where
  "ascii s \<longleftrightarrow> list_all (\<lambda>c. (of_char c :: nat) < 128) s"

definition wholeSeconds :: "time option \<Rightarrow> bool" where
  "wholeSeconds t \<longleftrightarrow> (case t of None \<Rightarrow> True | Some u \<Rightarrow> truncSecond u = u)"

definition plainClaims :: "ApprovalClaims \<Rightarrow> bool" where
  "plainClaims c \<longleftrightarrow> ascii (Subject c) \<and> ascii (Issuer c) \<and> ascii (ClmNamespace c) \<and>
     ascii (RecName c) \<and> ascii (ClmOwner c) \<and> wholeSeconds (ExpiresAt c) \<and> wholeSeconds (IssuedAt c)"

text \<open>\<open>verifies alg key tok\<close>: the signature of \<open>tok\<close> is valid for \<open>alg\<close> and \<open>key\<close>. Parsing calls
  the key function on the algorithm of the header and fails with it; it checks the signature
  and the expiry; and it reads back the claims of a token the library signed. Strings outside
  ASCII may be rewritten by the JSON encoding and dates lose their fraction of a second, so
  the last law asks for plain claims.\<close>

locale jwt =
  fixes J :: jwt_lib
    and verifies :: "string \<Rightarrow> string \<Rightarrow> string \<Rightarrow> bool"
  assumes date: "NewNumericDate J t = truncSecond t"
    and hs256: "IsHMAC J ''HS256''"
    and parse_sound: "ParseWithClaims J now kf tok = Inr (c, v) \<Longrightarrow>
      v \<and> (\<exists>alg key. kf alg = Inr key \<and> verifies alg key tok)"
    and parse_expiry: "ParseWithClaims J now kf tok = Inr (c, v) \<Longrightarrow> ExpiresAt c = Some e \<Longrightarrow> now < e"
    and sign_parse: "SignedString J alg key c = Inr tok \<Longrightarrow> plainClaims c \<Longrightarrow> kf alg = Inr key \<Longrightarrow>
      (\<And>e. ExpiresAt c = Some e \<Longrightarrow> now < e) \<Longrightarrow> ParseWithClaims J now kf tok = Inr (c, True)"
begin

lemma ValidateToken_sound:
  assumes "run_state (ValidateToken J Now tm tok) w = (Inr c, w')"
  shows "(\<exists>alg. IsHMAC J alg \<and> verifies alg (signingKey tm) tok) \<and>
    (\<forall>e. ExpiresAt c = Some e \<longrightarrow> fst (run_state Now w) < e)"
proof -
  obtain v where p: "ParseWithClaims J (fst (run_state Now w)) (keyFunc J tm) tok = Inr (c, v)"
    using assms by (auto simp: ValidateToken_def split: prod.splits sum.splits if_splits)
  show ?thesis using parse_sound[OF p] parse_expiry[OF p]
    by (auto simp: keyFunc_def split: if_splits)
qed

lemma Generate_Validate:
  assumes gen: "run_state (GenerateToken J Now tm ns rec owner ttl) w = (Inr tok, w1)"
    and "ascii ns" "ascii rec" "ascii owner"
    and "fst (run_state Now w2) < truncSecond (fst (run_state Now w) + ttl)"
  shows "fst (run_state (ValidateToken J Now tm tok) w2) =
    Inr (newClaims J (fst (run_state Now w)) ns rec owner ttl)"
proof -
  let ?c = "newClaims J (fst (run_state Now w)) ns rec owner ttl"
  have "SignedString J ''HS256'' (signingKey tm) ?c = Inr tok"
    using gen by (auto simp: GenerateToken_def split: prod.splits)
  moreover have "plainClaims ?c"
    using assms(2-4) by (simp add: plainClaims_def newClaims_def wholeSeconds_def date ascii_def)
  ultimately have "ParseWithClaims J (fst (run_state Now w2)) (keyFunc J tm) tok = Inr (?c, True)"
    using assms(5) hs256 by (intro sign_parse) (auto simp: keyFunc_def newClaims_def date)
  then show ?thesis by (auto simp: ValidateToken_def split: prod.splits)
qed

end

section \<open>An instance\<close>

text \<open>Tokens as sequences of length-prefixed strings that carry the key itself in the place of
  the signature: enough to see the laws hold together and to run the code, not a MAC.\<close>

definition netstring :: "string \<Rightarrow> string" where
  "netstring s = show_nat (length s) @ CHR '':'' # s"

fun read_netstrings :: "nat \<Rightarrow> string \<Rightarrow> string list option" where
  "read_netstrings 0 t = (if t = [] then Some [] else None)"
| "read_netstrings (Suc k) t = (case read_digits 0 t of (n, rest) \<Rightarrow>
     (case rest of
        [] \<Rightarrow> None
      | c # u \<Rightarrow> if c = CHR '':'' \<and> n \<le> length u
          then map_option (Cons (take n u)) (read_netstrings k (drop n u)) else None))"

definition encTime :: "time option \<Rightarrow> string" where
  "encTime t = (case t of None \<Rightarrow> [] | Some u \<Rightarrow> show_int u)"

definition decTime :: "string \<Rightarrow> time option" where
  "decTime s = map_option fst (read_int s)"

definition memSign :: "string \<Rightarrow> string \<Rightarrow> ApprovalClaims \<Rightarrow> string + string" where
  "memSign alg key c = Inr (concat (map netstring [alg, key, Subject c, encTime (ExpiresAt c),
     encTime (IssuedAt c), Issuer c, ClmNamespace c, RecName c, ClmOwner c]))"

definition memClaims :: "string list \<Rightarrow> ApprovalClaims" where
  "memClaims xs = \<lparr>Subject = xs ! 2, ExpiresAt = decTime (xs ! 3), IssuedAt = decTime (xs ! 4),
     Issuer = xs ! 5, ClmNamespace = xs ! 6, RecName = xs ! 7, ClmOwner = xs ! 8\<rparr>"

definition memParse :: "time \<Rightarrow> (string \<Rightarrow> string + string) \<Rightarrow> string \<Rightarrow> string + (ApprovalClaims \<times> bool)" where
  "memParse now kf tok = (case read_netstrings 9 tok of
      None \<Rightarrow> Inl ''token is malformed''
    | Some xs \<Rightarrow> (case kf (xs ! 0) of
          Inl err \<Rightarrow> Inl err
        | Inr key \<Rightarrow>
            if key \<noteq> xs ! 1 then Inl ''signature is invalid''
            else if (case ExpiresAt (memClaims xs) of None \<Rightarrow> False | Some e \<Rightarrow> e \<le> now)
              then Inl ''token is expired''
            else Inr (memClaims xs, True)))"

definition memVerifies :: "string \<Rightarrow> string \<Rightarrow> string \<Rightarrow> bool" where
  "memVerifies alg key tok = (case read_netstrings 9 tok of
      None \<Rightarrow> False | Some xs \<Rightarrow> xs ! 0 = alg \<and> xs ! 1 = key)"

definition memJwt :: jwt_lib where
  "memJwt = \<lparr>NewNumericDate = truncSecond, SignedString = memSign,
     IsHMAC = (\<lambda>alg. alg \<in> {''HS256'', ''HS384'', ''HS512''}), ParseWithClaims = memParse\<rparr>"

lemma read_netstrings_encode: "read_netstrings (length xs) (concat (map netstring xs)) = Some xs"
  by (induction xs) (simp_all add: netstring_def is_digit_def)

lemma decTime_encTime [simp]: "decTime (encTime t) = t"
  using read_int_show[of "[]"] by (cases t) (simp_all add: decTime_def encTime_def read_int_def)

lemma memParse_sign:
  assumes "memSign alg key c = Inr tok" and "kf alg = Inr key"
    and "\<And>e. ExpiresAt c = Some e \<Longrightarrow> now < e"
  shows "memParse now kf tok = Inr (c, True)"
proof -
  let ?xs = "[alg, key, Subject c, encTime (ExpiresAt c), encTime (IssuedAt c), Issuer c,
    ClmNamespace c, RecName c, ClmOwner c]"
  have "read_netstrings 9 tok = Some ?xs"
    using assms(1) read_netstrings_encode[of ?xs] by (simp add: memSign_def eval_nat_numeral)
  moreover have "memClaims ?xs = c" by (simp add: memClaims_def)
  ultimately show ?thesis using assms(2,3) by (auto simp: memParse_def split: option.splits)
qed

interpretation mem: jwt memJwt memVerifies
proof (unfold_locales, goal_cases)
  case (5 alg key c tok kf now)
  then show ?case by (simp add: memJwt_def memParse_sign)
qed (auto simp: memJwt_def memParse_def memVerifies_def split: option.splits sum.splits if_splits)

section \<open>Properties\<close>

text \<open>C11: a token the manager generates is accepted until the whole second in which it
  expires, by any manager with the same key, and yields the namespace, recommendation and
  owner it was made for.\<close>

theorem token_roundtrip:
  assumes "jwt J verifies"
    and "run_state (GenerateToken J Now tm ns rec owner ttl) w = (Inr tok, w1)"
    and "ascii ns" "ascii rec" "ascii owner"
    and "fst (run_state Now w2) < truncSecond (fst (run_state Now w) + ttl)"
  shows "\<exists>c. fst (run_state (ValidateToken J Now tm tok) w2) = Inr c \<and>
    ClmNamespace c = ns \<and> RecName c = rec \<and> ClmOwner c = owner"
  using jwt.Generate_Validate[OF assms] by (auto simp: newClaims_def)

theorem token_roundtrip_witness:
  "\<exists>tok c. fst (run_state (GenerateToken memJwt memNow \<lparr>signingKey = ''k''\<rparr> ''prod'' ''vm-web'' ''alice''
      (10 * Second)) emptyWorld) = Inr tok \<and>
    fst (run_state (ValidateToken memJwt memNow \<lparr>signingKey = ''k''\<rparr> tok) (emptyWorld\<lparr>wNow := Second\<rparr>)) = Inr c \<and>
    ClmNamespace c = ''prod'' \<and> RecName c = ''vm-web'' \<and> ClmOwner c = ''alice''"
proof -
  let ?gen = "GenerateToken memJwt memNow \<lparr>signingKey = ''k''\<rparr> ''prod'' ''vm-web'' ''alice'' (10 * Second)"
  obtain tok w1 where t: "run_state ?gen emptyWorld = (Inr tok, w1)"
    by (auto simp: GenerateToken_def memNow_def memJwt_def memSign_def)
  have "jwt memJwt memVerifies" by unfold_locales
  from token_roundtrip[OF this t, of "emptyWorld\<lparr>wNow := Second\<rparr>"] t show ?thesis
    by (auto simp: ascii_def memNow_def emptyWorld_def truncSecond_def)
qed

text \<open>C12: whatever token the manager accepts carries a signature that is valid for its key
  under an HMAC algorithm, and has not expired.\<close>

theorem token_soundness:
  assumes "jwt J verifies"
    and "run_state (ValidateToken J Now tm tok) w = (Inr c, w')"
  shows "(\<exists>alg. IsHMAC J alg \<and> verifies alg (signingKey tm) tok) \<and>
    (\<forall>e. ExpiresAt c = Some e \<longrightarrow> fst (run_state Now w) < e)"
  by (rule jwt.ValidateToken_sound[OF assms])

theorem token_soundness_witness:
  "\<exists>tok c. fst (run_state (ValidateToken memJwt memNow \<lparr>signingKey = ''k''\<rparr> tok) emptyWorld) = Inr c \<and>
    (\<exists>alg. IsHMAC memJwt alg \<and> memVerifies alg ''k'' tok) \<and>
    (\<forall>e. ExpiresAt c = Some e \<longrightarrow> 0 < e)"
proof -
  let ?c = "\<lparr>Subject = ''alice'', ExpiresAt = Some Second, IssuedAt = None, Issuer = ''ovro'',
    ClmNamespace = ''prod'', RecName = ''vm-web'', ClmOwner = ''alice''\<rparr>"
  obtain tok where t: "memSign ''HS256'' ''k'' ?c = Inr tok" by (simp add: memSign_def)
  have "memParse 0 (keyFunc memJwt \<lparr>signingKey = ''k''\<rparr>) tok = Inr (?c, True)"
    by (rule memParse_sign[OF t]) (simp_all add: keyFunc_def memJwt_def)
  then obtain w' where run:
      "run_state (ValidateToken memJwt memNow \<lparr>signingKey = ''k''\<rparr> tok) emptyWorld = (Inr ?c, w')"
    by (simp add: ValidateToken_def memNow_def memJwt_def emptyWorld_def)
  have "jwt memJwt memVerifies" by unfold_locales
  from token_soundness[OF this run] run show ?thesis
    by (intro exI[of _ tok] exI[of _ ?c]) (simp add: memNow_def emptyWorld_def)
qed

end
