(* ===== verification/Workflow.thy ===== *)
theory Workflow
  imports Owner Applier Approval_Token
begin

text \<open>
  The life of a recommendation, as a specification: which status may follow which, and which
  writes to the cluster the program is allowed to make. The controllers and the API server
  are proved to make no other (\<open>Restart_Controller\<close>, \<open>Recommendation_Controller\<close>,
  \<open>API_Server\<close>); this theory proves what follows for every history of such writes.

  It also holds what the components share: the record of library functions they are given
  and the result of a reconciliation.
\<close>

section \<open>Shared by the components\<close>

text \<open>\<open>Oor\<close> is what the target architecture makes of a float outside the range of an integer.\<close>

record ('w, 'o, 'q) lib =
  Oor :: "float64 \<Rightarrow> int"
  Quantities :: "'q quantity_lib"
  Unstructured :: "'o unstructured"
  Jwt :: jwt_lib
  Now :: "('w, time) state"

text \<open>\<open>ctrl.Result\<close> with the error: requeue after a duration (0: do not), an error, a panic.\<close>

datatype reconcile_result = Requeue time | Error string | Panicked

text \<open>\<open>t.Sub(u)\<close>: a \<open>time.Duration\<close> is an \<open>int64\<close> of nanoseconds, and the difference saturates.\<close>

definition timeSub :: "time \<Rightarrow> time \<Rightarrow> time" where
  "timeSub t u = max (- (2 ^ 63)) (min (2 ^ 63 - 1) (t - u))"

lemma timeSub_less [simp]: "- (2 ^ 63) \<le> c \<Longrightarrow> c < 2 ^ 63 - 1 \<Longrightarrow> c < timeSub t u \<longleftrightarrow> c < t - u"
  by (auto simp: timeSub_def)

text \<open>\<open>int32(q.Value() / (1024 * 1024 * 1024))\<close>.\<close>

definition gib :: "'q quantity_lib \<Rightarrow> 'q \<Rightarrow> int" where
  "gib Q q = i32 (Value Q q sdiv 2 ^ 30)"

definition approvalURL :: "string \<Rightarrow> string \<Rightarrow> string" where
  "approvalURL host token = ''https://'' @ host @ ''/approve?token='' @ token"

text \<open>The notification that both controllers and the API server build for a recommendation.\<close>

definition notificationFor ::
  "'q quantity_lib \<Rightarrow> 'q recommendation \<Rightarrow> string \<Rightarrow> string \<Rightarrow> Notification" where
  "notificationFor Q rec owner url =
    \<lparr>VMName = RefName (VirtualMachineRef (Spec rec)),
     NtfNamespace = RefNamespace (VirtualMachineRef (Spec rec)),
     NtfOwner = owner,
     NtfDirection = Direction (Spec rec),
     CurrentCPU = Cores (CPU (Current (Spec rec))),
     CurrentMemory = gib Q (Memory (Current (Spec rec))),
     RecCPU = Cores (CPU (Recommended (Spec rec))),
     RecMemory = gib Q (Memory (Recommended (Spec rec))),
     ApprovalURL = url\<rparr>"

section \<open>Status transitions\<close>

abbreviation activeState :: "string \<Rightarrow> bool" where
  "activeState st \<equiv> st = StateApplied \<or> st = StateAppliedPendingRestart \<or> st = StateAwaitingApproval"

abbreviation appliedState :: "string \<Rightarrow> bool" where
  "appliedState st \<equiv> st = StateApplied \<or> st = StateAppliedPendingRestart"

inductive status_step :: "'q RightsizingRecommendationSpec \<Rightarrow> 'q RightsizingRecommendationStatus \<Rightarrow>
    'q RightsizingRecommendationStatus \<Rightarrow> bool" for sp where
  initialise: "s = emptyStatus \<Longrightarrow>
    status_step sp s (s\<lparr>State := StatePending, LastCalculated := Some t\<rparr>)"
| recalculate: "\<not> activeState (State s) \<Longrightarrow> status_step sp s (s\<lparr>LastCalculated := Some t\<rparr>)"
| expire: "State s = StateAwaitingApproval \<Longrightarrow> NotifiedAt s = Some n \<Longrightarrow>
    status_step sp s (s\<lparr>State := StatePending, Owner := [], ApprovalToken := [],
      NotifiedAt := None, ReminderSentAt := None\<rparr>)"
| remind: "State s = StateAwaitingApproval \<Longrightarrow> NotifiedAt s = Some n \<Longrightarrow> ReminderSentAt s = None \<Longrightarrow>
    status_step sp s (s\<lparr>ReminderSentAt := Some t\<rparr>)"
| request_approval: "State s = StatePending \<Longrightarrow> owner \<noteq> [] \<Longrightarrow>
    status_step sp s (s\<lparr>State := StateAwaitingApproval, Owner := owner, ApprovalToken := tok,
      NotifiedAt := Some t, RevertConfig := Some (Current sp)\<rparr>)"
| apply_direct: "State s = StatePending \<Longrightarrow> appliedState st \<Longrightarrow> (st = StateApplied \<Longrightarrow> a \<noteq> None) \<Longrightarrow>
    status_step sp s (s\<lparr>RevertConfig := Some (Current sp), State := st, AppliedAt := a,
      ScheduledRestartAt := r\<rparr>)"
| apply_failed: "State s = StatePending \<Longrightarrow>
    status_step sp s (s\<lparr>RevertConfig := Some (Current sp), State := StateFailed, Message := m\<rparr>)"
| approve: "State s = StateAwaitingApproval \<Longrightarrow> appliedState st \<Longrightarrow> (st = StateApplied \<Longrightarrow> a \<noteq> None) \<Longrightarrow>
    status_step sp s (s\<lparr>ApprovedBy := by, ApprovedAt := Some t, ApprovalToken := [],
      State := st, AppliedAt := a, ScheduledRestartAt := r\<rparr>)"
| reject: "State s = StateAwaitingApproval \<Longrightarrow>
    status_step sp s (s\<lparr>State := StatePending, RejectedBy := by, RejectedAt := Some t,
      RejectionReason := m, Owner := [], ApprovalToken := [], NotifiedAt := None\<rparr>)"
| revert: "appliedState (State s) \<Longrightarrow> RevertConfig s \<noteq> None \<Longrightarrow>
    status_step sp s (s\<lparr>State := StateReverted\<rparr>)"
| restarted: "State s = StateAppliedPendingRestart \<Longrightarrow> ScheduledRestartAt s = Some r \<Longrightarrow>
    status_step sp s (s\<lparr>State := StateApplied, AppliedAt := Some t, ScheduledRestartAt := None\<rparr>)"
| restart_failed: "State s = StateAppliedPendingRestart \<Longrightarrow> ScheduledRestartAt s = Some r \<Longrightarrow>
    status_step sp s (s\<lparr>State := StateFailed, Message := m\<rparr>)"

text \<open>The writes the program may make. A status goes through the API server, which keeps whole
  seconds; the spec changes only while the recommendation is not active and never touches what
  identifies the VM, its size at creation, or the hotplug flag.\<close>

fun allowed :: "'q event \<Rightarrow> bool" where
  "allowed (RecCreated new) = (Status new = emptyStatus \<and>
     Name new = ''vm-'' @ RefName (VirtualMachineRef (Spec new)) \<and>
     Namespace new = RefNamespace (VirtualMachineRef (Spec new)) \<and> \<not> HotplugCapable (Spec new))"
| "allowed (RecUpdated old new) = (recKey new = recKey old \<and> Status new = Status old \<and>
     \<not> activeState (recState old) \<and> VirtualMachineRef (Spec new) = VirtualMachineRef (Spec old) \<and>
     Current (Spec new) = Current (Spec old) \<and> HotplugCapable (Spec new) = HotplugCapable (Spec old))"
| "allowed (RecStatusUpdated old new) = (recKey new = recKey old \<and> Spec new = Spec old \<and>
     (\<exists>s'. status_step (Spec old) (Status old) s' \<and> Status new = serStatus s'))"
| "allowed e = True"

abbreviation allAllowed :: "'q event list \<Rightarrow> bool" where
  "allAllowed es \<equiv> list_all allowed es"

lemma allowed_statusI:
  "status_step (Spec old) (Status old) s' \<Longrightarrow> recKey new = recKey old \<Longrightarrow> Spec new = Spec old \<Longrightarrow>
    Status new = serStatus s' \<Longrightarrow> allowed (RecStatusUpdated old new)"
  by auto

section \<open>Status writes\<close>

text \<open>A status write and its outcome: the new version is stored, or it was refused and the caller gets
  an error.\<close>

definition stores :: "('w, 'o, 'q) client \<Rightarrow> 'q recommendation \<Rightarrow> 'q RightsizingRecommendationStatus \<Rightarrow>
    'e + 'q recommendation \<Rightarrow> 'q event list \<Rightarrow> 'w \<Rightarrow> bool" where
  "stores C rec s' r es w' \<longleftrightarrow>
     es = [] \<and> isl r \<and> refused (updateRecStatus C (rec\<lparr>Status := s'\<rparr>)) w' \<or>
     (\<exists>new. es = [RecStatusUpdated rec new] \<and> recKey new = recKey rec \<and> Spec new = Spec rec \<and>
        Status new = serStatus s' \<and> (isl r \<or> r = Inr new))"

context recommendation_store
begin

lemma stores_wp:
  assumes "trace ev hi w0 es w" and "rec \<in> hi w"
    and "\<And>u upd w'. trace ev hi w0 (es @ upd) w' \<Longrightarrow> stores C rec s' u upd w' \<Longrightarrow> Q u w'"
  shows "wp (updateRecStatus C (rec\<lparr>Status := s'\<rparr>)) Q w"
proof (rule updateRecStatus_refused_wp[where old = rec, OF assms(1,2)], goal_cases)
  case (3 e w')
  then show ?case using assms(3)[of "[]" w' "Inl e"] by (simp add: stores_def)
next
  case (4 new u w')
  then show ?case using assms(3)[of "[RecStatusUpdated rec new]" w' u] by (simp add: stores_def)
qed auto

end

section \<open>Requests for approval\<close>

fun isNotification :: "'q event \<Rightarrow> bool" where
  "isNotification (NotificationSent f n) = True"
| "isNotification e = False"

definition awaitingStatus :: "'q recommendation \<Rightarrow> string \<Rightarrow> string \<Rightarrow> time \<Rightarrow> 'q RightsizingRecommendationStatus" where
  "awaitingStatus rec owner token t = (Status rec)\<lparr>State := StateAwaitingApproval, Owner := owner,
     ApprovalToken := token, NotifiedAt := Some t, RevertConfig := Some (Current (Spec rec))\<rparr>"

text \<open>The token of an approval link that is made at time \<open>t\<close>.\<close>

definition linkToken :: "('w, 'o, 'q) lib \<Rightarrow> TokenManager \<Rightarrow> string \<Rightarrow> string \<Rightarrow> string \<Rightarrow> time \<Rightarrow> string + string" where
  "linkToken L tm ns name owner t =
    SignedString (Jwt L) ''HS256'' (signingKey tm) (newClaims (Jwt L) t ns name owner (14 * 24 * Hour))"

lemma linkToken_wp:
  assumes "clock (Now L) ev hi" and "trace ev hi w0 es w"
    and "\<And>t w'. trace ev hi w0 (es @ [ClockRead t]) w' \<Longrightarrow> hi w \<subseteq> hi w' \<Longrightarrow> Q (linkToken L tm ns name owner t) w'"
  shows "wp (GenerateToken (Jwt L) (Now L) tm ns name owner (14 * 24 * Hour)) Q w"
  unfolding GenerateToken_def wp_bind wp_return
  by (rule clock.Now_wp[OF assms(1,2)]) (use assms(3) in \<open>simp add: linkToken_def\<close>)

fun linkSent :: "string \<Rightarrow> string \<Rightarrow> 'q event \<Rightarrow> bool" where
  "linkSent owner url (NotificationSent f n) = (NtfOwner n = owner \<and> ApprovalURL n = url)"
| "linkSent owner url e = False"

text \<open>A request for approval: the clock for the token and for the status, the status with the token,
  and only then the notifications, each with the link that holds this token. It stops early only
  where the token cannot be signed or the API server refuses (\<open>ref\<close>) the status.\<close>

definition approval_trace :: "(time \<Rightarrow> string + string) \<Rightarrow> string \<Rightarrow> ('q recommendation \<Rightarrow> bool) \<Rightarrow>
    'q recommendation \<Rightarrow> string \<Rightarrow> 'q event list \<Rightarrow> bool" where
  "approval_trace sign host ref rec owner es \<longleftrightarrow> (\<exists>t t' token.
     (es = [ClockRead t] \<and> isl (sign t)) \<or>
     (es = [ClockRead t, ClockRead t'] \<and> sign t = Inr token \<and> ref (rec\<lparr>Status := awaitingStatus rec owner token t'\<rparr>)) \<or>
     (\<exists>new ns. es = [ClockRead t, ClockRead t', RecStatusUpdated rec new] @ ns \<and> sign t = Inr token \<and>
        list_all (linkSent owner (approvalURL host token)) ns \<and> recKey new = recKey rec \<and> Spec new = Spec rec \<and>
        Status new = serStatus (awaitingStatus rec owner token t')))"

lemma approval_traceI:
  "sign t = Inr token \<Longrightarrow> recKey new = recKey rec \<Longrightarrow> Spec new = Spec rec \<Longrightarrow>
    Status new = serStatus (awaitingStatus rec owner token t') \<Longrightarrow>
    list_all (linkSent owner (approvalURL host token)) ns \<Longrightarrow>
    approval_trace sign host ref rec owner (ClockRead t # ClockRead t' # RecStatusUpdated rec new # ns)"
  by (auto simp: approval_trace_def)

section \<open>Histories of one recommendation\<close>

text \<open>\<open>applyEvent k\<close> follows the current version stored under the name \<open>k\<close>; \<open>None\<close> is an event
  that the API server's compare-and-swap does not let through there.\<close>

fun applyEvent :: "string \<times> string \<Rightarrow> 'q event \<Rightarrow> 'q recommendation option \<Rightarrow> 'q recommendation option option" where
  "applyEvent k (RecCreated new) cur = (if recKey new \<noteq> k then Some cur
     else if cur = None then Some (Some new) else None)"
| "applyEvent k (RecUpdated old new) cur = (if recKey old \<noteq> k then Some cur
     else if cur = Some old then Some (Some new) else None)"
| "applyEvent k (RecStatusUpdated old new) cur = (if recKey old \<noteq> k then Some cur
     else if cur = Some old then Some (Some new) else None)"
| "applyEvent k (RecDeleted old) cur = (if recKey old \<noteq> k then Some cur
     else if cur = Some old then Some None else None)"
| "applyEvent k e cur = Some cur"

fun replay :: "string \<times> string \<Rightarrow> 'q event list \<Rightarrow> 'q recommendation option \<Rightarrow> 'q recommendation option option" where
  "replay k [] cur = Some cur"
| "replay k (e # es) cur = (case applyEvent k e cur of None \<Rightarrow> None | Some cur' \<Rightarrow> replay k es cur')"

text \<open>The well-formedness of a stored recommendation.\<close>

definition knownState :: "string \<Rightarrow> bool" where
  "knownState st \<longleftrightarrow> st \<in> {[], StatePending, StateAwaitingApproval, StateAppliedPendingRestart,
     StateApplied, StateReverted, StateFailed}"

definition wf_status :: "'q RightsizingRecommendationSpec \<Rightarrow> 'q RightsizingRecommendationStatus \<Rightarrow> bool" where
  "wf_status sp s \<longleftrightarrow> knownState (State s) \<and>
     (activeState (State s) \<or> State s = StateReverted \<or> State s = StateFailed \<longrightarrow>
        RevertConfig s = Some (Current sp)) \<and>
     (State s = StateAwaitingApproval \<longrightarrow> Owner s \<noteq> [] \<and> NotifiedAt s \<noteq> None) \<and>
     (State s = StateApplied \<longrightarrow> AppliedAt s \<noteq> None)"

definition wf_rec :: "'q recommendation \<Rightarrow> bool" where
  "wf_rec x \<longleftrightarrow>
     Name x = ''vm-'' @ RefName (VirtualMachineRef (Spec x)) \<and>
     Namespace x = RefNamespace (VirtualMachineRef (Spec x)) \<and>
     \<not> HotplugCapable (Spec x) \<and> wf_status (Spec x) (Status x)"

lemma emptyStatus_fields [simp]: "State emptyStatus = []" "RevertConfig emptyStatus = None"
  "NotifiedAt emptyStatus = None" "ReminderSentAt emptyStatus = None" "Owner emptyStatus = []"
  by (simp_all add: emptyStatus_def)

lemma wf_status_ser [simp]: "wf_status sp (serStatus s) = wf_status sp s"
  by (simp add: wf_status_def)

lemma wf_status_empty [simp]: "wf_status sp emptyStatus"
  by (simp add: wf_status_def knownState_def)

lemma wf_status_spec: "Current sp' = Current sp \<Longrightarrow> wf_status sp' s = wf_status sp s"
  by (simp add: wf_status_def)

lemma status_step_wf:
  assumes "status_step sp s s'" and "wf_status sp s"
  shows "wf_status sp s'"
  using assms(1)
proof cases
  case (apply_direct st a r)
  then show ?thesis by (elim disjE) (simp_all add: wf_status_def knownState_def)
next
  case (approve st a "by" t r)
  then show ?thesis using assms(2) by (elim disjE) (simp_all add: wf_status_def knownState_def)
next
  case revert
  then show ?thesis using assms(2) by (elim disjE) (simp_all add: wf_status_def knownState_def)
next
  case (recalculate t)
  then show ?thesis using assms(2) by (simp add: wf_status_def)
qed (use assms(2) in \<open>simp_all add: wf_status_def knownState_def\<close>)

lemma wf_rec_keep:
  assumes "wf_rec old" and "recKey new = recKey old" and "wf_status (Spec new) (Status new)"
    and "VirtualMachineRef (Spec new) = VirtualMachineRef (Spec old)"
    and "HotplugCapable (Spec new) = HotplugCapable (Spec old)"
  shows "wf_rec new"
  using assms by (simp add: wf_rec_def)

lemma wf_rec_status: "wf_rec x \<Longrightarrow> wf_status (Spec x) (Status x)"
  by (simp add: wf_rec_def)

lemma allowed_update_wf:
  assumes "allowed (RecUpdated old new)" and "wf_rec old"
  shows "wf_rec new"
proof (rule wf_rec_keep[OF assms(2)])
  show "wf_status (Spec new) (Status new)"
    using assms(1) wf_status_spec[of "Spec new" "Spec old"] wf_rec_status[OF assms(2)] by simp
qed (use assms(1) in simp_all)

lemma allowed_status_wf:
  assumes "allowed (RecStatusUpdated old new)" and "wf_rec old"
  shows "wf_rec new"
proof -
  obtain s' where "status_step (Spec old) (Status old) s'" "Status new = serStatus s'"
    using assms(1) by auto
  then have "wf_status (Spec old) (Status new)"
    using status_step_wf wf_rec_status[OF assms(2)] by simp
  then show ?thesis using assms(1) by (intro wf_rec_keep[OF assms(2)]) simp_all
qed

definition wf_cur :: "string \<times> string \<Rightarrow> 'q recommendation option \<Rightarrow> bool" where
  "wf_cur k cur = (case cur of None \<Rightarrow> True | Some x \<Rightarrow> wf_rec x \<and> recKey x = k)"

lemma wf_cur_simps [simp]: "wf_cur k None" "wf_cur k (Some x) = (wf_rec x \<and> recKey x = k)"
  by (simp_all add: wf_cur_def)

lemma applyEvent_cases:
  assumes "applyEvent k e cur = Some cur'"
  obtains (same) "cur' = cur" | (gone) "cur' = None"
  | (created) new where "e = RecCreated new" "recKey new = k" "cur' = Some new"
  | (updated) old new where "e = RecUpdated old new" "recKey old = k" "cur = Some old" "cur' = Some new"
  | (status) old new where "e = RecStatusUpdated old new" "recKey old = k" "cur = Some old" "cur' = Some new"
  using assms by (cases e) (force split: if_splits)+

lemma allowed_wf:
  assumes "allowed e" and "wf_cur k cur" and "applyEvent k e cur = Some cur'"
  shows "wf_cur k cur'"
  using assms(3)
proof (cases rule: applyEvent_cases)
  case (created new)
  have "wf_rec new" using assms(1) created(1) by (simp add: wf_rec_def)
  then show ?thesis using created by simp
next
  case (updated old new)
  then have "wf_rec old" using assms(2) by simp
  with updated assms(1) have "wf_rec new" by (metis allowed_update_wf)
  moreover have "recKey new = recKey old" using updated(1) assms(1) by simp
  ultimately show ?thesis using updated(2,4) by simp
next
  case (status old new)
  then have "wf_rec old" using assms(2) by simp
  with status assms(1) have "wf_rec new" by (metis allowed_status_wf)
  moreover have "recKey new = recKey old" using status(1) assms(1) by simp
  ultimately show ?thesis using status(2,4) by simp
qed (use assms(2) in simp_all)

lemma replay_wf:
  "allAllowed es \<Longrightarrow> wf_cur k cur \<Longrightarrow> replay k es cur = Some cur' \<Longrightarrow> wf_cur k cur'"
proof (induction es arbitrary: cur)
  case (Cons e es)
  obtain c where c: "applyEvent k e cur = Some c" "replay k es c = Some cur'"
    using Cons.prems(3) by (auto split: option.splits)
  show ?case using Cons.IH[OF _ allowed_wf[OF _ Cons.prems(2) c(1)] c(2)] Cons.prems(1) by simp
qed simp

section \<open>Symbolic execution up to allowed writes\<close>

text \<open>\<open>okay w0 w\<close>: from \<open>w0\<close> to \<open>w\<close> only allowed writes were made. Each call gets a rule that
  hands this on.\<close>

definition okay :: "('w \<Rightarrow> 'q event list) \<Rightarrow> ('w \<Rightarrow> 'q recommendation set) \<Rightarrow> 'w \<Rightarrow> 'w \<Rightarrow> bool" where
  "okay ev hi w0 w \<longleftrightarrow> (\<exists>es. trace ev hi w0 es w \<and> allAllowed es)"

lemma okay_refl [simp, intro]: "okay ev hi w w"
  by (auto simp: okay_def intro!: exI[of _ "[]"])

lemma okay_trace: "okay ev hi w0 w1 \<Longrightarrow> trace ev hi w1 es w2 \<Longrightarrow> allAllowed es \<Longrightarrow> okay ev hi w0 w2"
  unfolding okay_def by (metis trace_trans list_all_append)

lemma okay_hi: "okay ev hi w0 w \<Longrightarrow> x \<in> hi w0 \<Longrightarrow> x \<in> hi w"
  by (auto simp: okay_def dest: trace_hi)

lemma okay_trans: "okay ev hi w0 w1 \<Longrightarrow> okay ev hi w1 w2 \<Longrightarrow> okay ev hi w0 w2"
  unfolding okay_def by (metis trace_trans list_all_append)

lemma okay_quiet_wp:
  assumes "quiet ev hi m" and "okay ev hi w0 w"
    and "\<And>a w'. okay ev hi w0 w' \<Longrightarrow> hi w \<subseteq> hi w' \<Longrightarrow> Q a w'"
  shows "wp m Q w"
proof (rule quiet_wp[OF assms(1)])
  fix a w' assume t: "trace ev hi w [] w'"
  show "Q a w'" using assms(3)[OF okay_trace[OF assms(2) t]] t by (simp add: trace_def)
qed

context clock
begin

lemma Now_okay:
  assumes "okay ev hi w0 w" and "\<And>t w'. okay ev hi w0 w' \<Longrightarrow> hi w \<subseteq> hi w' \<Longrightarrow> Q t w'"
  shows "wp Now Q w"
proof (rule Now_wp[OF trace_refl])
  fix t w' assume t: "trace ev hi w ([] @ [ClockRead t]) w'" and "hi w \<subseteq> hi w'"
  then show "Q t w'" using assms(2)[OF okay_trace[OF assms(1) t]] by simp
qed

lemma GenerateToken_okay:
  assumes "okay ev hi w0 w" and "\<And>t w'. okay ev hi w0 w' \<Longrightarrow> hi w \<subseteq> hi w' \<Longrightarrow> Q t w'"
  shows "wp (GenerateToken J Now tm ns rec owner ttl) Q w"
  unfolding GenerateToken_def wp_bind wp_return by (rule Now_okay[OF assms(1)]) (rule assms(2))

end

context notifying
begin

lemma sendTo_okay:
  assumes "okay ev hi w0 w" and "set gs \<subseteq> set fs"
    and "\<And>errs w'. okay ev hi w0 w' \<Longrightarrow> hi w \<subseteq> hi w' \<Longrightarrow> Q errs w'"
  shows "wp (sendTo gs n exclude) Q w"
  by (rule sendTo_wp[OF trace_refl assms(2)], rule assms(3))
     (auto intro!: okay_trace[OF assms(1)] elim!: list.pred_mono_strong)

end

context vm_api
begin

lemma dynPatch_okay:
  assumes "okay ev hi w0 w" and "\<And>r w'. okay ev hi w0 w' \<Longrightarrow> hi w \<subseteq> hi w' \<Longrightarrow> Q r w'"
  shows "wp (dynPatch D ns n patch subs) Q w"
  by (rule dynPatch_wp[OF trace_refl]; rule assms(2)) (auto intro!: okay_trace[OF assms(1)])

end

context recommendation_store
begin

lemma getRec_okay:
  assumes "okay ev hi w0 w"
    and "\<And>e w'. okay ev hi w0 w' \<Longrightarrow> hi w \<subseteq> hi w' \<Longrightarrow> Q (Inl e) w'"
    and "\<And>x w'. okay ev hi w0 w' \<Longrightarrow> hi w \<subseteq> hi w' \<Longrightarrow> x \<in> hi w' \<Longrightarrow> Namespace x = ns \<Longrightarrow>
      Name x = n \<Longrightarrow> Q (Inr x) w'"
  shows "wp (getRec C ns n) Q w"
  by (rule getRec_wp[OF trace_refl]) (auto intro!: assms(2,3) okay_trace[OF assms(1)])

lemma updateRecStatus_okay:
  assumes "okay ev hi w0 w" and "old \<in> hi w" and "recKey x = recKey old"
    and "ResourceVersion x = ResourceVersion old"
    and "status_step (Spec old) (Status old) (Status x)"
    and "\<And>e w'. okay ev hi w0 w' \<Longrightarrow> hi w \<subseteq> hi w' \<Longrightarrow> Q (Inl e) w'"
    and "\<And>new w'. okay ev hi w0 w' \<Longrightarrow> hi w \<subseteq> hi w' \<Longrightarrow> new \<in> hi w' \<Longrightarrow> recKey new = recKey old \<Longrightarrow>
      Spec new = Spec old \<Longrightarrow> Status new = serStatus (Status x) \<Longrightarrow> Q (Inr new) w'"
  shows "wp (updateRecStatus C x) Q w"
proof (rule updateRecStatus_wp[OF trace_refl assms(2-4)], goal_cases)
  case (1 e w')
  then show ?case using assms(6) okay_trace[OF assms(1) 1(1)] by simp
next
  case (2 new r w')
  have "allowed (RecStatusUpdated old new)" using 2 by (intro allowed_statusI[OF assms(5)]) auto
  then have "okay ev hi w0 w'" using okay_trace[OF assms(1) 2(1)] by (simp del: allowed.simps(3))
  then show ?case using 2 assms(6,7) by (cases r) auto
qed

lemma updateRec_okay:
  assumes "okay ev hi w0 w" and "old \<in> hi w" and "recKey x = recKey old"
    and "ResourceVersion x = ResourceVersion old" and "\<not> activeState (recState old)"
    and "VirtualMachineRef (Spec x) = VirtualMachineRef (Spec old)"
    and "Current (Spec x) = Current (Spec old)" and "HotplugCapable (Spec x) = HotplugCapable (Spec old)"
    and "\<And>e w'. okay ev hi w0 w' \<Longrightarrow> hi w \<subseteq> hi w' \<Longrightarrow> Q (Inl e) w'"
    and "\<And>new w'. okay ev hi w0 w' \<Longrightarrow> hi w \<subseteq> hi w' \<Longrightarrow> new \<in> hi w' \<Longrightarrow> recKey new = recKey old \<Longrightarrow>
      Spec new = Spec x \<Longrightarrow> Status new = Status old \<Longrightarrow> Q (Inr new) w'"
  shows "wp (updateRec C x) Q w"
proof (rule updateRec_wp[OF trace_refl assms(2-4)], goal_cases)
  case (1 e w')
  then show ?case using assms(9) okay_trace[OF assms(1) 1(1)] by simp
next
  case (2 new r w')
  have "allowed (RecUpdated old new)" using 2 assms(5-8) by simp
  then have "okay ev hi w0 w'" using okay_trace[OF assms(1) 2(1)] by (simp del: allowed.simps(2))
  then show ?case using 2 assms(9,10) by (cases r) auto
qed

lemma createRec_okay:
  assumes "okay ev hi w0 w"
    and "Name x = ''vm-'' @ RefName (VirtualMachineRef (Spec x))"
    and "Namespace x = RefNamespace (VirtualMachineRef (Spec x))" and "\<not> HotplugCapable (Spec x)"
    and "\<And>e w'. okay ev hi w0 w' \<Longrightarrow> hi w \<subseteq> hi w' \<Longrightarrow> Q (Inl e) w'"
    and "\<And>new w'. okay ev hi w0 w' \<Longrightarrow> hi w \<subseteq> hi w' \<Longrightarrow> new \<in> hi w' \<Longrightarrow> recKey new = recKey x \<Longrightarrow>
      Spec new = Spec x \<Longrightarrow> Status new = emptyStatus \<Longrightarrow> Q (Inr new) w'"
  shows "wp (createRec C x) Q w"
proof (rule createRec_wp[OF trace_refl], goal_cases)
  case (1 e w')
  then show ?case using assms(5) okay_trace[OF assms(1) 1(1)] by simp
next
  case (2 new r w')
  have "allowed (RecCreated new)" using 2 assms(2-4) by simp
  then have "okay ev hi w0 w'" using okay_trace[OF assms(1) 2(1)] by (simp del: allowed.simps(1))
  then show ?case using 2 assms(5,6) by (cases r) auto
qed

lemma deleteRec_okay:
  assumes "okay ev hi w0 w" and "\<And>r w'. okay ev hi w0 w' \<Longrightarrow> hi w \<subseteq> hi w' \<Longrightarrow> Q r w'"
  shows "wp (deleteRec C x) Q w"
  by (rule deleteRec_wp[OF trace_refl]) (auto intro!: assms(2) okay_trace[OF assms(1)])

end

section \<open>Symbolic execution up to writes of a given kind\<close>

text \<open>\<open>emitted P w0 w\<close>: from \<open>w0\<close> to \<open>w\<close> only events that satisfy \<open>P\<close> were logged.\<close>

definition emitted :: "('w \<Rightarrow> 'q event list) \<Rightarrow> ('w \<Rightarrow> 'q recommendation set) \<Rightarrow> ('q event \<Rightarrow> bool) \<Rightarrow> 'w \<Rightarrow> 'w \<Rightarrow> bool" where
  "emitted ev hi P w0 w \<longleftrightarrow> (\<exists>es. trace ev hi w0 es w \<and> list_all P es)"

lemma emitted_refl: "emitted ev hi P w w"
  by (auto simp: emitted_def intro!: exI[of _ "[]"])

lemma emitted_trace: "emitted ev hi P w0 w1 \<Longrightarrow> trace ev hi w1 es w2 \<Longrightarrow> list_all P es \<Longrightarrow> emitted ev hi P w0 w2"
  unfolding emitted_def by (metis trace_trans list_all_append)

lemma emitted_quiet_wp:
  assumes "quiet ev hi m" and "emitted ev hi P w0 w"
    and "\<And>a w'. emitted ev hi P w0 w' \<Longrightarrow> hi w \<subseteq> hi w' \<Longrightarrow> Q a w'"
  shows "wp m Q w"
proof (rule quiet_wp[OF assms(1)])
  fix a w' assume t: "trace ev hi w [] w'"
  show "Q a w'" using assms(3)[OF emitted_trace[OF assms(2) t]] t by (simp add: trace_def)
qed

context clock
begin

lemma Now_emitted:
  assumes "emitted ev hi P w0 w" and "\<And>t. P (ClockRead t)"
    and "\<And>t w'. emitted ev hi P w0 w' \<Longrightarrow> hi w \<subseteq> hi w' \<Longrightarrow> Q t w'"
  shows "wp Now Q w"
  by (rule Now_wp[OF trace_refl], rule assms(3)) (auto intro!: emitted_trace[OF assms(1)] assms(2))

lemma GenerateToken_emitted:
  assumes "emitted ev hi P w0 w" and "\<And>t. P (ClockRead t)"
    and "\<And>t w'. emitted ev hi P w0 w' \<Longrightarrow> hi w \<subseteq> hi w' \<Longrightarrow> Q t w'"
  shows "wp (GenerateToken J Now tm ns rec owner ttl) Q w"
  unfolding GenerateToken_def wp_bind wp_return by (rule Now_emitted[OF assms(1,2)]) (rule assms(3))

end

context notifying
begin

lemma sendTo_emitted:
  assumes "emitted ev hi P w0 w" and "set gs \<subseteq> set fs" and "\<And>f. P (NotificationSent f n)"
    and "\<And>errs w'. emitted ev hi P w0 w' \<Longrightarrow> hi w \<subseteq> hi w' \<Longrightarrow> Q errs w'"
  shows "wp (sendTo gs n exclude) Q w"
  by (rule sendTo_wp[OF trace_refl assms(2)], rule assms(4))
     (auto intro!: emitted_trace[OF assms(1)] simp: assms(3) elim!: list.pred_mono_strong)

end

context vm_api
begin

lemma dynPatch_emitted:
  assumes "emitted ev hi P w0 w" and "P (VMPatched ns n patch subs)"
    and "\<And>r w'. emitted ev hi P w0 w' \<Longrightarrow> hi w \<subseteq> hi w' \<Longrightarrow> Q r w'"
  shows "wp (dynPatch D ns n patch subs) Q w"
  by (rule dynPatch_wp[OF trace_refl]; rule assms(3)) (auto intro!: emitted_trace[OF assms(1)] assms(2))

end

context recommendation_store
begin

lemma getRec_emitted:
  assumes "emitted ev hi P w0 w"
    and "\<And>e w'. emitted ev hi P w0 w' \<Longrightarrow> hi w \<subseteq> hi w' \<Longrightarrow> Q (Inl e) w'"
    and "\<And>x w'. emitted ev hi P w0 w' \<Longrightarrow> hi w \<subseteq> hi w' \<Longrightarrow> x \<in> hi w' \<Longrightarrow> Namespace x = ns \<Longrightarrow>
      Name x = n \<Longrightarrow> Q (Inr x) w'"
  shows "wp (getRec C ns n) Q w"
  by (rule getRec_wp[OF trace_refl]) (auto intro!: assms(2,3) emitted_trace[OF assms(1)])

lemma updateRecStatus_emitted:
  assumes "emitted ev hi P w0 w" and "old \<in> hi w" and "recKey x = recKey old"
    and "ResourceVersion x = ResourceVersion old"
    and "\<And>new. recKey new = recKey old \<Longrightarrow> Spec new = Spec old \<Longrightarrow> Status new = serStatus (Status x) \<Longrightarrow>
      P (RecStatusUpdated old new)"
    and "\<And>r w'. emitted ev hi P w0 w' \<Longrightarrow> hi w \<subseteq> hi w' \<Longrightarrow> Q r w'"
  shows "wp (updateRecStatus C x) Q w"
  by (rule updateRecStatus_wp[OF trace_refl assms(2-4)]; rule assms(6))
     (auto intro!: emitted_trace[OF assms(1)] assms(5))

lemma updatePolicy_emitted:
  assumes "emitted ev hi P w0 w" and "P (PolicyUpdated p)"
    and "\<And>r w'. emitted ev hi P w0 w' \<Longrightarrow> hi w \<subseteq> hi w' \<Longrightarrow> Q r w'"
  shows "wp (updatePolicy C p) Q w"
  by (rule updatePolicy_wp[OF trace_refl]; rule assms(3)) (auto intro!: emitted_trace[OF assms(1)] assms(2))

end

section \<open>A sample recommendation in the cluster in memory\<close>

definition memLib :: "(memWorld, json, int) lib" where
  "memLib = \<lparr>Oor = (\<lambda>_. - (2 ^ 31)), Quantities = memQuantities, Unstructured = memUnstructured, Jwt = memJwt, Now = memNow\<rparr>"

definition memApplier :: "(memWorld, json) Applier" where
  "memApplier = \<lparr>dynamicClient = memDynamic\<rparr>"

definition sampleSpec :: "int RightsizingRecommendationSpec" where
  "sampleSpec = \<lparr>VirtualMachineRef = \<lparr>RefName = ''web'', RefNamespace = ''prod''\<rparr>,
     Direction = DirectionDownsize,
     Current = \<lparr>CPU = \<lparr>Cores = 8, Sockets = 1, Threads = 1\<rparr>, Memory = 16 * 2 ^ 30\<rparr>,
     Recommended = \<lparr>CPU = \<lparr>Cores = 4, Sockets = 1, Threads = 1\<rparr>, Memory = 8 * 2 ^ 30\<rparr>,
     Savings = \<lparr>SavingsCPU = 4, SavingsMemory = 8 * 2 ^ 30\<rparr>,
     Metrics = \<lparr>SnapLookbackDays = 30, CPUP95Percent = Fin 25, MemoryP95Percent = Fin 25,
       CPUMaxPercent = Fin 50, MemoryMaxPercent = Fin 50\<rparr>,
     HotplugCapable = False, Reason = []\<rparr>"

text \<open>The VM \<open>prod/web\<close> with the recommendation \<open>vm-web\<close> in the given status.\<close>

definition sampleWorld :: "int RightsizingRecommendationStatus \<Rightarrow> memWorld" where
  "sampleWorld st = emptyWorld\<lparr>
     wHist := [(((''prod'', ''vm-web''), 1), (sampleSpec, st))],
     wCur := [((''prod'', ''vm-web''), 1)],
     wVMs := [((''prod'', ''web''), vmDoc ''prod'' ''web'' [] [] 8 ''16Gi'' 0)],
     wNamespaces := [(''prod'', [])],
     wNow := 1000 * Second\<rparr>"

lemma memLib_simps [simp]: "Quantities memLib = memQuantities" "Unstructured memLib = memUnstructured"
  "Jwt memLib = memJwt" "Oor memLib = (\<lambda>_. - (2 ^ 31))" "Now memLib = memNow" "dynamicClient memApplier = memDynamic"
  by (simp_all add: memLib_def memApplier_def)

definition pendingStatus :: "int RightsizingRecommendationStatus" where
  "pendingStatus = emptyStatus\<lparr>State := StatePending\<rparr>"

abbreviation sampleRec :: "int RightsizingRecommendationStatus \<Rightarrow> int recommendation" where
  "sampleRec st \<equiv> memRec (''prod'', ''vm-web'') 1 sampleSpec st"

definition ownedWorld :: "int RightsizingRecommendationStatus \<Rightarrow> memWorld" where
  "ownedWorld st = (sampleWorld st)\<lparr>wNamespaces := [(''prod'', [(LabelOwner, ''alice'')])]\<rparr>"

lemma sampleRec_stored [simp]: "sampleRec st \<in> memHist (sampleWorld st)" "sampleRec st \<in> memHist (ownedWorld st)"
  by (simp_all add: memHist_def memRec_def sampleWorld_def ownedWorld_def)

text \<open>The facts by which the simplifier runs code in the cluster in memory.\<close>

lemmas mem_run = mem_defs memUpdate_def memStore_def memLookup_def memRec_def newRV_def Let_def
  memUnstructured_def jsonStrings_def jsonStr_def field_def vmDoc_def
  sampleWorld_def emptyWorld_def

end
