(* ===== verification/Go_Time.thy ===== *)
theory Go_Time
  imports API_Types
begin

text \<open>
  The part of Go's package \<open>time\<close> that the sources use on dates: \<open>time.Parse\<close> with the layouts
  \<open>time.RFC3339\<close> and \<open>2006-01-02T15:04\<close>, and \<open>Format(time.RFC3339)\<close> of a UTC time.

  \<open>Parse\<close> reads the hour with one or two digits, accepts a fraction of a second after a period
  or comma although the layout has none, and checks the ranges of all fields; a time is in
  nanoseconds since the epoch.
\<close>

section \<open>The calendar\<close>

definition isLeap :: "int \<Rightarrow> bool" where
  "isLeap y \<longleftrightarrow> 4 dvd y \<and> (\<not> 100 dvd y \<or> 400 dvd y)"

definition daysIn :: "nat \<Rightarrow> int \<Rightarrow> nat" where
  "daysIn m y = (if m = 2 then (if isLeap y then 29 else 28)
     else if m \<in> {4, 6, 9, 11} then 30 else 31)"

definition daysBefore :: "nat \<Rightarrow> int \<Rightarrow> int" where
  "daysBefore m y = [0, 31, 59, 90, 120, 151, 181, 212, 243, 273, 304, 334] ! (m - 1) +
     (if 2 < m \<and> isLeap y then 1 else 0)"

text \<open>Days from 1970-01-01, which is 719162 days after 0001-01-01.\<close>

definition daysSinceEpoch :: "int \<Rightarrow> nat \<Rightarrow> nat \<Rightarrow> int" where
  "daysSinceEpoch y m d = (let p = y - 1 in
     365 * p + p div 4 - p div 100 + p div 400 + daysBefore m y + (int d - 1) - 719162)"

section \<open>Parsing\<close>

definition getnum :: "bool \<Rightarrow> string \<Rightarrow> (nat \<times> string) option" where
  "getnum fixed s = (case s of
      [] \<Rightarrow> None
    | a # t \<Rightarrow>
        if \<not> is_digit a then None
        else (case t of
            [] \<Rightarrow> if fixed then None else Some (digit_val a, t)
          | b # u \<Rightarrow> if is_digit b then Some (10 * digit_val a + digit_val b, u)
              else if fixed then None else Some (digit_val a, t)))"

definition lit :: "char \<Rightarrow> string \<Rightarrow> string option" where
  "lit c s = (case s of [] \<Rightarrow> None | x # t \<Rightarrow> if x = c then Some t else None)"

definition year4 :: "string \<Rightarrow> (int \<times> string) option" where
  "year4 s = do {
     (a, t) \<leftarrow> getnum True s;
     (b, u) \<leftarrow> getnum True t;
     Some (int (100 * a + b), u)
   }"

type_synonym minute_time = "int \<times> nat \<times> nat \<times> nat \<times> nat"

definition dateToMinute :: "string \<Rightarrow> (minute_time \<times> string) option" where
  "dateToMinute s = do {
     (y, s) \<leftarrow> year4 s;
     s \<leftarrow> lit (CHR ''-'') s;
     (m, s) \<leftarrow> getnum True s;
     s \<leftarrow> lit (CHR ''-'') s;
     (d, s) \<leftarrow> getnum True s;
     s \<leftarrow> lit (CHR ''T'') s;
     (h, s) \<leftarrow> getnum False s;
     s \<leftarrow> lit (CHR '':'') s;
     (mi, s) \<leftarrow> getnum True s;
     if 1 \<le> m \<and> m \<le> 12 \<and> 1 \<le> d \<and> d \<le> daysIn m y \<and> h < 24 \<and> mi < 60
     then Some ((y, m, d, h, mi), s) else None
   }"

text \<open>A fraction of a second: at most nine digits count, the others are skipped.\<close>

definition fraction :: "string \<Rightarrow> nat \<times> string" where
  "fraction s = (case s of
      c # d # t \<Rightarrow> if (c = CHR ''.'' \<or> c = CHR '','') \<and> is_digit d
        then (let ds = takeWhile is_digit (d # t); k = take 9 ds in
          (fst (read_digits 0 k) * 10 ^ (9 - length k), dropWhile is_digit (d # t)))
        else (0, s)
    | _ \<Rightarrow> (0, s))"

definition zone :: "string \<Rightarrow> (int \<times> string) option" where
  "zone s = (case s of
      [] \<Rightarrow> None
    | c # t \<Rightarrow>
        if c = CHR ''Z'' then Some (0, t)
        else if c = CHR ''+'' \<or> c = CHR ''-'' then do {
          (h, t) \<leftarrow> getnum True t;
          t \<leftarrow> lit (CHR '':'') t;
          (m, t) \<leftarrow> getnum True t;
          if h \<le> 24 \<and> m \<le> 60
          then Some ((if c = CHR ''-'' then -1 else 1) * int ((h * 60 + m) * 60), t) else None
        } else None)"

definition unixNano :: "minute_time \<Rightarrow> nat \<Rightarrow> nat \<Rightarrow> int \<Rightarrow> time" where
  "unixNano mt sec nsec offset = (case mt of (y, m, d, h, mi) \<Rightarrow>
     (((daysSinceEpoch y m d * 24 + int h) * 60 + int mi) * 60 + int sec - offset) * Second + int nsec)"

definition ParseRFC3339 :: "string \<Rightarrow> time option" where
  "ParseRFC3339 s = do {
     (mt, s) \<leftarrow> dateToMinute s;
     s \<leftarrow> lit (CHR '':'') s;
     (sec, s) \<leftarrow> getnum True s;
     if 60 \<le> sec then None
     else (case fraction s of (nsec, s) \<Rightarrow> do {
       (offset, s) \<leftarrow> zone s;
       if s = [] then Some (unixNano mt sec nsec offset) else None
     })
   }"

text \<open>The layout of an HTML \<open>datetime-local\<close> input.\<close>

definition ParseMinute :: "string \<Rightarrow> minute_time option" where
  "ParseMinute s = do { (mt, s) \<leftarrow> dateToMinute s; if s = [] then Some mt else None }"

section \<open>Formatting\<close>

definition pad2 :: "nat \<Rightarrow> string" where
  "pad2 n = [char_of (48 + n div 10 mod 10), char_of (48 + n mod 10)]"

text \<open>\<open>t.UTC().Format(time.RFC3339)\<close> of a time that has whole minutes: the fields of the date and
  \<open>:00Z\<close>.\<close>

definition FormatRFC3339 :: "minute_time \<Rightarrow> string" where
  "FormatRFC3339 mt = (case mt of (y, m, d, h, mi) \<Rightarrow>
     pad2 (nat y div 100) @ pad2 (nat y mod 100) @ ''-'' @ pad2 m @ ''-'' @ pad2 d @ ''T'' @ pad2 h @ '':'' @
     pad2 mi @ '':00Z'')"

section \<open>Lemmas\<close>

lemma getnum_pad2 [simp]: "n < 100 \<Longrightarrow> getnum fixed (pad2 n @ s) = Some (n, s)"
proof -
  assume "n < 100"
  then have "n div 10 < 10" by simp
  then show ?thesis by (simp add: getnum_def pad2_def)
qed

lemma lit_Cons [simp]: "lit c (c # s) = Some s"
  by (simp add: lit_def)

lemma getnum_bound: "getnum fixed s = Some (n, t) \<Longrightarrow> n < 100"
  by (auto simp: getnum_def digit_val_def is_digit_def split: list.splits if_splits)

lemma dateToMinute_range:
  assumes "dateToMinute s = Some ((y, m, d, h, mi), t)"
  shows "0 \<le> y \<and> y < 10000 \<and> 1 \<le> m \<and> m \<le> 12 \<and> 1 \<le> d \<and> d \<le> daysIn m y \<and> h < 24 \<and> mi < 60"
proof -
  obtain s' where "year4 s = Some (y, s')" and
    r: "1 \<le> m \<and> m \<le> 12 \<and> 1 \<le> d \<and> d \<le> daysIn m y \<and> h < 24 \<and> mi < 60"
    using assms by (auto simp: dateToMinute_def split: Option.bind_splits if_splits)
  then have "0 \<le> y \<and> y < 10000"
    by (auto simp: year4_def split: Option.bind_splits dest!: getnum_bound)
  then show ?thesis using r by simp
qed

lemma year4_pad:
  assumes "0 \<le> y" "y < 10000"
  shows "year4 (pad2 (nat y div 100) @ pad2 (nat y mod 100) @ t) = Some (y, t)"
proof -
  define a b where "a = nat y div 100" and "b = nat y mod 100"
  have "a < 100" "b < 100" "int (100 * a + b) = y" using assms by (auto simp: a_def b_def)
  then show ?thesis unfolding a_def[symmetric] b_def[symmetric] by (simp add: year4_def)
qed

lemma Parse_Format:
  assumes "ParseMinute s = Some mt"
  shows "ParseRFC3339 (FormatRFC3339 mt) = Some (unixNano mt 0 0 0)"
proof -
  obtain y m d h mi where mt: "mt = (y, m, d, h, mi)" by (cases mt) auto
  have r: "0 \<le> y \<and> y < 10000 \<and> 1 \<le> m \<and> m \<le> 12 \<and> 1 \<le> d \<and> d \<le> daysIn m y \<and> h < 24 \<and> mi < 60"
    using assms dateToMinute_range[of s y m d h mi]
    by (auto simp: ParseMinute_def mt split: Option.bind_splits if_splits)
  have "d < 100" using r by (auto simp: daysIn_def split: if_splits)
  then have "dateToMinute (FormatRFC3339 mt) = Some (mt, '':00Z'')"
    using r by (simp add: dateToMinute_def FormatRFC3339_def mt year4_pad)
  moreover have "getnum True ''00Z'' = Some (0, ''Z'')" by (simp add: getnum_def is_digit_def digit_val_def)
  ultimately show ?thesis
    by (simp add: ParseRFC3339_def fraction_def zone_def)
qed

end
