(* ===== verification/Go_URL.thy ===== *)
theory Go_URL
  imports Prelude
begin

text \<open>
  What the sources use of \<open>net/url\<close>: unescaping a path, the path of the URL that a request is made
  to, and the escaping of a query parameter.
\<close>

section \<open>Paths\<close>

text \<open>\<open>url.PathUnescape\<close>; a malformed escape is left as it is.\<close>

definition unhex :: "char \<Rightarrow> nat option" where
  "unhex c = (let n = (of_char c :: nat) in
     if 48 \<le> n \<and> n \<le> 57 then Some (n - 48)
     else if 97 \<le> n \<and> n \<le> 102 then Some (n - 87)
     else if 65 \<le> n \<and> n \<le> 70 then Some (n - 55)
     else None)"

fun PathUnescape :: "string \<Rightarrow> string" where
  "PathUnescape (c # d # e # s) =
    (if c = CHR ''%'' \<and> unhex d \<noteq> None \<and> unhex e \<noteq> None
     then char_of (16 * the (unhex d) + the (unhex e)) # PathUnescape s
     else c # PathUnescape (d # e # s))"
| "PathUnescape s = s"

lemma PathUnescape_Cons [simp]: "c \<noteq> CHR ''%'' \<Longrightarrow> PathUnescape (c # s) = c # PathUnescape s"
  by (cases s; cases "tl s") auto

lemma unhex_slash [simp]: "unhex (CHR ''/'') = None"
  by (simp add: unhex_def)

lemma PathUnescape_slash: "PathUnescape (s @ CHR ''/'' # t) = PathUnescape s @ CHR ''/'' # PathUnescape t"
proof (induction s rule: PathUnescape.induct, goal_cases)
  case (3 c)
  show ?case by (cases "c = CHR ''%''"; cases t) auto
next
  case (4 c d)
  show ?case by (cases "c = CHR ''%''"; cases "d = CHR ''%''"; cases t) auto
qed auto

section \<open>The address of a request\<close>

text \<open>What \<open>url.Parse\<close> and \<open>EscapedPath\<close> make of the address of a request: control characters and
  malformed escapes are errors, the fragment and the query are cut off, and a path with bytes
  that must be escaped is escaped anew.\<close>

definition isControl :: "char \<Rightarrow> bool" where
  "isControl c \<longleftrightarrow> (of_char c :: nat) < 32 \<or> (of_char c :: nat) = 127"

fun validEscapes :: "string \<Rightarrow> bool" where
  "validEscapes [] = True"
| "validEscapes (c # s) =
    (if c = CHR ''%'' then (case s of
         d # e # _ \<Rightarrow> unhex d \<noteq> None \<and> unhex e \<noteq> None
       | _ \<Rightarrow> False) \<and> validEscapes s
     else validEscapes s)"

definition isAlnum :: "char \<Rightarrow> bool" where
  "isAlnum c \<longleftrightarrow> (let n = (of_char c :: nat) in
     (48 \<le> n \<and> n \<le> 57) \<or> (65 \<le> n \<and> n \<le> 90) \<or> (97 \<le> n \<and> n \<le> 122))"

definition shouldEscape :: "char \<Rightarrow> bool" where
  "shouldEscape c \<longleftrightarrow> \<not> (isAlnum c \<or> c \<in> set ''-_.~$&+,/:;=@'')"

definition validEncoded :: "string \<Rightarrow> bool" where
  "validEncoded s \<longleftrightarrow> list_all (\<lambda>c. \<not> shouldEscape c \<or> c \<in> set ''!()*[]%'' \<or> c = CHR 0x27) s"

definition upperHex :: "nat \<Rightarrow> char" where
  "upperHex n = ''0123456789ABCDEF'' ! n"

definition PathEscape :: "string \<Rightarrow> string" where
  "PathEscape s = concat (map (\<lambda>c. if shouldEscape c
     then [CHR ''%'', upperHex (of_char c div 16), upperHex (of_char c mod 16)] else [c]) s)"

fun afterScheme :: "string \<Rightarrow> string" where
  "afterScheme [] = []"
| "afterScheme (c # s) = (if HasPrefix (c # s) ''://'' then drop 3 (c # s) else afterScheme s)"

definition NewRequestPath :: "string \<Rightarrow> string option" where
  "NewRequestPath url =
    (let whole = takeWhile (\<lambda>c. c \<noteq> CHR ''#'') url;
         fragment = drop (Suc (length whole)) url;
         path = dropWhile (\<lambda>c. c \<noteq> CHR ''/'') (afterScheme (takeWhile (\<lambda>c. c \<noteq> CHR ''?'') whole))
     in if list_ex isControl url \<or> \<not> validEscapes fragment \<or> \<not> validEscapes path then None
        else Some (if validEncoded path then path else PathEscape (PathUnescape path)))"

text \<open>A scheme and a host with nothing to escape.\<close>

definition plainBackend :: "string \<Rightarrow> bool" where
  "plainBackend url \<longleftrightarrow> (\<exists>scheme host. url = scheme @ ''://'' @ host \<and> list_all isAlnum scheme \<and>
     list_all (\<lambda>c. isAlnum c \<or> c \<in> set ''-.:'') host)"

lemma alnum_not [simp]: "isAlnum c \<Longrightarrow> c \<noteq> CHR ''/''" "isAlnum c \<Longrightarrow> c \<noteq> CHR ''%''" "isAlnum c \<Longrightarrow> c \<noteq> CHR ''#''"
  "isAlnum c \<Longrightarrow> c \<noteq> CHR ''?''" "isAlnum c \<Longrightarrow> c \<noteq> CHR '':''" "isAlnum c \<Longrightarrow> \<not> isControl c"
  by (auto simp: isAlnum_def isControl_def Let_def)

lemma PathUnescape_id: "CHR ''%'' \<notin> set s \<Longrightarrow> PathUnescape s = s"
  by (induction s) auto

lemma validEscapes_id: "CHR ''%'' \<notin> set s \<Longrightarrow> validEscapes s"
  by (induction s) auto

text \<open>Bytes that the path of a request may hold as they are.\<close>

definition pathByte :: "char \<Rightarrow> bool" where
  "pathByte c \<longleftrightarrow> isAlnum c \<or> c \<in> set ''-./''"

lemma pathByte_not: "pathByte c \<Longrightarrow> c \<noteq> CHR ''%'' \<and> c \<noteq> CHR ''#'' \<and> c \<noteq> CHR ''?'' \<and> \<not> isControl c \<and> \<not> shouldEscape c"
  by (auto simp: pathByte_def shouldEscape_def isControl_def isAlnum_def Let_def)

lemma afterScheme_skip: "list_all isAlnum s \<Longrightarrow> afterScheme (s @ ''://'' @ t) = t"
  by (induction s) auto

lemma NewRequestPath_plain:
  assumes "plainBackend url" and "list_all pathByte (CHR ''/'' # p)"
  shows "NewRequestPath (url @ CHR ''/'' # p) = Some (CHR ''/'' # p)"
proof -
  obtain scheme host where u: "url = scheme @ ''://'' @ host" "list_all isAlnum scheme"
      "list_all (\<lambda>c. isAlnum c \<or> c \<in> set ''-.:'') host"
    using assms(1) unfolding plainBackend_def by blast
  let ?all = "url @ CHR ''/'' # p"
  have ok: "c \<noteq> CHR ''#'' \<and> c \<noteq> CHR ''?'' \<and> \<not> isControl c" if "c \<in> set ?all" for c
  proof -
    have "isAlnum c \<or> c \<in> set ''-.:'' \<or> c \<in> set ''://'' \<or> pathByte c"
      using that u(2,3) assms(2) unfolding u(1) by (auto simp: list_all_iff)
    then show ?thesis using alnum_not(3,4,6)[of c] pathByte_not[of c]
      by (elim disjE) (auto simp: isControl_def isAlnum_def Let_def)
  qed
  have cut: "takeWhile (\<lambda>c. c \<noteq> CHR ''#'') ?all = ?all" "takeWhile (\<lambda>c. c \<noteq> CHR ''?'') ?all = ?all"
    using ok by (simp_all only: takeWhile_eq_all_conv) blast+
  have "afterScheme ?all = host @ CHR ''/'' # p" using afterScheme_skip[OF u(2)] by (simp add: u(1))
  moreover have "dropWhile (\<lambda>c. c \<noteq> CHR ''/'') (host @ CHR ''/'' # p) = CHR ''/'' # p"
    using u(3) by (intro dropWhile_append2[THEN trans]) (auto simp: list_all_iff isAlnum_def Let_def)
  ultimately have path: "dropWhile (\<lambda>c. c \<noteq> CHR ''/'') (afterScheme ?all) = CHR ''/'' # p" by simp
  have "validEscapes (CHR ''/'' # p)" using assms(2) pathByte_not by (intro validEscapes_id) (auto simp: list_all_iff)
  moreover have "validEncoded (CHR ''/'' # p)" using assms(2) pathByte_not by (auto simp: validEncoded_def list_all_iff)
  moreover have "\<not> list_ex isControl ?all" using ok by (auto simp: list_ex_iff)
  ultimately show ?thesis unfolding NewRequestPath_def cut Let_def path by simp
qed

section \<open>Query parameters\<close>

definition QueryEscape :: "string \<Rightarrow> string" where
  "QueryEscape s = concat (map (\<lambda>c.
     if isAlnum c \<or> c \<in> set ''-_.~'' then [c]
     else if c = CHR '' '' then ''+''
     else [CHR ''%'', upperHex (of_char c div 16), upperHex (of_char c mod 16)]) s)"

text \<open>How the server reads the parameter.\<close>

definition QueryUnescape :: "string \<Rightarrow> string" where
  "QueryUnescape s = PathUnescape (map (\<lambda>c. if c = CHR ''+'' then CHR '' '' else c) s)"

lemma unhex_upperHex [simp]: "n < 16 \<Longrightarrow> unhex (upperHex n) = Some n"
proof -
  have "\<forall>n \<in> set [0..<16]. unhex (upperHex n) = Some n" by code_simp
  then show "n < 16 \<Longrightarrow> unhex (upperHex n) = Some n" by simp
qed

lemma upperHex_not_plus [simp]: "n < 16 \<Longrightarrow> upperHex n \<noteq> CHR ''+''"
proof -
  have "\<forall>n \<in> set [0..<16]. upperHex n \<noteq> CHR ''+''" by code_simp
  then show "n < 16 \<Longrightarrow> upperHex n \<noteq> CHR ''+''" by simp
qed

lemma char_hex: "(of_char c :: nat) div 16 < 16" "(of_char c :: nat) mod 16 < 16"
  "char_of (16 * ((of_char c :: nat) div 16) + of_char c mod 16) = c"
  using of_char_mod_256[of c] by (simp_all add: less_mult_imp_div_less)

lemma QueryUnescape_Escape [simp]: "QueryUnescape (QueryEscape s) = s"
proof (induction s)
  case (Cons c s)
  have plus: "isAlnum c \<or> c \<in> set ''-_.~'' \<Longrightarrow> c \<noteq> CHR ''+'' \<and> c \<noteq> CHR ''%''"
    by (auto simp: isAlnum_def Let_def)
  consider "isAlnum c \<or> c \<in> set ''-_.~''" | "\<not> (isAlnum c \<or> c \<in> set ''-_.~'')" "c = CHR '' ''" |
    "\<not> (isAlnum c \<or> c \<in> set ''-_.~'')" "c \<noteq> CHR '' ''" by blast
  then show ?case
  proof cases
    case 1
    then have "QueryUnescape (QueryEscape (c # s)) = c # QueryUnescape (QueryEscape s)"
      using plus by (simp add: QueryEscape_def QueryUnescape_def)
    with Cons show ?thesis by simp
  next
    case 2
    then show ?thesis using Cons by (simp add: QueryEscape_def QueryUnescape_def isAlnum_def)
  next
    case 3
    then have "QueryEscape (c # s) = CHR ''%'' # upperHex (of_char c div 16) # upperHex (of_char c mod 16) # QueryEscape s"
      by (auto simp: QueryEscape_def)
    then show ?thesis using Cons char_hex[of c] by (simp add: QueryUnescape_def)
  qed
qed (simp add: QueryEscape_def QueryUnescape_def)

lemma QueryEscape_bytes: "c \<in> set (QueryEscape s) \<Longrightarrow> c \<noteq> CHR ''&'' \<and> c \<noteq> CHR ''#'' \<and> \<not> isControl c"
proof -
  have hex: "upperHex n \<noteq> CHR ''&'' \<and> upperHex n \<noteq> CHR ''#'' \<and> \<not> isControl (upperHex n)" if "n < 16" for n
  proof -
    have "\<forall>n \<in> set [0..<16]. upperHex n \<noteq> CHR ''&'' \<and> upperHex n \<noteq> CHR ''#'' \<and> \<not> isControl (upperHex n)" by code_simp
    then show ?thesis using that by simp
  qed
  assume "c \<in> set (QueryEscape s)"
  then obtain d where "c \<in> set (if isAlnum d \<or> d \<in> set ''-_.~'' then [d] else if d = CHR '' '' then ''+''
      else [CHR ''%'', upperHex (of_char d div 16), upperHex (of_char d mod 16)])"
    by (simp only: QueryEscape_def set_concat set_map) blast
  then consider "isAlnum c" | "c \<in> set ''-_.~+%''" |
    "c = upperHex (of_char d div 16)" | "c = upperHex (of_char d mod 16)"
    by (auto split: if_splits)
  then show "c \<noteq> CHR ''&'' \<and> c \<noteq> CHR ''#'' \<and> \<not> isControl c"
    using hex[OF char_hex(1)[of d]] hex[OF char_hex(2)[of d]]
    by cases (auto simp: isAlnum_def isControl_def Let_def)
qed

lemma NewRequestPath_query:
  assumes "CHR ''#'' \<notin> set (u @ e)" "CHR ''?'' \<notin> set u" and "\<not> list_ex isControl e"
  shows "NewRequestPath (u @ CHR ''?'' # e) = NewRequestPath u"
proof -
  have "takeWhile (\<lambda>c. c \<noteq> CHR ''#'') (u @ CHR ''?'' # e) = u @ CHR ''?'' # e" "takeWhile (\<lambda>c. c \<noteq> CHR ''#'') u = u"
    using assms(1) by (auto simp: takeWhile_eq_all_conv)
  moreover have "takeWhile (\<lambda>c. c \<noteq> CHR ''?'') (u @ CHR ''?'' # e) = u" "takeWhile (\<lambda>c. c \<noteq> CHR ''?'') u = u"
    using assms(2) by (auto simp: takeWhile_eq_all_conv takeWhile_append)
  moreover have "\<not> isControl (CHR ''?'')" by code_simp
  ultimately show ?thesis using assms(3) by (simp only: NewRequestPath_def Let_def) simp
qed

lemma plainBackend_bytes:
  assumes "plainBackend url"
  shows "CHR ''#'' \<notin> set url" "CHR ''?'' \<notin> set url"
proof -
  have "isAlnum c \<or> c \<in> set ''-.:/''" if "c \<in> set url" for c
    using assms that by (auto simp: plainBackend_def list_all_iff)
  from this[of "CHR ''#''"] this[of "CHR ''?''"] show "CHR ''#'' \<notin> set url" "CHR ''?'' \<notin> set url"
    by (auto simp: isAlnum_def)
qed

end
