(* ===== verification/Http.thy ===== *)
theory Http
  imports Workflow Go_Time Go_URL
begin

text \<open>
  Requests and responses of the HTTP servers, and \<open>json.Decode\<close> into the structs they read.

  \<^item> A request carries what the sources ask of it: the method, the path in its escaped form, the query and
    header lookups (the empty string for an absent one, as \<open>Get\<close> returns it), the body as the
    JSON value it holds (\<open>None\<close>: no JSON, or larger than the limit of one megabyte), the form as
    \<open>FormValue\<close> reads it (\<open>None\<close>: it does not parse), the two
    path values of the matched pattern, and the user that the middleware put into the context.
  \<^item> A response is its status code with what is written to it; \<open>Panicking\<close> is a handler that
    panics on a nil pointer (the server drops the connection).
  \<^item> Keys of a JSON object match the fields of a struct up to case, the last one counts,
    \<open>null\<close> leaves a field as it is, and a value of the wrong type is an error.
\<close>

record Request =
  Method :: string
  EscapedPath :: string
  Query :: "string \<Rightarrow> string"
  Header :: "string \<Rightarrow> string"
  Body :: "json option"
  Form :: "(string \<Rightarrow> string) option"
  PathNamespace :: string
  PathName :: string
  ContextUser :: "UserInfo option"

record VMListItem =
  ItemName :: string
  ItemNamespace :: string
  Excluded :: bool
  Running :: bool
  CPUCores :: int
  ItemMemory :: string

record OverviewResponse =
  TotalVMs :: int
  DownsizeCandidates :: int
  UpsizeNeeded :: int
  AppliedToday :: int
  TotalCPUSavings :: int
  TotalMemorySavings :: int

datatype 'q content =
    Text string
  | RecJSON "'q recommendation"
  | RecsJSON "'q recommendation list"
  | VMsJSON "VMListItem list"
  | OverviewJSON OverviewResponse
  | PolicyJSON "'q RightsizingPolicy"
  | FieldsJSON "(string \<times> string) list"

datatype 'q Response = Response (code: nat) (content: "'q content") | Panicking

section \<open>Decoding\<close>

text \<open>\<open>decodeObject upd j acc\<close> runs over the members of an object; \<open>upd\<close> gets the key in lower
  case and ignores unknown ones.\<close>

fun decodeMembers :: "(string \<Rightarrow> json \<Rightarrow> 'a \<Rightarrow> 'a option) \<Rightarrow> (string \<times> json) list \<Rightarrow> 'a \<Rightarrow> 'a option" where
  "decodeMembers upd [] acc = Some acc"
| "decodeMembers upd ((k, v) # kvs) acc =
    (case upd (ToLower k) v acc of None \<Rightarrow> None | Some acc' \<Rightarrow> decodeMembers upd kvs acc')"

definition decodeObject :: "(string \<Rightarrow> json \<Rightarrow> 'a \<Rightarrow> 'a option) \<Rightarrow> json \<Rightarrow> 'a \<Rightarrow> 'a option" where
  "decodeObject upd j acc = (case j of
      JNull \<Rightarrow> Some acc
    | JObj kvs \<Rightarrow> decodeMembers upd kvs acc
    | _ \<Rightarrow> None)"

definition decodeString :: "json \<Rightarrow> string \<Rightarrow> string option" where
  "decodeString j cur = (case j of JNull \<Rightarrow> Some cur | JStr s \<Rightarrow> Some s | _ \<Rightarrow> None)"

definition decodeBool :: "json \<Rightarrow> bool \<Rightarrow> bool option" where
  "decodeBool j cur = (case j of JNull \<Rightarrow> Some cur | JBool b \<Rightarrow> Some b | _ \<Rightarrow> None)"

definition decodeInt :: "(int \<Rightarrow> bool) \<Rightarrow> json \<Rightarrow> int \<Rightarrow> int option" where
  "decodeInt fits j cur = (case j of JNull \<Rightarrow> Some cur | JNum n \<Rightarrow> if fits n then Some n else None | _ \<Rightarrow> None)"

text \<open>\<open>Quantity.UnmarshalJSON\<close>: a string or a number literal; \<open>null\<close> is the zero quantity.\<close>

definition decodeQuantity :: "'q quantity_lib \<Rightarrow> json \<Rightarrow> 'q option" where
  "decodeQuantity Q j = (case j of
      JNull \<Rightarrow> Some (ZeroQuantity Q)
    | JStr s \<Rightarrow> ParseQuantity Q s
    | JNum n \<Rightarrow> ParseQuantity Q (show_int n)
    | JReal literal f \<Rightarrow> ParseQuantity Q literal
    | _ \<Rightarrow> None)"

record ApplyRequest =
  RestartOption :: string
  ScheduledAt :: string

definition setApplyRequest :: "string \<Rightarrow> json \<Rightarrow> ApplyRequest \<Rightarrow> ApplyRequest option" where
  "setApplyRequest k v r =
    (if k = ''restartoption'' then map_option (\<lambda>s. r\<lparr>RestartOption := s\<rparr>) (decodeString v (RestartOption r))
     else if k = ''scheduledat'' then map_option (\<lambda>s. r\<lparr>ScheduledAt := s\<rparr>) (decodeString v (ScheduledAt r))
     else Some r)"

definition decodeApplyRequest :: "json option \<Rightarrow> ApplyRequest option" where
  "decodeApplyRequest b = (case b of
      None \<Rightarrow> None
    | Some j \<Rightarrow> decodeObject setApplyRequest j \<lparr>RestartOption = [], ScheduledAt = []\<rparr>)"

text \<open>The anonymous structs of \<open>handleReject\<close> and \<open>handleOwnerReject\<close>.\<close>

record RejectRequest =
  RejReason :: string
  RejAction :: string

definition setRejectRequest :: "bool \<Rightarrow> string \<Rightarrow> json \<Rightarrow> RejectRequest \<Rightarrow> RejectRequest option" where
  "setRejectRequest withAction k v r =
    (if k = ''reason'' then map_option (\<lambda>s. r\<lparr>RejReason := s\<rparr>) (decodeString v (RejReason r))
     else if withAction \<and> k = ''action'' then map_option (\<lambda>s. r\<lparr>RejAction := s\<rparr>) (decodeString v (RejAction r))
     else Some r)"

definition decodeRejectRequest :: "bool \<Rightarrow> json option \<Rightarrow> RejectRequest option" where
  "decodeRejectRequest withAction b = (case b of
      None \<Rightarrow> None
    | Some j \<Rightarrow> decodeObject (setRejectRequest withAction) j \<lparr>RejReason = [], RejAction = []\<rparr>)"

definition setAlgorithm :: "string \<Rightarrow> json \<Rightarrow> AlgorithmSpec \<Rightarrow> AlgorithmSpec option" where
  "setAlgorithm k v a =
    (if k = ''percentile'' then map_option (\<lambda>n. a\<lparr>Percentile := n\<rparr>) (decodeInt is_i64 v (Percentile a))
     else if k = ''headroompercent'' then map_option (\<lambda>n. a\<lparr>HeadroomPercent := n\<rparr>) (decodeInt is_i64 v (HeadroomPercent a))
     else Some a)"

definition setThresholds :: "'q quantity_lib \<Rightarrow> string \<Rightarrow> json \<Rightarrow> 'q ThresholdsSpec \<Rightarrow> 'q ThresholdsSpec option" where
  "setThresholds Q k v t =
    (if k = ''mincpusavings'' then map_option (\<lambda>n. t\<lparr>MinCPUSavings := n\<rparr>) (decodeInt is_i32 v (MinCPUSavings t))
     else if k = ''minmemorysavings'' then map_option (\<lambda>q. t\<lparr>MinMemorySavings := q\<rparr>) (decodeQuantity Q v)
     else if k = ''upsizeutilizationpercent'' then
       map_option (\<lambda>n. t\<lparr>UpsizeUtilizationPercent := n\<rparr>) (decodeInt is_i64 v (UpsizeUtilizationPercent t))
     else Some t)"

definition setAutoMode :: "string \<Rightarrow> json \<Rightarrow> AutoModeSpec \<Rightarrow> AutoModeSpec option" where
  "setAutoMode k v a =
    (if k = ''enabled'' then map_option (\<lambda>b. a\<lparr>Enabled := b\<rparr>) (decodeBool v (Enabled a))
     else if k = ''schedule'' then map_option (\<lambda>s. a\<lparr>Schedule := s\<rparr>) (decodeString v (Schedule a))
     else Some a)"

definition setMetricsStorage :: "'q quantity_lib \<Rightarrow> string \<Rightarrow> json \<Rightarrow> 'q MetricsStorageSpec \<Rightarrow> 'q MetricsStorageSpec option" where
  "setMetricsStorage Q k v m =
    (if k = ''retentiondays'' then map_option (\<lambda>n. m\<lparr>RetentionDays := n\<rparr>) (decodeInt is_i64 v (RetentionDays m))
     else if k = ''storagesize'' then map_option (\<lambda>q. m\<lparr>StorageSize := q\<rparr>) (decodeQuantity Q v)
     else Some m)"

definition setPolicySpec :: "'q quantity_lib \<Rightarrow> string \<Rightarrow> json \<Rightarrow> 'q RightsizingPolicySpec \<Rightarrow> 'q RightsizingPolicySpec option" where
  "setPolicySpec Q k v p =
    (if k = ''lookbackdays'' then map_option (\<lambda>n. p\<lparr>LookbackDays := n\<rparr>) (decodeInt is_i64 v (LookbackDays p))
     else if k = ''algorithm'' then map_option (\<lambda>a. p\<lparr>Algorithm := a\<rparr>) (decodeObject setAlgorithm v (Algorithm p))
     else if k = ''thresholds'' then map_option (\<lambda>t. p\<lparr>Thresholds := t\<rparr>) (decodeObject (setThresholds Q) v (Thresholds p))
     else if k = ''revertretentiondays'' then
       map_option (\<lambda>n. p\<lparr>RevertRetentionDays := n\<rparr>) (decodeInt is_i64 v (RevertRetentionDays p))
     else if k = ''automode'' then map_option (\<lambda>a. p\<lparr>AutoMode := a\<rparr>) (decodeObject setAutoMode v (AutoMode p))
     else if k = ''reconcileintervalminutes'' then
       map_option (\<lambda>n. p\<lparr>ReconcileIntervalMinutes := n\<rparr>) (decodeInt is_i64 v (ReconcileIntervalMinutes p))
     else if k = ''metricsstorage'' then
       map_option (\<lambda>m. p\<lparr>MetricsStorage := m\<rparr>) (decodeObject (setMetricsStorage Q) v (MetricsStorage p))
     else Some p)"

definition zeroPolicySpec :: "'q quantity_lib \<Rightarrow> 'q RightsizingPolicySpec" where
  "zeroPolicySpec Q = \<lparr>LookbackDays = 0, Algorithm = \<lparr>Percentile = 0, HeadroomPercent = 0\<rparr>,
     Thresholds = \<lparr>MinCPUSavings = 0, MinMemorySavings = ZeroQuantity Q, UpsizeUtilizationPercent = 0\<rparr>,
     RevertRetentionDays = 0, AutoMode = \<lparr>Enabled = False, Schedule = []\<rparr>,
     ReconcileIntervalMinutes = 0, MetricsStorage = \<lparr>RetentionDays = 0, StorageSize = ZeroQuantity Q\<rparr>\<rparr>"

definition decodePolicySpec :: "'q quantity_lib \<Rightarrow> json option \<Rightarrow> 'q RightsizingPolicySpec option" where
  "decodePolicySpec Q b = (case b of
      None \<Rightarrow> None
    | Some j \<Rightarrow> decodeObject (setPolicySpec Q) j (zeroPolicySpec Q))"

end
