(* ===== verification/Go_Float.thy ===== *)
theory Go_Float
  imports Prelude Float64
begin

text \<open>
  \<open>strconv.ParseFloat(s, 64)\<close>: the grammar of Go's floating-point literals in base ten and
  sixteen, with digit separators, and the words for infinity and NaN. \<open>None\<close> is a non-nil error,
  of syntax or of range. The value is rounded once, to nearest even.
\<close>

definition isDigit :: "char \<Rightarrow> bool" where
  "isDigit c \<longleftrightarrow> 48 \<le> (of_char c :: nat) \<and> (of_char c :: nat) \<le> 57"

text \<open>The value of a digit of the base.\<close>

definition digitVal :: "bool \<Rightarrow> char \<Rightarrow> nat option" where
  "digitVal hex c = (let n = (of_char c :: nat); l = (of_char (lower_char c) :: nat) in
     if 48 \<le> n \<and> n \<le> 57 then Some (n - 48)
     else if hex \<and> 97 \<le> l \<and> l \<le> 102 then Some (l - 87) else None)"

text \<open>\<open>underscoreOK\<close>: \<open>saw\<close> is the class of the last byte.\<close>

datatype saw = Start | Digit | Underscore | Other

fun underscoreScan :: "bool \<Rightarrow> saw \<Rightarrow> string \<Rightarrow> bool" where
  "underscoreScan hex saw [] \<longleftrightarrow> saw \<noteq> Underscore"
| "underscoreScan hex saw (c # s) \<longleftrightarrow>
    (if digitVal hex c \<noteq> None then underscoreScan hex Digit s
     else if c = CHR ''_'' then saw = Digit \<and> underscoreScan hex Underscore s
     else saw \<noteq> Underscore \<and> underscoreScan hex Other s)"

definition dropSign :: "string \<Rightarrow> string" where
  "dropSign s = (case s of c # t \<Rightarrow> if c = CHR ''+'' \<or> c = CHR ''-'' then t else s | [] \<Rightarrow> [])"

definition signed :: "string \<Rightarrow> bool" where
  "signed s \<longleftrightarrow> (case s of c # t \<Rightarrow> c = CHR ''-'' | [] \<Rightarrow> False)"

definition underscoreOK :: "string \<Rightarrow> bool" where
  "underscoreOK s = (case dropSign s of
      z # x # t \<Rightarrow>
        if z = CHR ''0'' \<and> lower_char x \<in> {CHR ''b'', CHR ''o'', CHR ''x''}
        then underscoreScan (lower_char x = CHR ''x'') Digit t
        else underscoreScan False Start (z # x # t)
    | t \<Rightarrow> underscoreScan False Start t)"

text \<open>The mantissa: its digits as one integer, how many of them stand behind the point, and
  whether there are any.\<close>

fun scanMantissa :: "bool \<Rightarrow> nat \<Rightarrow> nat \<Rightarrow> bool \<Rightarrow> bool \<Rightarrow> string \<Rightarrow> nat \<times> nat \<times> bool \<times> string" where
  "scanMantissa hex m fd sawdot sawdigits [] = (m, fd, sawdigits, [])"
| "scanMantissa hex m fd sawdot sawdigits (c # s) =
    (if c = CHR ''_'' then scanMantissa hex m fd sawdot sawdigits s
     else if c = CHR ''.'' \<and> \<not> sawdot then scanMantissa hex m fd True sawdigits s
     else (case digitVal hex c of
         Some d \<Rightarrow> scanMantissa hex ((if hex then 16 else 10) * m + d) (if sawdot then Suc fd else fd) sawdot True s
       | None \<Rightarrow> (m, fd, sawdigits, c # s)))"

text \<open>The exponent stops growing at five digits.\<close>

fun scanExponent :: "nat \<Rightarrow> string \<Rightarrow> nat \<times> string" where
  "scanExponent e [] = (e, [])"
| "scanExponent e (c # s) =
    (if c = CHR ''_'' then scanExponent e s
     else (case digitVal False c of
         Some d \<Rightarrow> scanExponent (if e < 10000 then 10 * e + d else e) s
       | None \<Rightarrow> (e, c # s)))"

definition readExponent :: "bool \<Rightarrow> string \<Rightarrow> (int \<times> string) option" where
  "readExponent hex s = (case s of
      c # t \<Rightarrow>
        if lower_char c = (if hex then CHR ''p'' else CHR ''e'') then
          (case dropSign t of
             d # u \<Rightarrow> if isDigit d then (let (e, rest) = scanExponent 0 (d # u)
                 in Some (if signed t then - int e else int e, rest)) else None
           | [] \<Rightarrow> None)
        else if hex then None else Some (0, s)
    | [] \<Rightarrow> if hex then None else Some (0, []))"

definition isHexFloat :: "string \<Rightarrow> bool" where
  "isHexFloat s \<longleftrightarrow> (case s of z # x # d # t \<Rightarrow> z = CHR ''0'' \<and> lower_char x = CHR ''x'' | _ \<Rightarrow> False)"

definition readFloat :: "string \<Rightarrow> rat option" where
  "readFloat s =
    (let t = dropSign s; hex = isHexFloat t;
         (m, fd, sawdigits, rest) = scanMantissa hex 0 0 False False (if hex then drop 2 t else t)
     in if \<not> sawdigits then None
        else (case readExponent hex rest of
            None \<Rightarrow> None
          | Some (e, rest') \<Rightarrow>
              if rest' \<noteq> [] \<or> (CHR ''_'' \<in> set s \<and> \<not> underscoreOK s) then None
              else Some ((if signed s then - 1 else 1) * of_nat m *
                (if hex then 2 powi (e - 4 * int fd) else 10 powi (e - int fd)))))"

definition special :: "string \<Rightarrow> float64 option" where
  "special s =
    (if ToLower s = ''nan'' then Some NaN
     else if ToLower (dropSign s) \<in> {''inf'', ''infinity''} then Some (if signed s then NInf else PInf)
     else None)"

definition ParseFloat :: "string \<Rightarrow> float64 option" where
  "ParseFloat s = (case special s of
      Some f \<Rightarrow> Some f
    | None \<Rightarrow> (case readFloat s of
        None \<Rightarrow> None
      | Some r \<Rightarrow> (case f_of_rat r of Fin x \<Rightarrow> Some (Fin x) | _ \<Rightarrow> None)))"

lemma ParseFloat_shape:
  "ParseFloat s = Some f \<Longrightarrow> f = NaN \<or> f = PInf \<or> f = NInf \<or> (\<exists>x. f = Fin x \<and> round64 x = x)"
  by (auto simp: ParseFloat_def special_def f_of_rat_def Let_def split: option.splits if_splits float64.splits)

end
