(* ===== verification/Calculator.thy ===== *)
theory Calculator
  imports Float64
begin

text \<open>
  \<open>internal/calculator/calculator.go\<close>: the percentile of a list of samples and the sizing
  rules. The arithmetic is the float64 arithmetic of \<open>Float64\<close>, in the source's order of
  operations; the conversions to \<open>int32\<close> and \<open>int\<close> take the implementation's out-of-range
  value as the parameter \<open>oor\<close>.
\<close>

definition Downsize :: string where "Downsize = ''downsize''"
definition Upsize :: string where "Upsize = ''upsize''"

lemma calc_directions_distinct [simp]: "Downsize \<noteq> Upsize" "Upsize \<noteq> Downsize"
  by (simp_all add: Downsize_def Upsize_def)

record AnalysisInput =
  inCurrentCPUCores :: int
  inCurrentMemoryGiB :: int
  inCPUP95Percent :: float64
  inMemoryP95Percent :: float64
  inCPUMaxPercent :: float64
  inMemoryMaxPercent :: float64
  inHeadroomPercent :: int
  inMinCPUSavings :: int
  inMinMemorySavingsGiB :: int
  inUpsizeThresholdPct :: int
  inLookbackDays :: int

record AnalysisResult =
  resDirection :: string
  RecommendedCPUCores :: int
  RecommendedMemoryGiB :: int
  CPUSavings :: int
  MemorySavings :: int
  resReason :: string

section \<open>Percentiles\<close>

text \<open>\<open>None\<close> is the panic of an index outside the slice. Each operation rounds on its own, as on amd64;
  the Go compiler may fuse the last multiplication and addition on other architectures.\<close>

definition ComputePercentile ::
  "(float64 \<Rightarrow> int) \<Rightarrow> float64 list \<Rightarrow> int \<Rightarrow> float64 option" where
  "ComputePercentile oor samples percentile =
    (if samples = [] then Some (Fin 0)
     else let sorted = sort samples in
       if length sorted = 1 then index sorted 0
       else
         let rank = fmul (fdiv (f_of_int percentile) (f_of_int 100))
                         (f_of_int (int (length sorted) - 1));
             lower = f_to_i64 oor (Floor rank);
             upper = f_to_i64 oor (Ceil rank)
         in if lower = upper then index sorted lower
            else let fraction = fsub rank (f_of_int lower) in
              (case (index sorted lower, index sorted upper) of
                 (Some l, Some u) \<Rightarrow> Some (fadd l (fmul fraction (fsub u l)))
               | _ \<Rightarrow> None))"

section \<open>Sizing\<close>

text \<open>The size for a usage of \<open>p95\<close> percent of \<open>current\<close>, with headroom: lines 83 to 89 of
  \<open>analyzeDownsize\<close>, the same for CPU and memory.\<close>

definition headroomSize :: "(float64 \<Rightarrow> int) \<Rightarrow> int \<Rightarrow> int \<Rightarrow> float64 \<Rightarrow> int" where
  "headroomSize oor headroom current p95 =
    (let headroomMultiplier = fadd (f_of_int 1) (fdiv (f_of_int headroom) (f_of_int 100));
         usage = fdiv (fmul (f_of_int current) p95) (f_of_int 100)
     in f_to_i32 oor (Ceil (fmul usage headroomMultiplier)))"

definition clampDown :: "int \<Rightarrow> int \<Rightarrow> int" where
  "clampDown current recommended =
    (let r = (if recommended < 1 then 1 else recommended)
     in if r \<ge> current then current else r)"

definition analyzeDownsize ::
  "(float64 \<Rightarrow> int) \<Rightarrow> AnalysisInput \<Rightarrow> AnalysisResult option" where
  "analyzeDownsize oor inp =
    (let recommendedCPU = clampDown (inCurrentCPUCores inp)
           (headroomSize oor (inHeadroomPercent inp) (inCurrentCPUCores inp) (inCPUP95Percent inp));
         recommendedMem = clampDown (inCurrentMemoryGiB inp)
           (headroomSize oor (inHeadroomPercent inp) (inCurrentMemoryGiB inp) (inMemoryP95Percent inp));
         cpuSavings = i32 (inCurrentCPUCores inp - recommendedCPU);
         memSavings = i32 (inCurrentMemoryGiB inp - recommendedMem)
     in if cpuSavings < inMinCPUSavings inp \<or> memSavings < inMinMemorySavingsGiB inp then None
        else Some \<lparr>resDirection = Downsize,
          RecommendedCPUCores = recommendedCPU,
          RecommendedMemoryGiB = recommendedMem,
          CPUSavings = cpuSavings,
          MemorySavings = memSavings,
          resReason = ''CPU only '' @ fmt_f1 (inCPUP95Percent inp) @ ''% utilized (P95 over '' @
            show_int (inLookbackDays inp) @ ''d), can save '' @ show_int cpuSavings @ '' cores''\<rparr>)"

text \<open>The size that brings a usage of \<open>pct\<close> percent of \<open>current\<close> to 70 percent: lines 127 to
  131 of \<open>analyzeUpsize\<close>.\<close>

definition targetSize :: "(float64 \<Rightarrow> int) \<Rightarrow> int \<Rightarrow> float64 \<Rightarrow> int" where
  "targetSize oor current pct =
    (let usage = fdiv (fmul (f_of_int current) pct) (f_of_int 100)
     in f_to_i32 oor (Ceil (fdiv usage (f_of_rat (70 / 100)))))"

definition clampUp :: "int \<Rightarrow> int \<Rightarrow> int" where
  "clampUp current recommended = (if recommended \<le> current then current else recommended)"

definition upsizeReason :: "AnalysisInput \<Rightarrow> string" where
  "upsizeReason inp =
    (let threshold = f_of_int (inUpsizeThresholdPct inp);
         cpuSpike = fle threshold (inCPUMaxPercent inp) \<and> flt (inCPUP95Percent inp) threshold;
         memSpike = fle threshold (inMemoryMaxPercent inp) \<and> flt (inMemoryP95Percent inp) threshold;
         days = show_int (inLookbackDays inp)
     in if cpuSpike \<and> memSpike then
          ''CPU spikes to '' @ fmt_f1 (inCPUMaxPercent inp) @ ''% and memory spikes to '' @
          fmt_f1 (inMemoryMaxPercent inp) @ ''% (sustained P95: '' @ fmt_f1 (inCPUP95Percent inp) @
          ''%/'' @ fmt_f1 (inMemoryP95Percent inp) @ ''% over '' @ days @ ''d)''
        else if cpuSpike then
          ''CPU spikes to '' @ fmt_f1 (inCPUMaxPercent inp) @ ''% (sustained P95: '' @
          fmt_f1 (inCPUP95Percent inp) @ ''% over '' @ days @ ''d)''
        else if memSpike then
          ''Memory spikes to '' @ fmt_f1 (inMemoryMaxPercent inp) @ ''% (sustained P95: '' @
          fmt_f1 (inMemoryP95Percent inp) @ ''% over '' @ days @ ''d)''
        else
          ''CPU at '' @ fmt_f1 (inCPUP95Percent inp) @ ''% sustained utilization (P95 over '' @
          days @ ''d)'')"

definition analyzeUpsize ::
  "(float64 \<Rightarrow> int) \<Rightarrow> AnalysisInput \<Rightarrow> AnalysisResult option" where
  "analyzeUpsize oor inp =
    (let cpuPct = fMax (inCPUP95Percent inp) (inCPUMaxPercent inp);
         memPct = fMax (inMemoryP95Percent inp) (inMemoryMaxPercent inp);
         recommendedCPU = clampUp (inCurrentCPUCores inp)
           (targetSize oor (inCurrentCPUCores inp) cpuPct);
         recommendedMem = clampUp (inCurrentMemoryGiB inp)
           (targetSize oor (inCurrentMemoryGiB inp) memPct);
         cpuIncrease = i32 (recommendedCPU - inCurrentCPUCores inp);
         memIncrease = i32 (recommendedMem - inCurrentMemoryGiB inp)
     in if cpuIncrease < inMinCPUSavings inp \<and> memIncrease < inMinMemorySavingsGiB inp then None
        else Some \<lparr>resDirection = Upsize,
          RecommendedCPUCores = recommendedCPU,
          RecommendedMemoryGiB = recommendedMem,
          CPUSavings = i32 (- cpuIncrease),
          MemorySavings = i32 (- memIncrease),
          resReason = upsizeReason inp\<rparr>)"

definition upsizeNeeded :: "AnalysisInput \<Rightarrow> bool" where
  "upsizeNeeded inp =
    (let threshold = f_of_int (inUpsizeThresholdPct inp)
     in fle threshold (inCPUP95Percent inp) \<or> fle threshold (inMemoryP95Percent inp) \<or>
        fle threshold (inCPUMaxPercent inp) \<or> fle threshold (inMemoryMaxPercent inp))"

definition Analyze :: "(float64 \<Rightarrow> int) \<Rightarrow> AnalysisInput \<Rightarrow> AnalysisResult option" where
  "Analyze oor inp = (if upsizeNeeded inp then analyzeUpsize oor inp else analyzeDownsize oor inp)"

text \<open>The types of the fields: each \<open>int32\<close> is in range.\<close>

definition input_ok :: "AnalysisInput \<Rightarrow> bool" where
  "input_ok inp \<longleftrightarrow> is_i32 (inCurrentCPUCores inp) \<and> is_i32 (inCurrentMemoryGiB inp) \<and>
     is_i32 (inMinCPUSavings inp) \<and> is_i32 (inMinMemorySavingsGiB inp)"

section \<open>Bounds of the recommendations\<close>

lemma clampDown_bounds: "1 \<le> c \<Longrightarrow> 1 \<le> clampDown c r \<and> clampDown c r \<le> c"
  by (auto simp: clampDown_def)

lemma clampDown_savings:
  assumes "1 \<le> c" "is_i32 c"
  shows "i32 (c - clampDown c r) = c - clampDown c r"
  using clampDown_bounds[OF assms(1), of r] assms(2) by simp

lemma clampDown_eq: "clampDown c r = min c (max 1 r)"
  by (auto simp: clampDown_def)

lemma clampUp_ge: "c \<le> clampUp c r"
  by (auto simp: clampUp_def)

lemma is_i32_clampUp: "is_i32 c \<Longrightarrow> is_i32 r \<Longrightarrow> is_i32 (clampUp c r)"
  by (simp add: clampUp_def)

lemma is_i32_targetSize [simp]: "is_i32 (targetSize oor c p)"
  by (simp add: targetSize_def Let_def)

lemma is_i32_headroomSize [simp]: "is_i32 (headroomSize oor h c p)"
  by (simp add: headroomSize_def Let_def)

lemma Analyze_direction:
  assumes "Analyze oor inp = Some r"
  shows "resDirection r = Upsize \<and> upsizeNeeded inp \<and> analyzeUpsize oor inp = Some r \<or>
    resDirection r = Downsize \<and> \<not> upsizeNeeded inp \<and> analyzeDownsize oor inp = Some r"
  using assms
  by (auto simp: Analyze_def analyzeUpsize_def analyzeDownsize_def Let_def split: if_splits)

text \<open>The parts of a positive result, as the properties use them.\<close>

lemma analyzeDownsize_SomeD:
  assumes "analyzeDownsize oor inp = Some r"
  shows "RecommendedCPUCores r = clampDown (inCurrentCPUCores inp)
      (headroomSize oor (inHeadroomPercent inp) (inCurrentCPUCores inp) (inCPUP95Percent inp))"
    and "RecommendedMemoryGiB r = clampDown (inCurrentMemoryGiB inp)
      (headroomSize oor (inHeadroomPercent inp) (inCurrentMemoryGiB inp) (inMemoryP95Percent inp))"
    and "CPUSavings r = i32 (inCurrentCPUCores inp - RecommendedCPUCores r)"
    and "MemorySavings r = i32 (inCurrentMemoryGiB inp - RecommendedMemoryGiB r)"
    and "inMinCPUSavings inp \<le> CPUSavings r" and "inMinMemorySavingsGiB inp \<le> MemorySavings r"
  using assms by (auto simp: analyzeDownsize_def Let_def split: if_splits)

lemma analyzeUpsize_SomeD:
  assumes "analyzeUpsize oor inp = Some r"
  shows "RecommendedCPUCores r = clampUp (inCurrentCPUCores inp) (targetSize oor
      (inCurrentCPUCores inp) (fMax (inCPUP95Percent inp) (inCPUMaxPercent inp)))"
    and "RecommendedMemoryGiB r = clampUp (inCurrentMemoryGiB inp) (targetSize oor
      (inCurrentMemoryGiB inp) (fMax (inMemoryP95Percent inp) (inMemoryMaxPercent inp)))"
    and "CPUSavings r = i32 (- i32 (RecommendedCPUCores r - inCurrentCPUCores inp))"
    and "MemorySavings r = i32 (- i32 (RecommendedMemoryGiB r - inCurrentMemoryGiB inp))"
    and "inMinCPUSavings inp \<le> i32 (RecommendedCPUCores r - inCurrentCPUCores inp) \<or>
      inMinMemorySavingsGiB inp \<le> i32 (RecommendedMemoryGiB r - inCurrentMemoryGiB inp)"
  using assms by (auto simp: analyzeUpsize_def Let_def split: if_splits)

section \<open>Accuracy of the sizing arithmetic\<close>

lemma roundoff_power: "(1 + unit_roundoff) ^ n \<le> 2 ^ n"
  by (rule power_mono) (simp_all add: unit_roundoff_def)

lemma finite_below_int:
  assumes "0 \<le> x" "x \<le> of_int n" "n \<le> 2 ^ 53"
  shows "f_of_rat x = Fin (round64 x)" and "0 \<le> round64 x" and "round64 x \<le> of_int n"
proof -
  have n0: "0 \<le> n" using assms(1,2) by (metis of_int_0_le_iff order_trans)
  show lo: "0 \<le> round64 x" using assms(1) by (rule r64.rnd_nonneg)
  show hi: "round64 x \<le> of_int n" using assms n0 by (intro r64.rnd_le_int) auto
  have "of_int n < f_overflow" using int53_lt_overflow[of n] assms(3) n0 by simp
  then show "f_of_rat x = Fin (round64 x)" using lo hi by (intro f_of_rat_finite) simp
qed

text \<open>\<open>cores * pct / 100\<close> as the code computes it: two roundings.\<close>

lemma usage_bounds:
  assumes c: "0 \<le> c" "c \<le> 2 ^ 20" and p: "0 \<le> p" "p \<le> of_int (100 * k)"
    and k: "0 \<le> k" "k \<le> 2 ^ 20"
  obtains b where "fdiv (fmul (f_of_int c) (Fin p)) (f_of_int 100) = Fin b"
    and "0 \<le> b" and "b \<le> of_int (c * k)"
    and "2 * min_normal \<le> of_int c * p / 100 \<Longrightarrow>
      (1 - unit_roundoff) ^ 2 * (of_int c * p / 100) \<le> b"
    and "b \<le> (1 + unit_roundoff) ^ 2 * max (of_int c * p / 100) min_normal"
proof -
  let ?cp = "of_int c * p :: rat"
  define a where "a = round64 ?cp"
  have ck: "c * k \<le> 2 ^ 20 * 2 ^ 20" using c k by (intro mult_mono) auto
  have "0 \<le> ?cp" using c p by simp
  moreover have "?cp \<le> of_int c * of_int (100 * k)" using c p by (intro mult_left_mono) auto
  ultimately have a: "f_of_rat ?cp = Fin a" "0 \<le> a" "a \<le> of_int (100 * (c * k))"
    using finite_below_int[of ?cp "100 * (c * k)"] ck unfolding a_def by (simp_all add: mult.left_commute)
  define b where "b = round64 (a / 100)"
  have b: "f_of_rat (a / 100) = Fin b" "0 \<le> b" "b \<le> of_int (c * k)"
    using finite_below_int[of "a / 100" "c * k"] a ck unfolding b_def by simp_all
  have mn: "0 < min_normal" by (simp add: min_normal_def)
  have lower: "(1 - unit_roundoff) ^ 2 * (?cp / 100) \<le> b" if big: "2 * min_normal \<le> ?cp / 100"
  proof -
    have "min_normal \<le> ?cp" using big mn by simp
    from r64.rnd_lower[OF this \<open>0 \<le> ?cp\<close>] have a1: "(1 - unit_roundoff) * ?cp \<le> a" unfolding a_def .
    have "1 / 2 * ?cp \<le> (1 - unit_roundoff) * ?cp"
      using \<open>0 \<le> ?cp\<close> by (intro mult_right_mono) (auto simp: unit_roundoff_def)
    with a1 big have "min_normal \<le> a / 100" by simp
    from r64.rnd_chain_lower[of "a / 100" 1 "?cp / 100"] this a1 a show ?thesis unfolding b_def by (simp add: numeral_2_eq_2)
  qed
  have "a \<le> (1 + unit_roundoff) ^ Suc 0 * max ?cp min_normal" unfolding a_def using mn by (intro r64.rnd_chain_upper) auto
  also have "\<dots> \<le> (1 + unit_roundoff) ^ Suc 0 * (100 * max (?cp / 100) min_normal)"
    using mn by (intro mult_left_mono) (auto simp: unit_roundoff_def)
  finally have "a / 100 \<le> (1 + unit_roundoff) ^ Suc 0 * max (?cp / 100) min_normal" by simp
  from r64.rnd_chain_upper[OF mn this] have upper: "b \<le> (1 + unit_roundoff) ^ 2 * max (?cp / 100) min_normal"
    unfolding b_def by (simp add: numeral_2_eq_2)
  have "is_i32 c" "is_i32 100" using c by (auto simp: is_i32_def)
  then have "fdiv (fmul (f_of_int c) (Fin p)) (f_of_int 100) = Fin b" using a b by simp
  then show thesis using b lower upper that by blast
qed

text \<open>\<open>1 + headroom / 100\<close> as the code computes it.\<close>

lemma multiplier_bounds:
  assumes h: "0 \<le> h" "h \<le> 2 ^ 53" and k: "h \<le> 100 * k" "k < 2 ^ 53"
  obtains m where "fadd (f_of_int 1) (fdiv (f_of_int h) (f_of_int 100)) = Fin m"
    and "1 \<le> m" and "m \<le> of_int (k + 1)"
    and "(1 - unit_roundoff) ^ 2 * (1 + of_int h / 100) \<le> m"
    and "m \<le> (1 + unit_roundoff) ^ 2 * (1 + of_int h / 100)"
proof -
  define m0 where "m0 = round64 (of_int h / 100)"
  have "of_int h \<le> (of_int (100 * k) :: rat)" using k by (simp only: of_int_le_iff)
  then have m0: "f_of_rat (of_int h / 100) = Fin m0" "0 \<le> m0" "m0 \<le> of_int k"
    using finite_below_int[of "of_int h / 100" k] h k unfolding m0_def by simp_all
  define m where "m = round64 (1 + m0)"
  have m: "f_of_rat (1 + m0) = Fin m" "m \<le> of_int (k + 1)"
    using finite_below_int[of "1 + m0" "k + 1"] m0 k unfolding m_def by simp_all
  have "of_int 1 \<le> m" unfolding m_def using m0 by (intro r64.rnd_ge_int) simp_all
  then have m1: "1 \<le> m" by simp
  have mn: "min_normal \<le> 1 / 100" by (simp add: min_normal_def)
  have u: "0 \<le> 1 - unit_roundoff" "0 \<le> unit_roundoff" using r64.eps_lt r64.eps_pos by simp_all
  have m0_err: "(1 - unit_roundoff) * (of_int h / 100) \<le> m0 \<and> m0 \<le> (1 + unit_roundoff) * (of_int h / 100)"
  proof (cases "h = 0")
    case False
    then have "1 / 100 \<le> (of_int h / 100 :: rat)" using h by simp
    then show ?thesis unfolding m0_def using mn by (intro conjI r64.rnd_lower r64.rnd_upper) linarith+
  qed (simp add: m0_def)
  then have "(1 - unit_roundoff) * (1 + of_int h / 100) \<le> 1 + m0"
    using u by (simp add: distrib_left)
  then have "(1 - unit_roundoff) * ((1 - unit_roundoff) * (1 + of_int h / 100))
      \<le> (1 - unit_roundoff) * (1 + m0)"
    using u by (intro mult_left_mono)
  also have "\<dots> \<le> m" unfolding m_def using m0 mn by (intro r64.rnd_lower) linarith+
  finally have "(1 - unit_roundoff) ^ 2 * (1 + of_int h / 100) \<le> m"
    by (simp only: power2_eq_square mult.assoc)
  moreover have "m \<le> (1 + unit_roundoff) ^ 2 * (1 + of_int h / 100)"
  proof -
    have "m \<le> (1 + unit_roundoff) * (1 + m0)" unfolding m_def using m0 mn by (intro r64.rnd_upper) linarith+
    also have "\<dots> \<le> (1 + unit_roundoff) * ((1 + unit_roundoff) * (1 + of_int h / 100))"
      using m0_err u by (intro mult_left_mono) (auto simp: distrib_left)
    finally show ?thesis by (simp only: power2_eq_square mult.assoc)
  qed
  moreover have "fadd (f_of_int 1) (fdiv (f_of_int h) (f_of_int 100)) = Fin m" using m0 m h by (simp add: f_of_int_small)
  ultimately show thesis using that m m1 by blast
qed

text \<open>The exact need: the observed usage plus the headroom.\<close>

definition exactNeed :: "int \<Rightarrow> int \<Rightarrow> rat \<Rightarrow> rat" where
  "exactNeed headroom current p95 = of_int current * p95 / 100 * (1 + of_int headroom / 100)"

lemma headroomSize_ceiling:
  assumes c: "0 \<le> c" "c \<le> 2 ^ 20" and p: "0 \<le> p" "p \<le> 100" and h: "0 \<le> h" "h \<le> 100000"
  obtains d where "headroomSize oor h c (Fin p) = \<lceil>d\<rceil>"
    and "1 < exactNeed h c p \<Longrightarrow> (1 - unit_roundoff) ^ 5 * exactNeed h c p \<le> d"
    and "d \<le> (1 + unit_roundoff) ^ 5 * max (exactNeed h c p) (1001 * min_normal)"
proof -
  let ?cp = "of_int c * p / 100 :: rat" and ?u = "1 - unit_roundoff" and ?v = "1 + unit_roundoff"
  let ?k = "1 + of_int h / 100 :: rat"
  obtain b where b: "fdiv (fmul (f_of_int c) (Fin p)) (f_of_int 100) = Fin b" "0 \<le> b"
      "b \<le> of_int (c * 1)" "2 * min_normal \<le> ?cp \<Longrightarrow> ?u ^ 2 * ?cp \<le> b"
      "b \<le> ?v ^ 2 * max ?cp min_normal"
    using usage_bounds[of c p 1] c p by auto
  obtain m where m: "fadd (f_of_int 1) (fdiv (f_of_int h) (f_of_int 100)) = Fin m" "1 \<le> m"
      "m \<le> 1001" "?u ^ 2 * (1 + of_int h / 100) \<le> m" "m \<le> ?v ^ 2 * ?k"
    using multiplier_bounds[of h 1000] h by auto
  define d where "d = round64 (b * m)"
  have b20: "b \<le> of_int (2 ^ 20)" using b(3) c by (metis mult_1_right of_int_le_iff order_trans)
  then have "b * m \<le> of_int (2 ^ 20) * 1001" using b m by (intro mult_mono) auto
  then have d: "f_of_rat (b * m) = Fin d" "0 \<le> d" "d \<le> of_int (2 ^ 20 * 1001)"
    using finite_below_int[of "b * m" "2 ^ 20 * 1001"] b m unfolding d_def by simp_all
  have "is_i32 \<lceil>d\<rceil>" using d ceiling_mono[OF d(2)] ceiling_mono[OF d(3)]
    by (simp add: is_i32_def ceiling_le_iff)
  then have size: "headroomSize oor h c (Fin p) = \<lceil>d\<rceil>"
    using b m d by (simp add: headroomSize_def Let_def f_to_i32_ceiling del: f_to_i32.simps)
  have u: "0 \<le> ?u" "1 / 2 \<le> ?u" by (simp_all add: unit_roundoff_def)
  have cover: "?u ^ 5 * exactNeed h c p \<le> d" if need: "1 < exactNeed h c p"
  proof -
    have h1: "0 \<le> (1 + of_int h / 100 :: rat)" "(1 + of_int h / 100 :: rat) \<le> 1001"
      using h by simp_all
    have "0 \<le> ?cp" using c p by simp
    from mult_left_mono[OF h1(2) this] have "1 < ?cp * 1001" using need by (simp add: exactNeed_def)
    then have big: "2 * min_normal \<le> ?cp" "1 / 1001 < ?cp" by (simp_all add: min_normal_def)
    have prod: "?u ^ 2 * ?cp * (?u ^ 2 * (1 + of_int h / 100)) \<le> b * m"
      using b m big u h1 \<open>0 \<le> ?cp\<close> by (intro mult_mono) auto
    have "1 / 4 \<le> ?u ^ 2" using power_mono[OF u(2), of 2] by (simp add: power2_eq_square)
    then have "1 / 4 * (1 / 1001) * 1 \<le> ?u ^ 2 * ?cp * m"
      using big m by (intro mult_mono) auto
    also have "\<dots> \<le> b * m" using b m big by (intro mult_right_mono) auto
    finally have "min_normal \<le> b * m" by (rule order_trans[rotated]) (simp add: min_normal_def)
    moreover have "?u ^ 4 * exactNeed h c p \<le> b * m"
      using prod by (simp add: exactNeed_def power_numeral_reduce mult.assoc mult.left_commute)
    ultimately show ?thesis unfolding d_def using r64.rnd_chain_lower[of "b * m" 4] b m by simp
  qed
  have k: "1 \<le> ?k" "?k \<le> 1001" using h by simp_all
  have v: "1 \<le> ?v" and mn: "0 < min_normal" by (simp_all add: unit_roundoff_def min_normal_def)
  let ?top = "max (exactNeed h c p) (1001 * min_normal)"
  have "max ?cp min_normal * ?k = max (?cp * ?k) (min_normal * ?k)" using k by (intro max_mult_distrib_right[THEN trans]) simp
  also have "\<dots> \<le> ?top" using k mn by (intro max.mono) (simp_all add: exactNeed_def)
  finally have top: "max ?cp min_normal * ?k \<le> ?top" .
  have absorb: "max ?top min_normal = ?top" using mn by (intro max_absorb1) auto
  have "b * m \<le> (?v ^ 2 * max ?cp min_normal) * (?v ^ 2 * ?k)" using b m v mn by (intro mult_mono) auto
  also have "\<dots> = ?v ^ 4 * (max ?cp min_normal * ?k)" by (simp add: power_numeral_reduce mult_ac)
  also have "\<dots> \<le> ?v ^ 4 * max ?top min_normal" unfolding absorb using top v by (intro mult_left_mono) auto
  finally have "d \<le> ?v ^ 5 * ?top" unfolding d_def using r64.rnd_chain_upper[OF mn, of "b * m" 4 ?top] absorb by simp
  then show thesis using size cover that by blast
qed

lemma headroomSize_covers:
  assumes "1 \<le> c" "c \<le> 2 ^ 20" "0 \<le> p" "p \<le> 100" "0 \<le> h" "h \<le> 100000"
  shows "min (of_int c) ((1 - unit_roundoff) ^ 5 * exactNeed h c p)
    \<le> of_int (clampDown c (headroomSize oor h c (Fin p)))"
proof -
  obtain d where d: "headroomSize oor h c (Fin p) = \<lceil>d\<rceil>"
      "1 < exactNeed h c p \<Longrightarrow> (1 - unit_roundoff) ^ 5 * exactNeed h c p \<le> d"
    using headroomSize_ceiling[of c p h] assms by auto
  let ?n = "(1 - unit_roundoff) ^ 5 * exactNeed h c p"
  have "?n \<le> of_int \<lceil>d\<rceil> \<or> ?n \<le> 1"
  proof (cases "1 < exactNeed h c p")
    case True
    then show ?thesis using d(2) le_of_int_ceiling[of d] by linarith
  next
    case False
    have "(1 - unit_roundoff) ^ 5 \<le> 1" by (rule power_le_one) (simp_all add: unit_roundoff_def)
    moreover have "0 \<le> exactNeed h c p" using assms by (simp add: exactNeed_def)
    ultimately have "?n \<le> 1 * exactNeed h c p" by (intro mult_right_mono)
    then show ?thesis using False by simp
  qed
  moreover have "of_int 1 \<le> (of_int c :: rat)" using assms by (simp only: of_int_le_iff)
  ultimately show ?thesis by (auto simp: d(1) clampDown_eq of_int_min of_int_max)
qed

text \<open>The recommended size is not larger than the exact need rounded up to a whole unit, again up to
  five roundings.\<close>

definition needAtMost :: "int \<Rightarrow> int \<Rightarrow> rat \<Rightarrow> int" where
  "needAtMost headroom current p95 = max 1 \<lceil>(1 + unit_roundoff) ^ 5 * exactNeed headroom current p95\<rceil>"

lemma headroomSize_tight:
  assumes "1 \<le> c" "c \<le> 2 ^ 20" "0 \<le> p" "p \<le> 100" "0 \<le> h" "h \<le> 100000"
  shows "clampDown c (headroomSize oor h c (Fin p)) \<le> needAtMost h c p"
proof -
  let ?v = "(1 + unit_roundoff) ^ 5" and ?n = "exactNeed h c p"
  obtain d where d: "headroomSize oor h c (Fin p) = \<lceil>d\<rceil>" "d \<le> ?v * max ?n (1001 * min_normal)"
    using headroomSize_ceiling[of c p h] assms by auto
  have "?v * (1001 * min_normal) \<le> 1"
    using mult_right_mono[OF roundoff_power, of "1001 * min_normal" 5] by (simp add: min_normal_def)
  moreover have "?v * max ?n (1001 * min_normal) = max (?v * ?n) (?v * (1001 * min_normal))"
    by (rule max_mult_distrib_left[THEN trans]) (simp add: unit_roundoff_def)
  ultimately have "d \<le> max (?v * ?n) 1" using d(2) by linarith
  then have "\<lceil>d\<rceil> \<le> max \<lceil>?v * ?n\<rceil> 1" by (auto simp: le_max_iff_disj intro: ceiling_mono)
  then show ?thesis by (auto simp: d(1) clampDown_eq needAtMost_def)
qed

text \<open>\<open>usage / 0.70\<close> as the code computes it.\<close>

lemma seventy_bounds:
  obtains q where "f_of_rat (70 / 100) = Fin q" and "69 / 100 \<le> q" and "q \<le> 1"
    and "q \<le> (1 + unit_roundoff) * (7 / 10)" and "(1 - unit_roundoff) * (7 / 10) \<le> q"
proof -
  let ?s = "70 / 100 :: rat"
  have mn: "min_normal \<le> ?s" by (simp add: min_normal_def)
  have "round64 ?s \<le> of_int 1" by (rule r64.rnd_le_int) simp_all
  moreover have lower: "(1 - unit_roundoff) * ?s \<le> round64 ?s" using mn by (rule r64.rnd_lower) simp
  then have "69 / 100 \<le> round64 ?s" by (simp add: unit_roundoff_def)
  moreover have "round64 ?s \<le> (1 + unit_roundoff) * ?s" using mn by (rule r64.rnd_upper) simp
  moreover have "f_of_rat ?s = Fin (round64 ?s)" by (rule finite_below_int[of _ 1]) simp_all
  ultimately show thesis using lower by (intro that[of "round64 ?s"]) simp_all
qed

lemma targetSize_ceiling:
  assumes c: "0 \<le> c" "c \<le> 2 ^ 20" and p: "0 \<le> p" "p \<le> 1000"
  obtains d where "targetSize oor c (Fin p) = \<lceil>d\<rceil>"
    and "1 / 1000 \<le> of_int c * p / 100 \<Longrightarrow>
      (1 - unit_roundoff) ^ 3 * (of_int c * p / 100) \<le> (1 + unit_roundoff) * (7 / 10) * d"
    and "(1 - unit_roundoff) * (7 / 10) * d \<le> (1 + unit_roundoff) ^ 3 * max (of_int c * p / 100) min_normal"
proof -
  let ?cp = "of_int c * p / 100 :: rat" and ?u = "1 - unit_roundoff" and ?v = "1 + unit_roundoff"
  obtain b where b: "fdiv (fmul (f_of_int c) (Fin p)) (f_of_int 100) = Fin b" "0 \<le> b"
      "b \<le> of_int (c * 10)" "2 * min_normal \<le> ?cp \<Longrightarrow> ?u ^ 2 * ?cp \<le> b"
      "b \<le> ?v ^ 2 * max ?cp min_normal"
    using usage_bounds[of c p 10] c p by auto
  obtain q where q: "f_of_rat (70 / 100) = Fin q" "69 / 100 \<le> q" "q \<le> 1" "q \<le> ?v * (7 / 10)" "?u * (7 / 10) \<le> q"
    by (rule seventy_bounds)
  define d where "d = round64 (b / q)"
  have bq: "0 \<le> b / q" "b \<le> b / q" using b q by (simp_all add: le_divide_eq mult_left_le)
  have "b \<le> of_int (2 ^ 20 * 10)" using b(3) c by (metis mult_right_mono of_int_le_iff order_trans zero_le_numeral)
  then have "b / q \<le> of_int (2 ^ 24)" using q by (simp add: divide_le_eq)
  then have d: "f_of_rat (b / q) = Fin d" "0 \<le> d" "d \<le> of_int (2 ^ 24)"
    using finite_below_int[of "b / q" "2 ^ 24"] bq unfolding d_def by simp_all
  have "is_i32 \<lceil>d\<rceil>" using ceiling_mono[OF d(2)] ceiling_mono[OF d(3)] by (simp add: is_i32_def)
  then have size: "targetSize oor c (Fin p) = \<lceil>d\<rceil>"
    using b q d by (simp add: targetSize_def Let_def f_to_i32_ceiling del: f_to_i32.simps)
  have u: "1 / 2 \<le> ?u" "1 \<le> ?v" and mn: "0 < min_normal" by (simp_all add: unit_roundoff_def min_normal_def)
  have cover: "?u ^ 3 * ?cp \<le> ?v * (7 / 10) * d" if big: "1 / 1000 \<le> ?cp"
  proof -
    have "2 * min_normal \<le> 1 / 1000" by (simp add: min_normal_def)
    with big b(4) have b4: "?u ^ 2 * ?cp \<le> b" by linarith
    have "1 / 4 \<le> ?u ^ 2" using power_mono[OF u(1), of 2] by (simp add: power2_eq_square)
    then have "1 / 4 * (1 / 1000) \<le> ?u ^ 2 * ?cp" using big by (intro mult_mono) auto
    moreover have "min_normal \<le> 1 / 4 * (1 / 1000)" by (simp add: min_normal_def)
    ultimately have "min_normal \<le> b / q" using b4 bq(2) by linarith
    moreover have "?u ^ 2 * (?cp / q) \<le> b / q" using divide_right_mono[OF b4, of q] q by simp
    ultimately have "?u ^ 3 * (?cp / q) \<le> d" unfolding d_def using r64.rnd_chain_lower[of "b / q" 2 "?cp / q"] bq by simp
    then have "?u ^ 3 * ?cp \<le> q * d" using q by (simp add: divide_le_eq mult.commute)
    also have "\<dots> \<le> ?v * (7 / 10) * d" using q d by (intro mult_right_mono) auto
    finally show ?thesis .
  qed
  have "max ?cp min_normal \<le> max ?cp min_normal / q" using q mn by (simp add: le_divide_eq mult_left_le)
  then have absorb: "max (max ?cp min_normal / q) min_normal = max ?cp min_normal / q" by (intro max_absorb1) simp
  have "b / q \<le> ?v ^ 2 * max ?cp min_normal / q" using b(5) q by (simp add: divide_right_mono)
  then have "d \<le> ?v ^ 3 * (max ?cp min_normal / q)"
    unfolding d_def using r64.rnd_chain_upper[OF mn, of "b / q" 2 "max ?cp min_normal / q"] absorb by simp
  then have "q * d \<le> ?v ^ 3 * max ?cp min_normal" using q by (simp add: le_divide_eq mult.commute)
  moreover have "?u * (7 / 10) * d \<le> q * d" using q d by (intro mult_right_mono) auto
  ultimately have "?u * (7 / 10) * d \<le> ?v ^ 3 * max ?cp min_normal" by linarith
  then show thesis using size cover that by blast
qed

text \<open>\<open>reaches70 c p n\<close>: a usage of \<open>p\<close> percent of \<open>c\<close> is at most 70 percent of \<open>n\<close>, up to the rounding of
  the four float64 operations. \<open>targetAtMost c p\<close>: the exact size for that, rounded up to a whole unit,
  with the same allowance.\<close>

definition reaches70 :: "int \<Rightarrow> rat \<Rightarrow> int \<Rightarrow> bool" where
  "reaches70 c p n \<longleftrightarrow>
    (1 - unit_roundoff) ^ 3 * (of_int c * p / 100) \<le> (1 + unit_roundoff) * (7 / 10) * of_int n"

definition targetAtMost :: "int \<Rightarrow> rat \<Rightarrow> int" where
  "targetAtMost c p = max c \<lceil>(1 + unit_roundoff) ^ 3 / (1 - unit_roundoff) * (of_int c * p / 100 / (7 / 10))\<rceil>"

lemma reaches70_mono: "reaches70 c p n \<Longrightarrow> n \<le> n' \<Longrightarrow> reaches70 c p n'"
  unfolding reaches70_def
  by (rule order_trans, assumption, rule mult_left_mono) (auto simp: unit_roundoff_def)

lemma targetSize_covers:
  assumes "1 \<le> c" "c \<le> 2 ^ 20" "0 \<le> p" "p \<le> 1000"
  shows "reaches70 c p (clampUp c (targetSize oor c (Fin p)))"
proof (cases "1 / 1000 \<le> of_int c * p / 100")
  case True
  obtain d where d: "targetSize oor c (Fin p) = \<lceil>d\<rceil>"
      "(1 - unit_roundoff) ^ 3 * (of_int c * p / 100) \<le> (1 + unit_roundoff) * (7 / 10) * d"
    using targetSize_ceiling[of c p] assms True by auto
  have "(1 + unit_roundoff) * (7 / 10) * d \<le> (1 + unit_roundoff) * (7 / 10) * of_int \<lceil>d\<rceil>"
    by (intro mult_left_mono) (auto simp: unit_roundoff_def)
  with d have "reaches70 c p \<lceil>d\<rceil>" unfolding reaches70_def by linarith
  then show ?thesis by (rule reaches70_mono) (auto simp: d(1) clampUp_def)
next
  case False
  have "(1 - unit_roundoff) ^ 3 \<le> 1" by (rule power_le_one) (simp_all add: unit_roundoff_def)
  then have "(1 - unit_roundoff) ^ 3 * (of_int c * p / 100) \<le> 1 * (of_int c * p / 100)"
    using assms by (intro mult_right_mono) auto
  also have "\<dots> \<le> 1 * (7 / 10) * of_int 1" using False by linarith
  also have "\<dots> \<le> (1 + unit_roundoff) * (7 / 10) * of_int 1" by (simp add: unit_roundoff_def)
  finally have "reaches70 c p 1" unfolding reaches70_def .
  then show ?thesis by (rule reaches70_mono) (use assms clampUp_ge[of c] in \<open>auto intro: order_trans\<close>)
qed

lemma targetSize_tight:
  assumes "1 \<le> c" "c \<le> 2 ^ 20" "0 \<le> p" "p \<le> 1000"
  shows "clampUp c (targetSize oor c (Fin p)) \<le> targetAtMost c p"
proof -
  let ?u = "1 - unit_roundoff" and ?v = "(1 + unit_roundoff) ^ 3" and ?cp = "of_int c * p / 100 :: rat"
  obtain d where d: "targetSize oor c (Fin p) = \<lceil>d\<rceil>" "?u * (7 / 10) * d \<le> ?v * max ?cp min_normal"
    using targetSize_ceiling[of c p] assms by auto
  have u: "0 < ?u" by (simp add: unit_roundoff_def)
  have "\<lceil>d\<rceil> \<le> max 1 \<lceil>?v / ?u * (?cp / (7 / 10))\<rceil>"
  proof (cases "min_normal \<le> ?cp")
    case True
    then have "d * (?u * (7 / 10)) \<le> ?v * ?cp" using d(2) by (simp add: max_absorb1 mult.commute)
    then have "d \<le> ?v * ?cp / (?u * (7 / 10))" using u by (intro mult_imp_le_div_pos) auto
    then have "d \<le> ?v / ?u * (?cp / (7 / 10))" by (simp only: times_divide_times_eq)
    then show ?thesis by (intro max.coboundedI2 ceiling_mono)
  next
    case False
    have "?v * min_normal \<le> 1 / 2"
      using mult_right_mono[OF roundoff_power, of min_normal 3] by (simp add: min_normal_def)
    moreover have "1 / 2 \<le> ?u * (7 / 10) * 1" by (simp add: unit_roundoff_def)
    ultimately have "?v * min_normal \<le> ?u * (7 / 10) * 1" by linarith
    with d(2) False have "?u * (7 / 10) * d \<le> ?u * (7 / 10) * 1" by (simp add: max_absorb2)
    then have "d \<le> 1" using u by (subst (asm) mult_le_cancel_left_pos) auto
    then show ?thesis by (intro max.coboundedI1) simp
  qed
  then show ?thesis using assms(1) by (auto simp: d(1) clampUp_def targetAtMost_def)
qed

lemma fMax_Fin [simp]: "fMax (Fin a) (Fin b) = Fin (max a b)"
  by (auto simp: fMax_def)

section \<open>The percentile stays in the slice and between the neighbouring samples\<close>

text \<open>The reference: linear interpolation at a rank of the sorted samples, in exact arithmetic. The rank
  the code computes is \<open>p / 100 * (n - 1)\<close> after two roundings.\<close>

definition interpolated :: "rat list \<Rightarrow> rat \<Rightarrow> rat" where
  "interpolated xs r = (let l = xs ! nat \<lfloor>r\<rfloor>; h = xs ! nat \<lceil>r\<rceil> in l + (r - of_int \<lfloor>r\<rfloor>) * (h - l))"

definition nearRank :: "int \<Rightarrow> int \<Rightarrow> rat \<Rightarrow> bool" where
  "nearRank p n r \<longleftrightarrow> 0 \<le> r \<and> r \<le> of_int n \<and> (1 - unit_roundoff) ^ 2 * (of_int p / 100 * of_int n) \<le> r \<and>
    r \<le> (1 + unit_roundoff) ^ 2 * (of_int p / 100 * of_int n)"

lemma nearRank_indices: "nearRank p n r \<Longrightarrow> 0 \<le> \<lfloor>r\<rfloor> \<and> \<lfloor>r\<rfloor> \<le> \<lceil>r\<rceil> \<and> \<lceil>r\<rceil> \<le> n"
  by (simp add: nearRank_def ceiling_le_iff floor_le_ceiling)

lemma two_roundings:
  assumes "min_normal \<le> a" "0 \<le> a" "1 \<le> k" "min_normal \<le> round64 a * k"
  shows "(1 - unit_roundoff) ^ 2 * (a * k) \<le> round64 (round64 a * k)"
    and "round64 (round64 a * k) \<le> (1 + unit_roundoff) ^ 2 * (a * k)"
proof -
  have a: "(1 - unit_roundoff) * a * k \<le> round64 a * k" "round64 a * k \<le> (1 + unit_roundoff) * a * k" "0 \<le> round64 a"
    using assms by (auto intro!: mult_right_mono r64.rnd_lower r64.rnd_upper r64.rnd_nonneg)
  then show "(1 - unit_roundoff) ^ 2 * (a * k) \<le> round64 (round64 a * k)"
    using r64.rnd_chain_lower[of "round64 a * k" 1 "a * k"] assms by (simp add: numeral_2_eq_2 mult.assoc)
  have "a \<le> a * k" using assms by (simp add: mult_le_cancel_left1)
  then have "max (a * k) min_normal = a * k" using assms by (intro max_absorb1) linarith
  then show "round64 (round64 a * k) \<le> (1 + unit_roundoff) ^ 2 * (a * k)"
    using r64.rnd_chain_upper[of "round64 a * k" 1 "a * k"] a by (simp add: numeral_2_eq_2 mult.assoc min_normal_def)
qed

lemma rank_range:
  assumes "0 \<le> p" "p \<le> 100" "1 \<le> n" "n \<le> 2 ^ 53"
  obtains r where "fmul (fdiv (f_of_int p) (f_of_int 100)) (f_of_int n) = Fin r"
    and "0 \<le> r" and "r \<le> of_int n" and "round64 r = r" and "nearRank p n r"
proof -
  define x where "x = round64 (of_int p / 100)"
  have "0 \<le> (of_int p / 100 :: rat)" "(of_int p / 100 :: rat) \<le> of_int 1"
    using assms by simp_all
  from finite_below_int[OF this] have x: "f_of_rat (of_int p / 100) = Fin x" "0 \<le> x" "x \<le> 1"
    by (simp_all add: x_def)
  have "0 \<le> x * of_int n" "x * of_int n \<le> of_int n"
    using assms x by (simp_all add: mult_left_le_one_le)
  note y = finite_below_int[OF this assms(4)]
  have "nearRank p n (round64 (x * of_int n))"
  proof (cases "p = 0")
    case False
    have mn: "min_normal \<le> 1 / 1000" by (simp add: min_normal_def)
    have p: "1 / 100 \<le> (of_int p / 100 :: rat)" using assms False by simp
    have n: "1 \<le> (of_int n :: rat)" using assms by simp
    have "(1 - unit_roundoff) * (of_int p / 100) \<le> x" unfolding x_def using mn p by (intro r64.rnd_lower) linarith+
    moreover have "1 / 10 * (of_int p / 100) \<le> (1 - unit_roundoff) * (of_int p / 100)"
      using p by (intro mult_right_mono) (simp_all add: unit_roundoff_def)
    ultimately have "1 / 1000 \<le> x" using p by linarith
    then have "1 / 1000 * 1 \<le> x * of_int n" using n by (intro mult_mono) auto
    then have "min_normal \<le> x * of_int n" using mn by linarith
    then show ?thesis using two_roundings[of "of_int p / 100" "of_int n"] mn p n y
      unfolding nearRank_def x_def by auto
  qed (use assms in \<open>simp add: nearRank_def x_def\<close>)
  moreover have "is_i32 p" "is_i32 100" using assms by (simp_all add: is_i32_def)
  moreover have "f_of_int n = Fin (of_int n)" using assms by (intro f_of_int_small) simp
  ultimately show thesis using x y by (intro that[of "round64 (x * of_int n)"]) simp_all
qed

lemma rank_indices:
  assumes r: "0 \<le> r" "r \<le> of_int n" and n: "n \<le> 2 ^ 53"
  shows "f_to_i64 oor (Floor (Fin r)) = \<lfloor>r\<rfloor>" and "f_to_i64 oor (Ceil (Fin r)) = \<lceil>r\<rceil>"
    and "0 \<le> \<lfloor>r\<rfloor>" and "\<lceil>r\<rceil> \<le> n" and "\<lfloor>r\<rfloor> \<le> \<lceil>r\<rceil>" and "\<lceil>r\<rceil> \<le> \<lfloor>r\<rfloor> + 1"
proof -
  show f: "0 \<le> \<lfloor>r\<rfloor>" and c: "\<lceil>r\<rceil> \<le> n" using r by (simp_all add: ceiling_le_iff)
  show fc: "\<lfloor>r\<rfloor> \<le> \<lceil>r\<rceil>" "\<lceil>r\<rceil> \<le> \<lfloor>r\<rfloor> + 1" by linarith+
  have "is_i64 \<lfloor>r\<rfloor>" "is_i64 \<lceil>r\<rceil>" using f c fc n by (intro is_i64_53; linarith)+
  then show "f_to_i64 oor (Floor (Fin r)) = \<lfloor>r\<rfloor>" "f_to_i64 oor (Ceil (Fin r)) = \<lceil>r\<rceil>"
    using f fc by (simp_all add: Floor_def Ceil_def trunc_rat_def)
qed

text \<open>The interpolation between two neighbours.\<close>

lemma interpolate_error:
  assumes l: "0 \<le> l" "l \<le> u" and f: "0 \<le> f" "f \<le> 1" "0 \<le> g" "g \<le> 1" "\<bar>f - g\<bar> \<le> unit_roundoff"
    and d: "\<bar>d - (u - l)\<bar> \<le> unit_roundoff * (u - l)" "0 \<le> d" and p: "\<bar>p - f * d\<bar> \<le> unit_roundoff * max (f * d) min_normal" "p \<le> d"
    and v: "\<bar>v - (l + p)\<bar> \<le> unit_roundoff * (l + p)"
  shows "\<bar>v - (l + g * (u - l))\<bar> \<le> 8 * unit_roundoff * max u min_normal"
proof -
  let ?e = "unit_roundoff" and ?E = "max u min_normal"
  have e: "0 \<le> ?e" "?e \<le> 1" and mn: "0 \<le> min_normal" by (simp_all add: unit_roundoff_def min_normal_def)
  have "?e * (u - l) \<le> 1 * (u - l)" using e l by (intro mult_right_mono) auto
  from order_trans[OF abs_le_D1[OF d(1)] this] have d2: "d \<le> 2 * (u - l)" by (simp add: algebra_simps)
  then have dE: "d \<le> 2 * ?E" "l + p \<le> 2 * ?E" using l p(2) by auto
  have "f * d \<le> 1 * d" using f d by (intro mult_right_mono) auto
  then have fd: "max (f * d) min_normal \<le> 2 * ?E" using dE mn by auto
  have "\<bar>v - (l + p)\<bar> \<le> ?e * (2 * ?E)" by (rule order_trans[OF v mult_left_mono[OF dE(2) e(1)]])
  moreover have "\<bar>p - f * d\<bar> \<le> ?e * (2 * ?E)" by (rule order_trans[OF p(1) mult_left_mono[OF fd e(1)]])
  moreover have "\<bar>(f - g) * d\<bar> \<le> ?e * (2 * ?E)"
    unfolding abs_mult using f(5) d(2) dE(1) e(1) by (intro mult_mono) auto
  moreover have "u - l \<le> ?E" using l by auto
  from order_trans[OF d(1) mult_left_mono[OF this e(1)]] have "\<bar>g * (d - (u - l))\<bar> \<le> 1 * (?e * ?E)"
    unfolding abs_mult using f by (intro mult_mono) auto
  moreover have "v - (l + g * (u - l)) = (v - (l + p)) + (p - f * d) + (f - g) * d + g * (d - (u - l))"
    by (simp add: algebra_simps)
  moreover have "0 \<le> ?e * ?E" using e mn by (intro mult_nonneg_nonneg) auto
  ultimately show ?thesis by linarith
qed

lemma interpolate_bounds:
  assumes "round64 l = l" "round64 u = u" "0 \<le> l" "l \<le> u" "u \<le> of_int m" "m \<le> 2 ^ 52"
    and f: "0 \<le> f" "f \<le> 1" and g: "0 \<le> g" "g \<le> 1" "\<bar>f - g\<bar> \<le> unit_roundoff"
  obtains v where "fadd (Fin l) (fmul (Fin f) (fsub (Fin u) (Fin l))) = Fin v"
    and "l \<le> v" and "v \<le> (1 + unit_roundoff) ^ 2 * u"
    and "\<bar>v - (l + g * (u - l))\<bar> \<le> 8 * unit_roundoff * max u min_normal"
proof -
  let ?e = "1 + unit_roundoff"
  define d where "d = round64 (u - l)"
  have "u - l \<le> of_int m" using assms by linarith
  with assms have d: "f_of_rat (u - l) = Fin d" "0 \<le> d" "d \<le> of_int m"
    using finite_below_int[of "u - l" m] unfolding d_def by simp_all
  define p where "p = round64 (f * d)"
  have fd: "0 \<le> f * d" "f * d \<le> d" using d f by (simp_all add: mult_left_le_one_le)
  have p: "f_of_rat (f * d) = Fin p" "0 \<le> p"
    using finite_below_int[of "f * d" m] fd d assms unfolding p_def by simp_all
  have pd: "p \<le> d" using round64_mono[OF fd(2)] by (simp add: p_def d_def)
  define v where "v = round64 (l + p)"
  have "l + p \<le> of_int (2 * m)" using assms pd d by simp
  then have v: "f_of_rat (l + p) = Fin v"
    using finite_below_int[of "l + p" "2 * m"] assms p unfolding v_def by simp_all
  have low: "l \<le> v" unfolding v_def using round64_mono[of l "l + p"] assms p by simp
  have g64: "on_grid l" "on_grid u" "on_grid p"
    using assms by (auto intro: on_grid_representable simp: p_def)
  have high: "v \<le> ?e ^ 2 * u"
  proof -
    have "d \<le> ?e * (u - l)" unfolding d_def using assms g64 by (intro r64_sum_le on_grid_diff) auto
    moreover have "l \<le> ?e * l" using assms by (simp add: unit_roundoff_def)
    ultimately have "l + p \<le> ?e * u" using pd by (simp add: right_diff_distrib)
    then have "?e * (l + p) \<le> ?e * (?e * u)" by (rule mult_left_mono) (simp add: unit_roundoff_def)
    moreover have "v \<le> ?e * (l + p)" unfolding v_def using assms g64 p
      by (intro r64_sum_le on_grid_add) auto
    ultimately show ?thesis by (simp add: power2_eq_square)
  qed
  have "\<bar>d - (u - l)\<bar> \<le> unit_roundoff * (u - l)" "\<bar>v - (l + p)\<bar> \<le> unit_roundoff * (l + p)"
    unfolding d_def v_def
    using r64_error_grid[OF on_grid_diff[OF g64(2,1)]] r64_error_grid[OF on_grid_add[OF g64(1,3)]] assms p by simp_all
  moreover have "\<bar>p - f * d\<bar> \<le> unit_roundoff * max (f * d) min_normal"
    unfolding p_def using round64_error_max[of "f * d"] fd by simp
  ultimately have "\<bar>v - (l + g * (u - l))\<bar> \<le> 8 * unit_roundoff * max u min_normal"
    using assms d pd by (intro interpolate_error[of l u f g d p]) auto
  moreover have "fadd (Fin l) (fmul (Fin f) (fsub (Fin u) (Fin l))) = Fin v"
    using d p v by (simp add: fsub_def)
  ultimately show thesis using that low high by blast
qed

lemma sort_map_Fin: "sort (map Fin xs) = map Fin (sort xs)"
proof (induction xs)
  case (Cons x xs)
  have "insort (Fin x) (map Fin ys) = map Fin (insort x ys)" for ys by (induction ys) auto
  with Cons show ?case by simp
qed simp

text \<open>What the result is compared with: the interpolation at \<open>r\<close>, its neighbours as bounds.\<close>

definition nearInterpolation :: "rat list \<Rightarrow> rat \<Rightarrow> rat \<Rightarrow> bool" where
  "nearInterpolation xs r v \<longleftrightarrow> xs ! nat \<lfloor>r\<rfloor> \<le> v \<and> v \<le> (1 + unit_roundoff) ^ 2 * xs ! nat \<lceil>r\<rceil> \<and>
    \<bar>v - interpolated xs r\<bar> \<le> 8 * unit_roundoff * max (xs ! nat \<lceil>r\<rceil>) min_normal"

lemma nearInterpolation_exact:
  assumes "\<lceil>r\<rceil> = \<lfloor>r\<rfloor>" "0 \<le> xs ! nat \<lfloor>r\<rfloor>"
  shows "nearInterpolation xs r (xs ! nat \<lfloor>r\<rfloor>)"
proof -
  have "1 * xs ! nat \<lfloor>r\<rfloor> \<le> (1 + unit_roundoff) ^ 2 * xs ! nat \<lfloor>r\<rfloor>"
    using assms by (intro mult_right_mono) (auto simp: unit_roundoff_def)
  moreover have "0 \<le> 8 * unit_roundoff * max (xs ! nat \<lfloor>r\<rfloor>) min_normal" using assms by (simp add: unit_roundoff_def)
  ultimately show ?thesis using assms by (simp add: nearInterpolation_def interpolated_def Let_def)
qed

text \<open>The interpolation step of the code at a rank between two indices.\<close>

lemma interpolation_step:
  fixes r :: rat
  assumes r: "round64 r = r" "0 \<le> \<lfloor>r\<rfloor>" "\<lfloor>r\<rfloor> \<le> 2 ^ 53"
    and l: "round64 l = l" "0 \<le> l" "l \<le> u" and u: "round64 u = u" "u \<le> of_int (2 ^ 52)"
  obtains v where "fadd (Fin l) (fmul (fsub (Fin r) (f_of_int \<lfloor>r\<rfloor>)) (fsub (Fin u) (Fin l))) = Fin v"
    and "l \<le> v" and "v \<le> (1 + unit_roundoff) ^ 2 * u"
    and "\<bar>v - (l + (r - of_int \<lfloor>r\<rfloor>) * (u - l))\<bar> \<le> 8 * unit_roundoff * max u min_normal"
proof -
  let ?g = "r - of_int \<lfloor>r\<rfloor>"
  define f where "f = round64 ?g"
  have g: "0 \<le> ?g" "?g \<le> of_int 1" by linarith+
  from finite_below_int[OF this] have f: "f_of_rat ?g = Fin f" "0 \<le> f" "f \<le> 1" by (simp_all add: f_def)
  have small: "f_of_int \<lfloor>r\<rfloor> = Fin (of_int \<lfloor>r\<rfloor>)" "round64 (of_int \<lfloor>r\<rfloor>) = of_int \<lfloor>r\<rfloor>"
    using r by (intro f_of_int_small round64_of_int; linarith)+
  have "\<bar>f - ?g\<bar> \<le> unit_roundoff * ?g"
    unfolding f_def using r64_error_grid[of ?g] r(1) small(2) g by (simp add: on_grid_diff on_grid_representable)
  also have "\<dots> \<le> unit_roundoff * 1" using g by (intro mult_left_mono) (simp_all add: unit_roundoff_def)
  finally have "\<bar>f - ?g\<bar> \<le> unit_roundoff" by simp
  moreover have "fsub (Fin r) (f_of_int \<lfloor>r\<rfloor>) = Fin f" using f small(1) by (simp add: fsub_def)
  ultimately show thesis using interpolate_bounds[OF l(1) u(1) l(2,3) u(2) _ f(2,3) g(1)] g(2) that by auto
qed

lemma ComputePercentile_interpolates:
  assumes ne: "xs \<noteq> []" and p: "0 \<le> p" "p \<le> 100" and n: "int (length xs) \<le> 2 ^ 53"
    and S: "\<And>x. x \<in> set xs \<Longrightarrow> round64 x = x \<and> 0 \<le> x \<and> x \<le> 2 ^ 52"
  obtains v r where "ComputePercentile oor (map Fin xs) p = Some (Fin v)" and "nearRank p (int (length xs) - 1) r"
    and "nearInterpolation (sort xs) r v"
proof -
  let ?s = "sort xs" and ?n = "int (length xs) - 1"
  have S': "round64 (?s ! nat i) = ?s ! nat i" "0 \<le> ?s ! nat i" "?s ! nat i \<le> of_int (2 ^ 52)"
    and ix': "index (map Fin ?s) i = Some (Fin (?s ! nat i))" if "0 \<le> i" "i \<le> ?n" for i
    using S[of "?s ! nat i"] nth_mem[of "nat i" ?s] that ne by (auto simp: index_def nat_less_iff)
  show thesis
  proof (cases "length xs = 1")
    case True
    then have "ComputePercentile oor (map Fin xs) p = Some (Fin (?s ! nat \<lfloor>0::rat\<rfloor>))"
      using ix'[of 0] ne by (simp add: ComputePercentile_def Let_def sort_map_Fin)
    then show thesis by (rule that) (use nearInterpolation_exact[of 0 ?s] S'(2)[of 0] True in \<open>simp_all add: nearRank_def\<close>)
  next
    case len: False
    with ne have n1: "1 \<le> ?n" by (cases xs) (auto simp: Suc_le_eq)
    have n53: "?n \<le> 2 ^ 53" and not_one: "length xs \<noteq> Suc 0" using n len by simp_all
    obtain r where r: "fmul (fdiv (f_of_int p) (f_of_int 100)) (f_of_int ?n) = Fin r" "0 \<le> r"
        "r \<le> of_int ?n" "round64 r = r" "nearRank p ?n r"
      using rank_range[OF p n1 n53] by blast
    note ix = rank_indices[OF r(2,3) n53]
    have lo: "\<lfloor>r\<rfloor> \<le> ?n" and hi: "0 \<le> \<lceil>r\<rceil>" using ix(3,4,5) by linarith+
    show thesis
    proof (cases "\<lfloor>r\<rfloor> = \<lceil>r\<rceil>")
      case True
      then have "ComputePercentile oor (map Fin xs) p = Some (Fin (?s ! nat \<lfloor>r\<rfloor>))"
        using ne not_one r ix ix'[OF ix(3) lo] by (simp add: ComputePercentile_def Let_def sort_map_Fin)
      then show thesis using r(5) nearInterpolation_exact[OF True[symmetric] S'(2)[OF ix(3) lo]] by (rule that)
    next
      case neq: False
      let ?l = "?s ! nat \<lfloor>r\<rfloor>" and ?u = "?s ! nat \<lceil>r\<rceil>"
      have le: "?l \<le> ?u" using ix(4) hi nat_mono[OF ix(5)] by (intro sorted_nth_mono) (auto simp: nat_less_iff)
      obtain v where v: "fadd (Fin ?l) (fmul (fsub (Fin r) (f_of_int \<lfloor>r\<rfloor>)) (fsub (Fin ?u) (Fin ?l))) = Fin v" "nearInterpolation ?s r v"
        using interpolation_step[OF r(4) ix(3) order_trans[OF lo n53] S'(1,2)[OF ix(3) lo] le S'(1,3)[OF hi ix(4)]]
        by (auto simp: nearInterpolation_def interpolated_def Let_def)
      then have "ComputePercentile oor (map Fin xs) p = Some (Fin v)"
        using ne r ix ix'[OF ix(3) lo] ix'[OF hi ix(4)] neq not_one by (simp add: ComputePercentile_def Let_def sort_map_Fin)
      then show thesis using r(5) v(2) by (rule that)
    qed
  qed
qed

lemma ComputePercentile_bounds:
  assumes "samples \<noteq> []" "0 \<le> p" "p \<le> 100" "int (length samples) \<le> 2 ^ 53"
    and S: "\<And>s. s \<in> set samples \<Longrightarrow> \<exists>x. s = Fin x \<and> round64 x = x \<and> 0 \<le> x \<and> x \<le> 2 ^ 52"
  shows "\<exists>v lo hi. ComputePercentile oor samples p = Some (Fin v) \<and> Fin lo \<in> set samples \<and>
    Fin hi \<in> set samples \<and> lo \<le> v \<and> v \<le> (1 + unit_roundoff) ^ 2 * hi"
proof -
  define xs where "xs = map (\<lambda>s. case s of Fin x \<Rightarrow> x | _ \<Rightarrow> 0) samples"
  have eq: "samples = map Fin xs" unfolding xs_def using S by (force simp: map_idI comp_def intro!: map_idI[symmetric])
  obtain v r where v: "ComputePercentile oor (map Fin xs) p = Some (Fin v)" "nearRank p (int (length xs) - 1) r"
      "sort xs ! nat \<lfloor>r\<rfloor> \<le> v" "v \<le> (1 + unit_roundoff) ^ 2 * sort xs ! nat \<lceil>r\<rceil>"
    by (rule ComputePercentile_interpolates[of xs p oor]) (use assms(1-4) eq S in \<open>auto simp: nearInterpolation_def\<close>)
  have "0 \<le> \<lfloor>r\<rfloor>" "\<lfloor>r\<rfloor> < int (length xs)" "0 \<le> \<lceil>r\<rceil>" "\<lceil>r\<rceil> < int (length xs)" using nearRank_indices[OF v(2)] by linarith+
  then have "sort xs ! nat \<lfloor>r\<rfloor> \<in> set xs" "sort xs ! nat \<lceil>r\<rceil> \<in> set xs"
    using nth_mem[of "nat \<lfloor>r\<rfloor>" "sort xs"] nth_mem[of "nat \<lceil>r\<rceil>" "sort xs"] assms(1) eq by (auto simp: nat_less_iff)
  then show ?thesis using v eq by auto
qed

section \<open>Properties\<close>

lemma downsize_bounds:
  assumes "Analyze oor inp = Some r" and "resDirection r = Downsize" and "input_ok inp"
    and "1 \<le> inCurrentCPUCores inp" and "1 \<le> inCurrentMemoryGiB inp"
  shows "1 \<le> RecommendedCPUCores r \<and> RecommendedCPUCores r \<le> inCurrentCPUCores inp \<and>
    1 \<le> RecommendedMemoryGiB r \<and> RecommendedMemoryGiB r \<le> inCurrentMemoryGiB inp \<and>
    CPUSavings r = inCurrentCPUCores inp - RecommendedCPUCores r \<and>
    MemorySavings r = inCurrentMemoryGiB inp - RecommendedMemoryGiB r \<and>
    inMinCPUSavings inp \<le> CPUSavings r \<and> inMinMemorySavingsGiB inp \<le> MemorySavings r \<and>
    \<not> upsizeNeeded inp"
proof -
  have d: "analyzeDownsize oor inp = Some r" and no: "\<not> upsizeNeeded inp"
    using Analyze_direction[OF assms(1)] assms(2) by auto
  note D = analyzeDownsize_SomeD[OF d]
  have cpu: "1 \<le> RecommendedCPUCores r" "RecommendedCPUCores r \<le> inCurrentCPUCores inp"
    and mem: "1 \<le> RecommendedMemoryGiB r" "RecommendedMemoryGiB r \<le> inCurrentMemoryGiB inp"
    using clampDown_bounds[OF assms(4)] clampDown_bounds[OF assms(5)] by (simp_all add: D(1,2))
  have "CPUSavings r = inCurrentCPUCores inp - RecommendedCPUCores r"
    "MemorySavings r = inCurrentMemoryGiB inp - RecommendedMemoryGiB r"
    using D(3,4) cpu mem assms(3) by (simp_all add: input_ok_def)
  then show ?thesis using cpu mem D(5,6) no by simp
qed

definition sampleInput :: AnalysisInput where
  "sampleInput = \<lparr>inCurrentCPUCores = 8, inCurrentMemoryGiB = 16, inCPUP95Percent = Fin 25,
     inMemoryP95Percent = Fin 25, inCPUMaxPercent = Fin 50, inMemoryMaxPercent = Fin 50,
     inHeadroomPercent = 100, inMinCPUSavings = 1, inMinMemorySavingsGiB = 1,
     inUpsizeThresholdPct = 90, inLookbackDays = 30\<rparr>"

lemmas calc_eval = Analyze_def upsizeNeeded_def analyzeDownsize_def analyzeUpsize_def
  headroomSize_def targetSize_def clampDown_def clampUp_def Let_def Ceil_def trunc_rat_def
  is_i32_def input_ok_def

lemma sampleInput_downsizes:
  "\<exists>r. Analyze (\<lambda>_. 0) sampleInput = Some r \<and> resDirection r = Downsize \<and>
    RecommendedCPUCores r = 4 \<and> RecommendedMemoryGiB r = 8"
  by (simp add: sampleInput_def calc_eval)

lemma upsize_bounds:
  assumes "Analyze oor inp = Some r" and "resDirection r = Upsize" and "input_ok inp"
    and "0 \<le> inCurrentCPUCores inp" and "0 \<le> inCurrentMemoryGiB inp"
  shows "inCurrentCPUCores inp \<le> RecommendedCPUCores r \<and>
    inCurrentMemoryGiB inp \<le> RecommendedMemoryGiB r \<and>
    CPUSavings r = inCurrentCPUCores inp - RecommendedCPUCores r \<and>
    MemorySavings r = inCurrentMemoryGiB inp - RecommendedMemoryGiB r \<and>
    (inMinCPUSavings inp \<le> RecommendedCPUCores r - inCurrentCPUCores inp \<or>
     inMinMemorySavingsGiB inp \<le> RecommendedMemoryGiB r - inCurrentMemoryGiB inp) \<and>
    upsizeNeeded inp"
proof -
  have d: "analyzeUpsize oor inp = Some r" and up: "upsizeNeeded inp"
    using Analyze_direction[OF assms(1)] assms(2) by auto
  note D = analyzeUpsize_SomeD[OF d]
  have ge: "inCurrentCPUCores inp \<le> RecommendedCPUCores r"
    "inCurrentMemoryGiB inp \<le> RecommendedMemoryGiB r"
    by (simp_all add: D(1,2) clampUp_ge)
  have "is_i32 (RecommendedCPUCores r)" "is_i32 (RecommendedMemoryGiB r)"
    using assms(3) by (auto simp: D(1,2) input_ok_def intro: is_i32_clampUp)
  then have inc: "i32 (RecommendedCPUCores r - inCurrentCPUCores inp)
        = RecommendedCPUCores r - inCurrentCPUCores inp"
      "i32 (RecommendedMemoryGiB r - inCurrentMemoryGiB inp)
        = RecommendedMemoryGiB r - inCurrentMemoryGiB inp"
      "is_i32 (inCurrentCPUCores inp - RecommendedCPUCores r)"
      "is_i32 (inCurrentMemoryGiB inp - RecommendedMemoryGiB r)"
    using ge assms(4,5) by (auto simp: is_i32_def)
  show ?thesis using ge D(3-5) inc up by simp
qed

definition sampleSpike :: AnalysisInput where
  "sampleSpike = sampleInput\<lparr>inCPUMaxPercent := Fin 100\<rparr>"

lemma targetSize_spike: "10 \<le> clampUp 8 (targetSize oor 8 (Fin 100))"
proof -
  have "reaches70 8 100 (clampUp 8 (targetSize oor 8 (Fin 100)))"
    by (rule targetSize_covers) simp_all
  then have "of_int 9 < (of_int (clampUp 8 (targetSize oor 8 (Fin 100))) :: rat)"
    by (simp add: reaches70_def unit_roundoff_def power_numeral_reduce)
  then show ?thesis by (simp only: of_int_less_iff)
qed

lemma sampleSpike_upsizes: "\<exists>r. Analyze oor sampleSpike = Some r \<and> resDirection r = Upsize"
proof -
  let ?t = "clampUp 8 (targetSize oor 8 (Fin 100))"
  have "is_i32 ?t" by (rule is_i32_clampUp) (simp_all add: is_i32_def[of 8])
  with targetSize_spike[of oor] have "i32 (?t - 8) = ?t - 8" "10 \<le> ?t" by simp_all
  moreover have "upsizeNeeded sampleSpike"
    by (simp add: sampleSpike_def sampleInput_def upsizeNeeded_def is_i32_def)
  ultimately show ?thesis
    by (simp add: Analyze_def analyzeUpsize_def Let_def sampleSpike_def sampleInput_def)
qed

text \<open>C18: the recommendation for a VM with at least one core and one GiB lies in its bounds and reports exactly the
  difference to the current size as savings. A downsize stays between one and the current size in both
  dimensions, meets both minimum-savings thresholds, and is made only when no metric reaches the upsize
  threshold. An upsize shrinks neither dimension, grows at least one by its minimum, and is made only when some
  metric, P95 or maximum, reaches the threshold.\<close>

theorem analyze_sound:
  assumes "Analyze oor inp = Some r" and "input_ok inp"
    and "1 \<le> inCurrentCPUCores inp" and "1 \<le> inCurrentMemoryGiB inp"
  shows "CPUSavings r = inCurrentCPUCores inp - RecommendedCPUCores r \<and>
    MemorySavings r = inCurrentMemoryGiB inp - RecommendedMemoryGiB r \<and>
    (resDirection r = Downsize \<and> \<not> upsizeNeeded inp \<and>
       1 \<le> RecommendedCPUCores r \<and> RecommendedCPUCores r \<le> inCurrentCPUCores inp \<and>
       1 \<le> RecommendedMemoryGiB r \<and> RecommendedMemoryGiB r \<le> inCurrentMemoryGiB inp \<and>
       inMinCPUSavings inp \<le> CPUSavings r \<and> inMinMemorySavingsGiB inp \<le> MemorySavings r \<or>
     resDirection r = Upsize \<and> upsizeNeeded inp \<and>
       inCurrentCPUCores inp \<le> RecommendedCPUCores r \<and> inCurrentMemoryGiB inp \<le> RecommendedMemoryGiB r \<and>
       (inMinCPUSavings inp \<le> RecommendedCPUCores r - inCurrentCPUCores inp \<or>
        inMinMemorySavingsGiB inp \<le> RecommendedMemoryGiB r - inCurrentMemoryGiB inp))"
proof -
  consider "resDirection r = Downsize" | "resDirection r = Upsize" using Analyze_direction[OF assms(1)] by auto
  then show ?thesis
    using downsize_bounds[OF assms(1) _ assms(2-4)] upsize_bounds[OF assms(1) _ assms(2)] assms(3,4) by cases simp_all
qed

theorem analyze_sound_witness:
  "(\<exists>r. Analyze (\<lambda>_. 0) sampleInput = Some r \<and> resDirection r = Downsize \<and> 1 \<le> RecommendedCPUCores r \<and>
     RecommendedCPUCores r \<le> 8 \<and> CPUSavings r = 8 - RecommendedCPUCores r) \<and>
   (\<exists>r. Analyze (\<lambda>_. 0) sampleSpike = Some r \<and> resDirection r = Upsize \<and> 8 \<le> RecommendedCPUCores r \<and>
     CPUSavings r = 8 - RecommendedCPUCores r \<and> upsizeNeeded sampleSpike)"
proof -
  obtain r where r: "Analyze (\<lambda>_. 0) sampleInput = Some r" "resDirection r = Downsize" using sampleInput_downsizes by blast
  obtain s where s: "Analyze (\<lambda>_. 0) sampleSpike = Some s" "resDirection s = Upsize" using sampleSpike_upsizes by blast
  have cur: "inCurrentCPUCores sampleInput = 8" "inCurrentMemoryGiB sampleInput = 16"
    "inCurrentCPUCores sampleSpike = 8" "inCurrentMemoryGiB sampleSpike = 16" by (simp_all add: sampleSpike_def sampleInput_def)
  have ok: "input_ok sampleInput" "input_ok sampleSpike"
    by (simp_all add: sampleSpike_def sampleInput_def input_ok_def is_i32_def)
  show ?thesis using analyze_sound[OF r(1) ok(1)] analyze_sound[OF s(1) ok(2)] r s by (simp add: cur)
qed

text \<open>C19: when no metric reaches the upsize threshold, the analysis downsizes exactly where the exact
  arithmetic allows it: a recommendation covers the observed P95 usage plus the configured headroom in
  both dimensions unless that need exceeds the current size, which is then kept, and is at most that
  need rounded up to a whole unit; without one, the size rounded up misses a savings threshold. Both up
  to the rounding of five float64 operations.\<close>

theorem downsize_fits_usage:
  assumes "\<not> upsizeNeeded inp" and "input_ok inp"
    and "1 \<le> inCurrentCPUCores inp" "inCurrentCPUCores inp \<le> 2 ^ 20"
    and "1 \<le> inCurrentMemoryGiB inp" "inCurrentMemoryGiB inp \<le> 2 ^ 20"
    and "inCPUP95Percent inp = Fin p" "0 \<le> p" "p \<le> 100"
    and "inMemoryP95Percent inp = Fin q" "0 \<le> q" "q \<le> 100"
    and "0 \<le> inHeadroomPercent inp" "inHeadroomPercent inp \<le> 100000"
  shows "case Analyze oor inp of
      Some r \<Rightarrow> resDirection r = Downsize \<and>
        min (of_int (inCurrentCPUCores inp))
          ((1 - unit_roundoff) ^ 5 * exactNeed (inHeadroomPercent inp) (inCurrentCPUCores inp) p)
          \<le> of_int (RecommendedCPUCores r) \<and>
        min (of_int (inCurrentMemoryGiB inp))
          ((1 - unit_roundoff) ^ 5 * exactNeed (inHeadroomPercent inp) (inCurrentMemoryGiB inp) q)
          \<le> of_int (RecommendedMemoryGiB r) \<and>
        RecommendedCPUCores r \<le> needAtMost (inHeadroomPercent inp) (inCurrentCPUCores inp) p \<and>
        RecommendedMemoryGiB r \<le> needAtMost (inHeadroomPercent inp) (inCurrentMemoryGiB inp) q
    | None \<Rightarrow>
        inCurrentCPUCores inp - needAtMost (inHeadroomPercent inp) (inCurrentCPUCores inp) p < inMinCPUSavings inp \<or>
        inCurrentMemoryGiB inp - needAtMost (inHeadroomPercent inp) (inCurrentMemoryGiB inp) q < inMinMemorySavingsGiB inp"
proof -
  let ?h = "inHeadroomPercent inp"
  let ?c = "clampDown (inCurrentCPUCores inp) (headroomSize oor ?h (inCurrentCPUCores inp) (Fin p))"
  let ?m = "clampDown (inCurrentMemoryGiB inp) (headroomSize oor ?h (inCurrentMemoryGiB inp) (Fin q))"
  have tight: "?c \<le> needAtMost ?h (inCurrentCPUCores inp) p" "?m \<le> needAtMost ?h (inCurrentMemoryGiB inp) q"
    using assms by (auto intro: headroomSize_tight)
  show ?thesis
  proof (cases "Analyze oor inp")
    case None
    have "i32 (inCurrentCPUCores inp - ?c) = inCurrentCPUCores inp - ?c"
      "i32 (inCurrentMemoryGiB inp - ?m) = inCurrentMemoryGiB inp - ?m"
      using assms(2,3,5) by (simp_all add: input_ok_def clampDown_savings)
    then show ?thesis using None assms(1,7,10) tight
      by (auto simp: Analyze_def analyzeDownsize_def Let_def split: if_splits)
  next
    case (Some r)
    then have down: "resDirection r = Downsize" "analyzeDownsize oor inp = Some r"
      using Analyze_direction[OF Some] assms(1) by auto
    note D = analyzeDownsize_SomeD(1,2)[OF down(2)]
    show ?thesis unfolding Some option.case D assms(7,10) using assms down tight
      by (intro conjI headroomSize_covers) auto
  qed
qed

theorem downsize_fits_usage_witness:
  "\<exists>r. Analyze (\<lambda>_. 0) sampleInput = Some r \<and>
    min 8 ((1 - unit_roundoff) ^ 5 * exactNeed 100 8 25) \<le> of_int (RecommendedCPUCores r) \<and>
    RecommendedCPUCores r \<le> needAtMost 100 8 25"
proof -
  obtain r where r: "Analyze (\<lambda>_. 0) sampleInput = Some r"
    using sampleInput_downsizes by blast
  have "case Analyze (\<lambda>_. 0) sampleInput of Some r \<Rightarrow>
      min (of_int (inCurrentCPUCores sampleInput)) ((1 - unit_roundoff) ^ 5 *
        exactNeed (inHeadroomPercent sampleInput) (inCurrentCPUCores sampleInput) 25)
        \<le> of_int (RecommendedCPUCores r) \<and>
      RecommendedCPUCores r \<le> needAtMost (inHeadroomPercent sampleInput) (inCurrentCPUCores sampleInput) 25
    | None \<Rightarrow> True"
    using downsize_fits_usage[of sampleInput 25 25 "\<lambda>_. 0"]
    by (simp add: r) (simp add: sampleInput_def upsizeNeeded_def input_ok_def is_i32_def)
  then show ?thesis using r(1) by (simp add: sampleInput_def)
qed

text \<open>C20: when some metric reaches the upsize threshold, a recommendation brings the larger of P95 and
  maximum usage to at most 70 percent of the recommended size in both dimensions, with sizes no larger
  than that needs (or than the current ones); without one, in both dimensions a step smaller than the
  configured minimum already suffices. Both up to float64 rounding.\<close>

theorem upsize_fits_usage:
  assumes "upsizeNeeded inp" and "input_ok inp"
    and "1 \<le> inCurrentCPUCores inp" "inCurrentCPUCores inp \<le> 2 ^ 20"
    and "1 \<le> inCurrentMemoryGiB inp" "inCurrentMemoryGiB inp \<le> 2 ^ 20"
    and "inCPUP95Percent inp = Fin p" "inCPUMaxPercent inp = Fin m"
    and "inMemoryP95Percent inp = Fin p'" "inMemoryMaxPercent inp = Fin m'"
    and "0 \<le> p" "p \<le> 1000" "0 \<le> m" "m \<le> 1000" "0 \<le> p'" "p' \<le> 1000" "0 \<le> m'" "m' \<le> 1000"
  shows "case Analyze oor inp of
      Some r \<Rightarrow> resDirection r = Upsize \<and>
        reaches70 (inCurrentCPUCores inp) (max p m) (RecommendedCPUCores r) \<and>
        reaches70 (inCurrentMemoryGiB inp) (max p' m') (RecommendedMemoryGiB r) \<and>
        RecommendedCPUCores r \<le> targetAtMost (inCurrentCPUCores inp) (max p m) \<and>
        RecommendedMemoryGiB r \<le> targetAtMost (inCurrentMemoryGiB inp) (max p' m')
    | None \<Rightarrow>
        reaches70 (inCurrentCPUCores inp) (max p m) (inCurrentCPUCores inp + inMinCPUSavings inp - 1) \<and>
        reaches70 (inCurrentMemoryGiB inp) (max p' m') (inCurrentMemoryGiB inp + inMinMemorySavingsGiB inp - 1)"
proof -
  let ?c = "clampUp (inCurrentCPUCores inp) (targetSize oor (inCurrentCPUCores inp) (Fin (max p m)))"
  let ?m = "clampUp (inCurrentMemoryGiB inp) (targetSize oor (inCurrentMemoryGiB inp) (Fin (max p' m')))"
  have cover: "reaches70 (inCurrentCPUCores inp) (max p m) ?c" "reaches70 (inCurrentMemoryGiB inp) (max p' m') ?m"
    using assms by (auto intro!: targetSize_covers)
  have tight: "?c \<le> targetAtMost (inCurrentCPUCores inp) (max p m)" "?m \<le> targetAtMost (inCurrentMemoryGiB inp) (max p' m')"
    using assms by (auto intro!: targetSize_tight)
  show ?thesis
  proof (cases "Analyze oor inp")
    case None
    have "is_i32 ?c" "is_i32 ?m" using assms(2) by (auto simp: input_ok_def intro: is_i32_clampUp)
    moreover have "inCurrentCPUCores inp \<le> ?c" "inCurrentMemoryGiB inp \<le> ?m" by (rule clampUp_ge)+
    ultimately have "i32 (?c - inCurrentCPUCores inp) = ?c - inCurrentCPUCores inp"
      "i32 (?m - inCurrentMemoryGiB inp) = ?m - inCurrentMemoryGiB inp"
      using assms(3,5) by (auto simp: is_i32_def)
    then show ?thesis using None assms(1,7-10)
      by (auto simp: Analyze_def analyzeUpsize_def Let_def intro!: cover[THEN reaches70_mono] split: if_splits)
  next
    case (Some r)
    then have up: "resDirection r = Upsize" "analyzeUpsize oor inp = Some r"
      using Analyze_direction[OF Some] assms(1) by auto
    note D = analyzeUpsize_SomeD(1,2)[OF up(2)]
    show ?thesis unfolding Some option.case D assms(7-10) fMax_Fin using up cover tight by simp
  qed
qed

theorem upsize_fits_usage_witness:
  "\<exists>r. Analyze (\<lambda>_. 0) sampleSpike = Some r \<and> reaches70 8 100 (RecommendedCPUCores r) \<and>
    RecommendedCPUCores r \<le> targetAtMost 8 100"
proof -
  obtain r where r: "Analyze (\<lambda>_. 0) sampleSpike = Some r"
    using sampleSpike_upsizes by blast
  have "case Analyze (\<lambda>_. 0) sampleSpike of Some r \<Rightarrow>
      reaches70 (inCurrentCPUCores sampleSpike) (max 25 100) (RecommendedCPUCores r) \<and>
      RecommendedCPUCores r \<le> targetAtMost (inCurrentCPUCores sampleSpike) (max 25 100)
    | None \<Rightarrow> True"
    using upsize_fits_usage[of sampleSpike 25 100 25 50 "\<lambda>_. 0"]
    by (simp add: r) (simp add: sampleSpike_def sampleInput_def upsizeNeeded_def input_ok_def is_i32_def)
  then show ?thesis using r(1) by (simp add: sampleSpike_def sampleInput_def)
qed

text \<open>C23: for a percentile between 0 and 100 of non-negative samples the computation never indexes outside
  the samples and returns the linear interpolation of the sorted samples at the rank
  \<open>p / 100 * (n - 1)\<close>: the rank is exact up to two roundings, the value lies at or above the lower
  neighbour, exceeds the upper one by rounding only, and is within eight roundoffs of the exact interpolation.\<close>

theorem percentile_interpolates:
  assumes "xs \<noteq> []" and "0 \<le> p" "p \<le> 100" and "int (length xs) \<le> 2 ^ 53"
    and "\<And>x. x \<in> set xs \<Longrightarrow> round64 x = x \<and> 0 \<le> x \<and> x \<le> 2 ^ 52"
  shows "\<exists>v r. ComputePercentile oor (map Fin xs) p = Some (Fin v) \<and> nearRank p (int (length xs) - 1) r \<and>
    sort xs ! nat \<lfloor>r\<rfloor> \<le> v \<and> v \<le> (1 + unit_roundoff) ^ 2 * sort xs ! nat \<lceil>r\<rceil> \<and>
    \<bar>v - interpolated (sort xs) r\<bar> \<le> 8 * unit_roundoff * max (sort xs ! nat \<lceil>r\<rceil>) min_normal"
  using ComputePercentile_interpolates[OF assms] unfolding nearInterpolation_def by metis

theorem percentile_interpolates_witness:
  "\<exists>v r. ComputePercentile (\<lambda>_. 0) [Fin 30, Fin 10, Fin 20] 95 = Some (Fin v) \<and> nearRank 95 2 r \<and>
    [10, 20, 30] ! nat \<lfloor>r\<rfloor> \<le> v \<and>
    \<bar>v - interpolated [10, 20, 30] r\<bar> \<le> 8 * unit_roundoff * max ([10, 20, 30] ! nat \<lceil>r\<rceil>) min_normal"
proof -
  have "round64 30 = 30" "round64 10 = 10" "round64 20 = 20"
    using round64_of_int[of 30] round64_of_int[of 10] round64_of_int[of 20] by simp_all
  then have S: "round64 x = x \<and> 0 \<le> x \<and> x \<le> 2 ^ 52" if "x \<in> set [30, 10, 20]" for x
    using that by auto
  show ?thesis using percentile_interpolates[of "[30, 10, 20]" 95 "\<lambda>_. 0", OF _ _ _ _ S] by auto
qed

text \<open>A product of at least \<open>2 ^ 31\<close> does not fit \<open>int32\<close>, so its conversion is the implementation's.\<close>

lemma f_to_i32_beyond: "2 ^ 31 \<le> x \<Longrightarrow> \<exists>y. f_to_i32 oor (Ceil (f_of_rat x)) = i32 (oor y)"
proof -
  assume "2 ^ 31 \<le> x"
  then have "of_int (2 ^ 31) \<le> round64 x" by (intro r64.rnd_ge_int) simp_all
  then have "2 ^ 31 \<le> \<lceil>round64 x\<rceil>" by (simp add: le_ceiling_iff)
  then have "\<not> is_i32 (trunc_rat (of_int \<lceil>round64 x\<rceil>))" by (simp add: is_i32_def trunc_rat_def)
  then show ?thesis by (auto simp: f_of_rat_def Let_def Ceil_def)
qed

lemma headroomSize_beyond:
  assumes c: "0 \<le> c" "c \<le> 2 ^ 20" and p: "0 \<le> p" "p \<le> 100" and h: "0 \<le> h" "h \<le> 2 ^ 53"
    and need: "2 ^ 32 \<le> exactNeed h c p"
  shows "\<exists>x. headroomSize oor h c (Fin p) = i32 (oor x)"
proof -
  let ?cp = "of_int c * p / 100 :: rat" and ?u = "1 - unit_roundoff" and ?k = "1 + of_int h / 100 :: rat"
  obtain b where b: "fdiv (fmul (f_of_int c) (Fin p)) (f_of_int 100) = Fin b" "2 * min_normal \<le> ?cp \<Longrightarrow> ?u ^ 2 * ?cp \<le> b"
      "0 \<le> b" using usage_bounds[of c p 1] c p by auto
  obtain m where m: "fadd (f_of_int 1) (fdiv (f_of_int h) (f_of_int 100)) = Fin m" "1 \<le> m" "?u ^ 2 * ?k \<le> m"
    using multiplier_bounds[of h "2 ^ 52"] h by auto
  have h': "(of_int h :: rat) \<le> of_int (2 ^ 53)" using h by (simp only: of_int_le_iff)
  then have k: "0 \<le> ?k" "?k \<le> 2 ^ 52" using h(1) by simp_all
  have cp: "0 \<le> ?cp" using c p by simp
  have "2 ^ 32 \<le> ?cp * 2 ^ 52" using order_trans[OF need[unfolded exactNeed_def] mult_left_mono[OF k(2) cp]] .
  then have "1 / 2 ^ 20 \<le> ?cp" by (simp add: mult.commute)
  then have "2 * min_normal \<le> ?cp" by (rule order_trans[rotated]) (simp add: min_normal_def)
  note b2 = b(2)[OF this]
  have u: "0 \<le> ?u" "7 / 8 \<le> ?u" by (simp_all add: unit_roundoff_def)
  have "1 / 2 \<le> ?u ^ 4" using power_mono[OF u(2), of 4] by (simp add: power_divide)
  then have "1 / 2 * 2 ^ 32 \<le> ?u ^ 4 * exactNeed h c p" using need by (intro mult_mono) auto
  also have "\<dots> = (?u ^ 2 * ?cp) * (?u ^ 2 * ?k)"
    by (simp add: exactNeed_def power_numeral_reduce mult.assoc mult.left_commute)
  also have "\<dots> \<le> b * m" using b2 b(3) m(3) cp k(1) u(1) by (intro mult_mono) auto
  finally have "2 ^ 31 \<le> b * m" by simp
  from f_to_i32_beyond[OF this, of oor] show ?thesis using b(1) m(1) by (simp add: headroomSize_def Let_def)
qed

text \<open>C40: the headroom has no upper bound, and a size beyond \<open>int32\<close> is converted to an
  implementation-defined value. Where that value is not positive (the least \<open>int32\<close> on amd64), a VM
  whose usage plus headroom comes to \<open>2 ^ 32\<close> units or more in both dimensions is recommended down to one
  core and one gibibyte, as long as the savings thresholds allow such a step.\<close>

theorem downsize_headroom_overflow:
  assumes "\<And>x. i32 (oor x) \<le> 0" and "\<not> upsizeNeeded inp" and "input_ok inp"
    and "1 \<le> inCurrentCPUCores inp" "inCurrentCPUCores inp \<le> 2 ^ 20"
    and "1 \<le> inCurrentMemoryGiB inp" "inCurrentMemoryGiB inp \<le> 2 ^ 20"
    and "inCPUP95Percent inp = Fin p" "0 \<le> p" "p \<le> 100"
    and "inMemoryP95Percent inp = Fin q" "0 \<le> q" "q \<le> 100"
    and "0 \<le> inHeadroomPercent inp" "inHeadroomPercent inp \<le> 2 ^ 53"
    and "2 ^ 32 \<le> exactNeed (inHeadroomPercent inp) (inCurrentCPUCores inp) p"
    and "2 ^ 32 \<le> exactNeed (inHeadroomPercent inp) (inCurrentMemoryGiB inp) q"
    and "inMinCPUSavings inp \<le> inCurrentCPUCores inp - 1" "inMinMemorySavingsGiB inp \<le> inCurrentMemoryGiB inp - 1"
  shows "\<exists>r. Analyze oor inp = Some r \<and> resDirection r = Downsize \<and>
    RecommendedCPUCores r = 1 \<and> RecommendedMemoryGiB r = 1 \<and>
    CPUSavings r = inCurrentCPUCores inp - 1 \<and> MemorySavings r = inCurrentMemoryGiB inp - 1"
proof -
  let ?h = "inHeadroomPercent inp"
  obtain x y where "headroomSize oor ?h (inCurrentCPUCores inp) (Fin p) = i32 (oor x)"
      "headroomSize oor ?h (inCurrentMemoryGiB inp) (Fin q) = i32 (oor y)"
    using headroomSize_beyond[of "inCurrentCPUCores inp" p ?h oor] headroomSize_beyond[of "inCurrentMemoryGiB inp" q ?h oor] assms(4-17)
    by auto
  then have "clampDown (inCurrentCPUCores inp) (headroomSize oor ?h (inCurrentCPUCores inp) (Fin p)) = 1"
    "clampDown (inCurrentMemoryGiB inp) (headroomSize oor ?h (inCurrentMemoryGiB inp) (Fin q)) = 1"
    using assms(1)[of x] assms(1)[of y] assms(4,6) by (simp_all add: clampDown_eq)
  moreover have "i32 (inCurrentCPUCores inp - 1) = inCurrentCPUCores inp - 1" "i32 (inCurrentMemoryGiB inp - 1) = inCurrentMemoryGiB inp - 1"
    using assms(4,5,6,7) by (simp_all add: i32_def)
  ultimately show ?thesis using assms(2,8,11,18,19) by (simp add: Analyze_def analyzeDownsize_def Let_def)
qed

theorem downsize_headroom_overflow_witness:
  "\<exists>r. Analyze (\<lambda>_. - (2 ^ 31)) (sampleInput\<lparr>inCPUP95Percent := Fin 50, inMemoryP95Percent := Fin 50,
      inHeadroomPercent := 10 ^ 12\<rparr>) = Some r \<and> resDirection r = Downsize \<and> RecommendedCPUCores r = 1 \<and> RecommendedMemoryGiB r = 1 \<and>
    CPUSavings r = 7 \<and> MemorySavings r = 15"
  using downsize_headroom_overflow[of "\<lambda>_. - (2 ^ 31)" "sampleInput\<lparr>inCPUP95Percent := Fin 50, inMemoryP95Percent := Fin 50,
      inHeadroomPercent := 10 ^ 12\<rparr>" 50 50]
  by (simp add: sampleInput_def upsizeNeeded_def input_ok_def is_i32_def i32_def exactNeed_def)

end
