(* ===== verification/Recommendation_Controller.thy ===== *)
theory Recommendation_Controller
  imports Workflow Calculator
begin

text \<open>
  The recommendation controller (\<open>internal/controller/rightsizingrecommendation_controller.go\<close>).
  \<open>Reconcile\<close> is one function in the source; here it is cut into the parts of its body, in
  order: the policy, the VM, the assessment of its utilization, the creation or update of the
  recommendation, and \<open>autoApply\<close>. A part that returns early yields \<open>Inl\<close> with the result.

  The names of Kubernetes objects are ASCII, so \<open>demoDirection\<close> sums bytes.
\<close>

record VMUtilization =
  CurrentCPUCores :: int
  CurrentMemoryGiB :: int
  UtilCPUP95 :: float64
  UtilMemoryP95 :: float64
  UtilCPUMax :: float64
  UtilMemoryMax :: float64
  DataPoints :: int

record ('w, 'o, 'q) RightsizingRecommendationReconciler =
  RecClient :: "('w, 'o, 'q) client"
  PromClient :: "string \<Rightarrow> string \<Rightarrow> int \<Rightarrow> int \<Rightarrow> int \<Rightarrow> ('w, string + VMUtilization) state"
  RecDemoMode :: bool
  RecApplier :: "('w, 'o) Applier option"
  RecOwnerResolver :: "('w, 'o, 'q) client option"
  RecTokenManager :: "TokenManager option"
  RecNotifier :: "'w Dispatcher option"
  RecApprovalRouteHost :: string

section \<open>The VM and the demo data\<close>

definition vmCores :: "'o unstructured \<Rightarrow> 'o \<Rightarrow> int" where
  "vmCores U vm =
    (case NestedInt64 U vm [''spec'', ''template'', ''spec'', ''domain'', ''cpu'', ''cores''] of
       Some cores \<Rightarrow> i32 cores | None \<Rightarrow> 0)"

definition vmMemoryGiB :: "'q quantity_lib \<Rightarrow> 'o unstructured \<Rightarrow> 'o \<Rightarrow> int" where
  "vmMemoryGiB Q U vm =
    (case (case NestedString U vm [''spec'', ''template'', ''spec'', ''domain'', ''resources'', ''requests'', ''memory''] of
             Some memStr \<Rightarrow> Some memStr
           | None \<Rightarrow> NestedString U vm [''spec'', ''template'', ''spec'', ''domain'', ''memory'', ''guest'']) of
       None \<Rightarrow> 0
     | Some memStr \<Rightarrow> (case ParseQuantity Q memStr of None \<Rightarrow> 0 | Some q \<Rightarrow> gib Q q))"

definition getVM :: "('w, 'o, 'q) lib \<Rightarrow> ('w, 'o, 'q) RightsizingRecommendationReconciler \<Rightarrow> string \<Rightarrow> string \<Rightarrow>
    ('w, string + ('o \<times> int \<times> int)) state" where
  "getVM L R name namespace = do {
     r \<leftarrow> getVMObject (RecClient R) namespace name;
     ret (case r of
       Inl err \<Rightarrow> Inl (''fetching VM: '' @ errorText err)
     | Inr vm \<Rightarrow> Inr (vm, vmCores (Unstructured L) vm, vmMemoryGiB (Quantities L) (Unstructured L) vm))
   }"

definition demoDirection :: "string \<Rightarrow> string" where
  "demoDirection vmName =
    (if even (sum_list (map (\<lambda>c. of_char c :: nat) vmName)) then DirectionDownsize else DirectionUpsize)"

definition demoRecommendedCPU :: "int \<Rightarrow> string \<Rightarrow> int" where
  "demoRecommendedCPU current vmName =
    (if demoDirection vmName = DirectionDownsize
     then (let rec = current sdiv 2 in if rec < 1 then 1 else rec)
     else i32 (current * 2))"

definition demoRecommendedMem :: "int \<Rightarrow> string \<Rightarrow> int" where
  "demoRecommendedMem current vmName =
    (if demoDirection vmName = DirectionDownsize
     then (let rec = current sdiv 2 in if rec < 1 then 1 else rec)
     else i32 (current * 2))"

definition demoUtilization :: "int \<Rightarrow> int \<Rightarrow> string \<Rightarrow> VMUtilization" where
  "demoUtilization cpuCores memoryGiB vmName =
    (if demoDirection vmName = DirectionDownsize
     then \<lparr>CurrentCPUCores = cpuCores, CurrentMemoryGiB = memoryGiB, UtilCPUP95 = Fin 25,
       UtilMemoryP95 = Fin 30, UtilCPUMax = Fin 45, UtilMemoryMax = Fin 50, DataPoints = 20160\<rparr>
     else \<lparr>CurrentCPUCores = cpuCores, CurrentMemoryGiB = memoryGiB, UtilCPUP95 = Fin 92,
       UtilMemoryP95 = Fin 88, UtilCPUMax = Fin 98, UtilMemoryMax = Fin 95, DataPoints = 20160\<rparr>)"

definition demoResult :: "int \<Rightarrow> int \<Rightarrow> string \<Rightarrow> AnalysisResult" where
  "demoResult cpuCores memoryGiB vmName =
    (let cpu = demoRecommendedCPU cpuCores vmName; mem = demoRecommendedMem memoryGiB vmName in
     \<lparr>resDirection = demoDirection vmName, RecommendedCPUCores = cpu, RecommendedMemoryGiB = mem,
      CPUSavings = i32 (cpuCores - cpu), MemorySavings = i32 (memoryGiB - mem), resReason = []\<rparr>)"

definition abs32 :: "int \<Rightarrow> int" where
  "abs32 n = (if n < 0 then i32 (- n) else n)"

definition round1 :: "float64 \<Rightarrow> float64" where
  "round1 v = fdiv (Round (fmul v (Fin 10))) (Fin 10)"

section \<open>Assessment\<close>

text \<open>\<open>Skip del\<close>: the reconciliation ends here, after deleting an existing recommendation if
  \<open>del\<close>.\<close>

datatype assessment = Skip bool | Assessed AnalysisResult VMUtilization

definition analysisInput :: "'q quantity_lib \<Rightarrow> 'q RightsizingPolicySpec \<Rightarrow> VMUtilization \<Rightarrow> AnalysisInput" where
  "analysisInput Q ps u =
    \<lparr>inCurrentCPUCores = CurrentCPUCores u, inCurrentMemoryGiB = CurrentMemoryGiB u,
     inCPUP95Percent = UtilCPUP95 u, inMemoryP95Percent = UtilMemoryP95 u,
     inCPUMaxPercent = UtilCPUMax u, inMemoryMaxPercent = UtilMemoryMax u,
     inHeadroomPercent = HeadroomPercent (Algorithm ps),
     inMinCPUSavings = MinCPUSavings (Thresholds ps),
     inMinMemorySavingsGiB = gib Q (MinMemorySavings (Thresholds ps)),
     inUpsizeThresholdPct = UpsizeUtilizationPercent (Thresholds ps),
     inLookbackDays = LookbackDays ps\<rparr>"

definition minDataPoints :: int where "minDataPoints = 7 * 24 * 60 div 2"

definition assessVM :: "('w, 'o, 'q) lib \<Rightarrow> ('w, 'o, 'q) RightsizingRecommendationReconciler \<Rightarrow>
    'q RightsizingPolicySpec \<Rightarrow> string \<Rightarrow> string \<Rightarrow> int \<Rightarrow> int \<Rightarrow> ('w, assessment) state" where
  "assessVM L R ps name namespace cpuCores memoryGiB =
    (if RecDemoMode R
     then ret (Assessed (demoResult cpuCores memoryGiB name) (demoUtilization cpuCores memoryGiB name))
     else do {
       r \<leftarrow> PromClient R name namespace (LookbackDays ps) cpuCores (i64 (memoryGiB * 2 ^ 30));
       ret (case r of
         Inl err \<Rightarrow> Skip False
       | Inr u \<Rightarrow>
           if DataPoints u < minDataPoints then Skip True
           else (let u' = u\<lparr>CurrentCPUCores := cpuCores, CurrentMemoryGiB := memoryGiB\<rparr> in
             case Analyze (Oor L) (analysisInput (Quantities L) ps u') of
               None \<Rightarrow> Skip True
             | Some result \<Rightarrow> Assessed result u'))
     })"

section \<open>The recommendation object\<close>

text \<open>\<open>resource.MustParse(fmt.Sprintf("%dGi", n))\<close>, a panic where it does not parse.\<close>

definition gibQuantity :: "'q quantity_lib \<Rightarrow> int \<Rightarrow> 'q option" where
  "gibQuantity Q n = ParseQuantity Q (show_int n @ ''Gi'')"

definition snapshot :: "'q RightsizingPolicySpec \<Rightarrow> VMUtilization \<Rightarrow> MetricsSnapshot" where
  "snapshot ps u = \<lparr>SnapLookbackDays = LookbackDays ps, CPUP95Percent = round1 (UtilCPUP95 u),
     MemoryP95Percent = round1 (UtilMemoryP95 u), CPUMaxPercent = round1 (UtilCPUMax u),
     MemoryMaxPercent = round1 (UtilMemoryMax u)\<rparr>"

definition cpuSpec :: "int \<Rightarrow> CPUSpec" where
  "cpuSpec cores = \<lparr>Cores = cores, Sockets = 1, Threads = 1\<rparr>"

definition newSpec :: "'q quantity_lib \<Rightarrow> 'q RightsizingPolicySpec \<Rightarrow> string \<Rightarrow> string \<Rightarrow> int \<Rightarrow> int \<Rightarrow>
    AnalysisResult \<Rightarrow> VMUtilization \<Rightarrow> 'q RightsizingRecommendationSpec option" where
  "newSpec Q ps name namespace cpuCores memoryGiB result u =
    (case (gibQuantity Q memoryGiB, gibQuantity Q (RecommendedMemoryGiB result),
           gibQuantity Q (abs32 (MemorySavings result))) of
       (Some cur, Some recm, Some sav) \<Rightarrow> Some
         \<lparr>VirtualMachineRef = \<lparr>RefName = name, RefNamespace = namespace\<rparr>,
          Direction = resDirection result,
          Current = \<lparr>CPU = cpuSpec cpuCores, Memory = cur\<rparr>,
          Recommended = \<lparr>CPU = cpuSpec (RecommendedCPUCores result), Memory = recm\<rparr>,
          Savings = \<lparr>SavingsCPU = CPUSavings result, SavingsMemory = sav\<rparr>,
          Metrics = snapshot ps u,
          HotplugCapable = False,
          Reason = resReason result\<rparr>
     | _ \<Rightarrow> None)"

definition updatedSpec :: "'q quantity_lib \<Rightarrow> 'q RightsizingPolicySpec \<Rightarrow> AnalysisResult \<Rightarrow> VMUtilization \<Rightarrow>
    'q RightsizingRecommendationSpec \<Rightarrow> 'q RightsizingRecommendationSpec option" where
  "updatedSpec Q ps result u sp =
    (case (gibQuantity Q (RecommendedMemoryGiB result), gibQuantity Q (abs32 (MemorySavings result))) of
       (Some recm, Some sav) \<Rightarrow> Some (sp
         \<lparr>Direction := resDirection result,
          Recommended := \<lparr>CPU = cpuSpec (RecommendedCPUCores result), Memory = recm\<rparr>,
          Savings := \<lparr>SavingsCPU = CPUSavings result, SavingsMemory = sav\<rparr>,
          Metrics := snapshot ps u,
          Reason := resReason result\<rparr>)
     | _ \<Rightarrow> None)"

definition createNew :: "('w, 'o, 'q) RightsizingRecommendationReconciler \<Rightarrow> time \<Rightarrow> string \<Rightarrow> string \<Rightarrow>
    'q RightsizingRecommendationSpec option \<Rightarrow> ('w, reconcile_result + 'q recommendation) state" where
  "createNew R now name namespace osp = (case osp of
      None \<Rightarrow> ret (Inl Panicked)
    | Some sp \<Rightarrow> do {
        r \<leftarrow> createRec (RecClient R) \<lparr>Name = ''vm-'' @ name, Namespace = namespace,
          ResourceVersion = 0, Spec = sp, Status = emptyStatus\<rparr>;
        case r of
          Inl err \<Rightarrow> ret (Inl (Error (''creating recommendation: '' @ errorText err)))
        | Inr rec \<Rightarrow> do {
            r2 \<leftarrow> updateRecStatus (RecClient R)
              (updStatus (\<lambda>s. s\<lparr>State := StatePending, LastCalculated := Some now\<rparr>) rec);
            ret (case r2 of
              Inl err \<Rightarrow> Inl (Error (''updating recommendation status: '' @ errorText err))
            | Inr rec2 \<Rightarrow> Inr rec2)
          }
      })"

text \<open>Reminder and expiry of an approval request.\<close>

definition followUpApproval :: "('w, 'o, 'q) lib \<Rightarrow> ('w, 'o, 'q) RightsizingRecommendationReconciler \<Rightarrow>
    'q recommendation \<Rightarrow> ('w, reconcile_result + 'q recommendation) state" where
  "followUpApproval L R rec =
    (if recState rec \<noteq> StateAwaitingApproval then ret (Inr rec)
     else (case NotifiedAt (Status rec) of
         None \<Rightarrow> ret (Inr rec)
       | Some notifiedAt \<Rightarrow> do {
           t \<leftarrow> Now L;
           let elapsed = timeSub t notifiedAt in
           if 14 * 24 * Hour < elapsed then do {
             r \<leftarrow> updateRecStatus (RecClient R)
               (updStatus (\<lambda>s. s\<lparr>State := StatePending, Owner := [], ApprovalToken := [],
                  NotifiedAt := None, ReminderSentAt := None\<rparr>) rec);
             ret (case r of
               Inl err \<Rightarrow> Inl (Error (''resetting expired approval: '' @ errorText err))
             | Inr rec2 \<Rightarrow> Inr rec2)
           } else if 7 * 24 * Hour < elapsed \<and> ReminderSentAt (Status rec) = None then do {
             _ \<leftarrow> (case RecNotifier R of
                 None \<Rightarrow> ret []
               | Some d \<Rightarrow> SendAllExcept d
                   (notificationFor (Quantities L) rec (Owner (Status rec))
                     (approvalURL (RecApprovalRouteHost R) (ApprovalToken (Status rec))))
                   [''servicenow'']);
             now \<leftarrow> Now L;
             r \<leftarrow> updateRecStatus (RecClient R) (updStatus (\<lambda>s. s\<lparr>ReminderSentAt := Some now\<rparr>) rec);
             ret (case r of
               Inl err \<Rightarrow> Inl (Error (''updating reminder status: '' @ errorText err))
             | Inr rec2 \<Rightarrow> Inr rec2)
           } else ret (Inr rec)
         }))"

definition writeUpdate :: "('w, 'o, 'q) RightsizingRecommendationReconciler \<Rightarrow> time \<Rightarrow> 'q recommendation \<Rightarrow>
    'q RightsizingRecommendationSpec \<Rightarrow> ('w, reconcile_result + 'q recommendation) state" where
  "writeUpdate R now rec sp = do {
     r \<leftarrow> updateRec (RecClient R) (rec\<lparr>Spec := sp\<rparr>);
     case r of
       Inl err \<Rightarrow> ret (Inl (Error (''updating recommendation: '' @ errorText err)))
     | Inr rec1 \<Rightarrow> do {
         r2 \<leftarrow> updateRecStatus (RecClient R) (updStatus (\<lambda>s. s\<lparr>LastCalculated := Some now\<rparr>) rec1);
         ret (case r2 of
           Inl err \<Rightarrow> Inl (Error (''updating recommendation status: '' @ errorText err))
         | Inr rec2 \<Rightarrow> Inr rec2)
       }
   }"

definition updateExisting :: "('w, 'o, 'q) lib \<Rightarrow> ('w, 'o, 'q) RightsizingRecommendationReconciler \<Rightarrow>
    time \<Rightarrow> time \<Rightarrow> 'q RightsizingPolicySpec \<Rightarrow> AnalysisResult \<Rightarrow> VMUtilization \<Rightarrow> 'q recommendation \<Rightarrow>
    ('w, reconcile_result + 'q recommendation) state" where
  "updateExisting L R now requeueAfter ps result u rec0 = do {
     f \<leftarrow> followUpApproval L R rec0;
     case f of
       Inl res \<Rightarrow> ret (Inl res)
     | Inr rec \<Rightarrow>
         if activeState (recState rec) then ret (Inl (Requeue requeueAfter))
         else (case updatedSpec (Quantities L) ps result u (Spec rec) of
             None \<Rightarrow> ret (Inl Panicked)
           | Some sp \<Rightarrow> writeUpdate R now rec sp)
   }"

definition deleteExistingRecommendation :: "('w, 'o, 'q) RightsizingRecommendationReconciler \<Rightarrow>
    string \<Rightarrow> string \<Rightarrow> ('w, unit) state" where
  "deleteExistingRecommendation R vmName namespace = do {
     r \<leftarrow> getRec (RecClient R) namespace (''vm-'' @ vmName);
     case r of
       Inl err \<Rightarrow> ret ()
     | Inr rec \<Rightarrow>
         if activeState (recState rec) then ret ()
         else do { _ \<leftarrow> deleteRec (RecClient R) rec; ret () }
   }"

section \<open>Auto-apply\<close>

text \<open>The branch of an owned VM: the approval request.\<close>

definition requestApproval :: "('w, 'o, 'q) lib \<Rightarrow> ('w, 'o, 'q) RightsizingRecommendationReconciler \<Rightarrow>
    TokenManager \<Rightarrow> 'q recommendation \<Rightarrow> string \<Rightarrow> ('w, unit) state" where
  "requestApproval L R tm rec ownerStr = do {
     tok \<leftarrow> GenerateToken (Jwt L) (Now L) tm (RefNamespace (VirtualMachineRef (Spec rec))) (Name rec)
       ownerStr (14 * 24 * Hour);
     case tok of
       Inl err \<Rightarrow> ret ()
     | Inr token \<Rightarrow> do {
         now \<leftarrow> Now L;
         r \<leftarrow> updateRecStatus (RecClient R)
           (updStatus (\<lambda>s. s\<lparr>State := StateAwaitingApproval, Owner := ownerStr, ApprovalToken := token,
              NotifiedAt := Some now, RevertConfig := Some (Current (Spec rec))\<rparr>) rec);
         case r of
           Inl err \<Rightarrow> ret ()
         | Inr rec2 \<Rightarrow>
             (case RecNotifier R of
                None \<Rightarrow> ret ()
              | Some d \<Rightarrow>
                  if RecApprovalRouteHost R = [] then ret ()
                  else do {
                    _ \<leftarrow> SendAll d (notificationFor (Quantities L) rec2 ownerStr
                      (approvalURL (RecApprovalRouteHost R) token));
                    ret ()
                  })
       }
   }"

text \<open>The branch of a VM without owner: the patch and the status after it.\<close>

definition applyDirectly :: "('w, 'o, 'q) lib \<Rightarrow> ('w, 'o, 'q) RightsizingRecommendationReconciler \<Rightarrow>
    'q recommendation \<Rightarrow> 'o \<Rightarrow> ('w, unit) state" where
  "applyDirectly L R rec vm = do {
     now \<leftarrow> Now L;
     err \<leftarrow> (case RecApplier R of
         None \<Rightarrow> ret None
       | Some a \<Rightarrow> PatchVMResources (Quantities L) a (RefName (VirtualMachineRef (Spec rec)))
           (RefNamespace (VirtualMachineRef (Spec rec)))
           (Cores (CPU (Recommended (Spec rec)))) (Memory (Recommended (Spec rec))));
     case err of
       Some e \<Rightarrow> do {
         _ \<leftarrow> updateRecStatus (RecClient R)
           (updStatus (\<lambda>s. s\<lparr>RevertConfig := Some (Current (Spec rec)), State := StateFailed,
              Message := ''auto-apply failed: '' @ e\<rparr>) rec);
         ret ()
       }
     | None \<Rightarrow> do {
         _ \<leftarrow> updateRecStatus (RecClient R)
           (updStatus (\<lambda>s. if IsHotplugCapable (Unstructured L) vm
              then s\<lparr>RevertConfig := Some (Current (Spec rec)), State := StateApplied, AppliedAt := Some now\<rparr>
              else s\<lparr>RevertConfig := Some (Current (Spec rec)), State := StateAppliedPendingRestart\<rparr>) rec);
         ret ()
       }
   }"

definition autoApply :: "('w, 'o, 'q) lib \<Rightarrow> ('w, 'o, 'q) RightsizingRecommendationReconciler \<Rightarrow>
    'q recommendation \<Rightarrow> 'o \<Rightarrow> ('w, unit) state" where
  "autoApply L R rec vm =
    (case (RecOwnerResolver R, RecTokenManager R) of
       (Some c, Some tm) \<Rightarrow> do {
         o' \<leftarrow> ResolveOwner (Unstructured L) c (RefName (VirtualMachineRef (Spec rec)))
           (RefNamespace (VirtualMachineRef (Spec rec)));
         if ownerOf o' \<noteq> [] then requestApproval L R tm rec (ownerOf o')
         else applyDirectly L R rec vm
       }
     | _ \<Rightarrow> applyDirectly L R rec vm)"

section \<open>Reconcile\<close>

text \<open>The second half, from the creation or update of the recommendation.\<close>

definition recordResult :: "('w, 'o, 'q) lib \<Rightarrow> ('w, 'o, 'q) RightsizingRecommendationReconciler \<Rightarrow>
    'q RightsizingPolicySpec \<Rightarrow> time \<Rightarrow> string \<Rightarrow> string \<Rightarrow> 'o \<Rightarrow> int \<Rightarrow> int \<Rightarrow> AnalysisResult \<Rightarrow>
    VMUtilization \<Rightarrow> ('w, reconcile_result) state" where
  "recordResult L R ps requeueAfter name namespace vm cpuCores memoryGiB result u = do {
     now \<leftarrow> Now L;
     g \<leftarrow> getRec (RecClient R) namespace (''vm-'' @ name);
     stored \<leftarrow> (case g of
         Inl err \<Rightarrow> if IsNotFound err
           then createNew R now name namespace (newSpec (Quantities L) ps name namespace cpuCores memoryGiB result u)
           else ret (Inl (Error (''fetching recommendation: '' @ errorText err)))
       | Inr rec \<Rightarrow> updateExisting L R now requeueAfter ps result u rec);
     case stored of
       Inl res \<Rightarrow> ret res
     | Inr rec \<Rightarrow> do {
         _ \<leftarrow> (if Enabled (AutoMode ps) \<and> recState rec = StatePending
           then autoApply L R rec vm else ret ());
         ret (Requeue requeueAfter)
       }
   }"

definition reconcileVM :: "('w, 'o, 'q) lib \<Rightarrow> ('w, 'o, 'q) RightsizingRecommendationReconciler \<Rightarrow>
    'q RightsizingPolicySpec \<Rightarrow> string \<Rightarrow> string \<Rightarrow> ('w, reconcile_result) state" where
  "reconcileVM L R ps namespace name = do {
     let requeueAfter = i64 (ReconcileIntervalMinutes ps * Minute) in do {
     v \<leftarrow> getVM L R name namespace;
     case v of
       Inl err \<Rightarrow> ret (Requeue requeueAfter)
     | Inr (vm, cpuCores, memoryGiB) \<Rightarrow>
         if GetAnnotations (Unstructured L) vm AnnotationExclude = Some ''true'' then do {
           _ \<leftarrow> deleteExistingRecommendation R name namespace;
           ret (Requeue requeueAfter)
         } else do {
           a \<leftarrow> assessVM L R ps name namespace cpuCores memoryGiB;
           case a of
             Skip del \<Rightarrow> do {
               _ \<leftarrow> (if del then deleteExistingRecommendation R name namespace else ret ());
               ret (Requeue requeueAfter)
             }
           | Assessed result u \<Rightarrow>
               recordResult L R ps requeueAfter name namespace vm cpuCores memoryGiB result u
         }
     }}"

definition Reconcile :: "('w, 'o, 'q) lib \<Rightarrow> ('w, 'o, 'q) RightsizingRecommendationReconciler \<Rightarrow>
    string \<Rightarrow> string \<Rightarrow> ('w, reconcile_result) state" where
  "Reconcile L R namespace name = do {
     p \<leftarrow> getPolicy (RecClient R) ''default'';
     case p of
       Inl err \<Rightarrow> if IsNotFound err
         then (case DefaultPolicySpec (Quantities L) of
             None \<Rightarrow> ret Panicked
           | Some ps \<Rightarrow> reconcileVM L R ps namespace name)
         else ret (Error (''fetching policy: '' @ errorText err))
     | Inr policy \<Rightarrow> reconcileVM L R (PolicySpec policy) namespace name
   }"

section \<open>Specification of the effects\<close>

definition patchOf :: "'q quantity_lib \<Rightarrow> 'q recommendation \<Rightarrow> 'q event" where
  "patchOf Q rec = VMPatched (RefNamespace (VirtualMachineRef (Spec rec)))
     (RefName (VirtualMachineRef (Spec rec)))
     (resourcePatch (Cores (CPU (Recommended (Spec rec)))) (QString Q (Memory (Recommended (Spec rec))))) []"

definition directStatus :: "bool \<Rightarrow> 'q recommendation \<Rightarrow> time \<Rightarrow> 'q RightsizingRecommendationStatus" where
  "directStatus hot rec t = (if hot
     then (Status rec)\<lparr>RevertConfig := Some (Current (Spec rec)), State := StateApplied, AppliedAt := Some t\<rparr>
     else (Status rec)\<lparr>RevertConfig := Some (Current (Spec rec)), State := StateAppliedPendingRestart\<rparr>)"

text \<open>A direct application: the VM is patched with the recommended size (where the reconciler has
  an applier), then the status says applied, or pending restart for a VM without hotplug; when
  the patch fails the status says failed. The status is missing only where the API server refuses it.\<close>

definition direct_trace :: "'q quantity_lib \<Rightarrow> bool \<Rightarrow> bool \<Rightarrow> ('q recommendation \<Rightarrow> bool) \<Rightarrow> 'q recommendation \<Rightarrow>
    'q event list \<Rightarrow> bool" where
  "direct_trace Q applier hot ref rec es \<longleftrightarrow> (\<exists>t patch status s'. es = ClockRead t # patch @ status \<and>
     (patch = [] \<or> applier \<and> patch = [patchOf Q rec]) \<and>
     ((applier \<longrightarrow> patch \<noteq> []) \<and> s' = directStatus hot rec t \<or>
      applier \<and> (\<exists>m. s' = (Status rec)\<lparr>RevertConfig := Some (Current (Spec rec)), State := StateFailed, Message := m\<rparr>)) \<and>
     (status = [] \<and> ref (rec\<lparr>Status := s'\<rparr>) \<or>
      (\<exists>new. status = [RecStatusUpdated rec new] \<and> recKey new = recKey rec \<and> Spec new = Spec rec \<and>
        Status new = serStatus s')))"

text \<open>The reminders: the link of the request once more, over any channel but ServiceNow, and over each of
  them where every attempt shows in the log.\<close>

definition reminders :: "('w \<Rightarrow> 'q event list) \<Rightarrow> ('w \<Rightarrow> 'q recommendation set) \<Rightarrow> 'w Forwarder list \<Rightarrow> Notification \<Rightarrow>
    'q event list \<Rightarrow> bool" where
  "reminders ev hi fs n es \<longleftrightarrow>
     list_all (\<lambda>e. \<exists>f \<in> set fs. FwdName f \<noteq> ''servicenow'' \<and> e = NotificationSent (FwdName f) n) es \<and>
     (notified fs ev hi \<longrightarrow> es = map (\<lambda>f. NotificationSent (FwdName f) n) (filter (\<lambda>f. FwdName f \<noteq> ''servicenow'') fs))"

definition channelsOf :: "('w, 'o, 'q) RightsizingRecommendationReconciler \<Rightarrow> 'w Forwarder list" where
  "channelsOf R = (case RecNotifier R of None \<Rightarrow> [] | Some d \<Rightarrow> forwarders d)"

text \<open>Reminder and expiry of an approval request: after 14 days it is reset; between 7 and 14 days after
  it was sent, the reminders go out and this is noted, unless it was before; otherwise
  nothing happens.\<close>

definition expiredStatus :: "'q recommendation \<Rightarrow> 'q RightsizingRecommendationStatus" where
  "expiredStatus rec = (Status rec)\<lparr>State := StatePending, Owner := [], ApprovalToken := [], NotifiedAt := None,
     ReminderSentAt := None\<rparr>"

definition follow_up :: "('w, 'o, 'q) lib \<Rightarrow> ('w, 'o, 'q) RightsizingRecommendationReconciler \<Rightarrow> ('w \<Rightarrow> 'q event list) \<Rightarrow>
    ('w \<Rightarrow> 'q recommendation set) \<Rightarrow> 'q recommendation \<Rightarrow> reconcile_result + 'q recommendation \<Rightarrow> 'q event list \<Rightarrow> 'w \<Rightarrow> bool" where
  "follow_up L R ev hi rec r es w' \<longleftrightarrow>
     (if recState rec \<noteq> StateAwaitingApproval \<or> NotifiedAt (Status rec) = None then es = [] \<and> r = Inr rec
      else \<exists>t rest. es = ClockRead t # rest \<and>
        (let elapsed = t - the (NotifiedAt (Status rec)) in
         if 14 * 24 * Hour < elapsed then stores (RecClient R) rec (expiredStatus rec) r rest w'
         else if 7 * 24 * Hour < elapsed \<and> ReminderSentAt (Status rec) = None
         then \<exists>ns u upd. rest = ns @ ClockRead u # upd \<and>
           reminders ev hi (channelsOf R) (notificationFor (Quantities L) rec (Owner (Status rec))
             (approvalURL (RecApprovalRouteHost R) (ApprovalToken (Status rec)))) ns \<and>
           stores (RecClient R) rec ((Status rec)\<lparr>ReminderSentAt := Some u\<rparr>) r upd w'
         else rest = [] \<and> r = Inr rec))"

text \<open>What becomes of the recommendation of a VM that gets none: one in a workflow state stays, any other
  is deleted, unless the API server reports a failure.\<close>

definition delete_outcome :: "('w, 'o, 'q) RightsizingRecommendationReconciler \<Rightarrow> 'q recommendation result \<Rightarrow>
    'q event list \<Rightarrow> 'w \<Rightarrow> bool" where
  "delete_outcome R g es w' \<longleftrightarrow> (case g of
      Inl e \<Rightarrow> es = []
    | Inr rec \<Rightarrow>
        if activeState (recState rec) then es = []
        else es = [] \<and> failed (deleteRec (RecClient R) rec) w' \<or>
          (\<exists>old. es = [RecDeleted old] \<and> recKey old = recKey rec))"

text \<open>The result of a follow-up from that of its status write.\<close>

abbreviation followUpResult :: "string \<Rightarrow> 'q recommendation result \<Rightarrow> reconcile_result + 'q recommendation" where
  "followUpResult msg u \<equiv> (case u of Inl err \<Rightarrow> Inl (Error (msg @ errorText err)) | Inr rec2 \<Rightarrow> Inr rec2)"

lemma stores_followUpResult: "stores C rec s' u upd w' \<Longrightarrow> stores C rec s' (followUpResult msg u) upd w'"
  by (cases u) (auto simp: stores_def)

abbreviation reminder :: "('w, 'o, 'q) lib \<Rightarrow> ('w, 'o, 'q) RightsizingRecommendationReconciler \<Rightarrow> 'q recommendation \<Rightarrow> Notification" where
  "reminder L R rec \<equiv> notificationFor (Quantities L) rec (Owner (Status rec))
     (approvalURL (RecApprovalRouteHost R) (ApprovalToken (Status rec)))"

section \<open>Laws of the environment\<close>

locale reconciler_env =
  fixes L :: "('w, 'o, 'q) lib"
    and R :: "('w, 'o, 'q) RightsizingRecommendationReconciler"
    and ev :: "'w \<Rightarrow> 'q event list"
    and hi :: "'w \<Rightarrow> 'q recommendation set"
  assumes store: "recommendation_store (RecClient R) ev hi"
    and resolver: "RecOwnerResolver R = Some c \<Longrightarrow> recommendation_store c ev hi"
    and applier: "RecApplier R = Some a \<Longrightarrow> vm_api (dynamicClient a) ev hi"
    and notifier: "RecNotifier R = Some d \<Longrightarrow> notifying (forwarders d) ev hi"
    and time: "clock (Now L) ev hi"
    and prom: "quiet ev hi (PromClient R name ns days cores bytes)"
begin

sublocale store: recommendation_store "RecClient R" ev hi by (rule store)
sublocale time: clock "Now L" ev hi by (rule time)

text \<open>Every part of the reconciliation makes allowed writes only, and hands on a recommendation
  that is stored.\<close>

abbreviation stored :: "'w \<Rightarrow> reconcile_result + 'q recommendation \<Rightarrow> 'w \<Rightarrow> bool" where
  "stored w0 r w' \<equiv> okay ev hi w0 w' \<and> (\<forall>x. r = Inr x \<longrightarrow> x \<in> hi w')"

lemma createNew_okay:
  assumes "okay ev hi w0 w"
    and "\<And>sp. osp = Some sp \<Longrightarrow> VirtualMachineRef sp = \<lparr>RefName = name, RefNamespace = ns\<rparr> \<and> \<not> HotplugCapable sp"
  shows "wp (createNew R now name ns osp) (stored w0) w"
proof (cases osp)
  case None
  then show ?thesis using assms(1) by (simp add: createNew_def)
next
  case (Some sp)
  have sp: "VirtualMachineRef sp = \<lparr>RefName = name, RefNamespace = ns\<rparr>" "\<not> HotplugCapable sp"
    using assms(2)[OF Some] by auto
  have init: "wp (updateRecStatus (RecClient R) (updStatus (\<lambda>s. s\<lparr>State := StatePending, LastCalculated := Some now\<rparr>) rec))
      (\<lambda>r2. stored w0 (case r2 of
              Inl err \<Rightarrow> Inl (Error (''updating recommendation status: '' @ errorText err))
            | Inr rec2 \<Rightarrow> Inr rec2)) v"
    if "okay ev hi w0 v" "rec \<in> hi v" "Status rec = emptyStatus" for rec v
    using that by (intro store.updateRecStatus_okay[where old = rec]) (auto intro: status_step.initialise)
  show ?thesis
    unfolding createNew_def Some option.case wp_bind
    by (rule store.createRec_okay[OF assms(1)]) (use sp init in auto)
qed

lemma newSpec_ref: "newSpec Q ps name ns cpu mem result u = Some sp \<Longrightarrow>
    VirtualMachineRef sp = \<lparr>RefName = name, RefNamespace = ns\<rparr> \<and> \<not> HotplugCapable sp"
  by (auto simp: newSpec_def split: option.splits)

lemma updatedSpec_keeps: "updatedSpec Q ps result u sp = Some sp' \<Longrightarrow>
    VirtualMachineRef sp' = VirtualMachineRef sp \<and> Current sp' = Current sp \<and>
    HotplugCapable sp' = HotplugCapable sp"
  by (auto simp: updatedSpec_def split: option.splits)

lemma SendAllExcept_okay:
  assumes "RecNotifier R = Some d" and "okay ev hi w0 w"
    and "\<And>errs w'. okay ev hi w0 w' \<Longrightarrow> hi w \<subseteq> hi w' \<Longrightarrow> Q errs w'"
  shows "wp (SendAllExcept d n ex) Q w" and "wp (SendAll d n) Q w"
  using notifying.sendTo_okay[OF notifier[OF assms(1)] assms(2) order_refl] assms(3)
  by (simp_all add: SendAllExcept_def SendAll_def sendFiltered_def)

lemma remind_okay:
  assumes "okay ev hi w0 w" and "rec \<in> hi w" and "recState rec = StateAwaitingApproval"
    and "NotifiedAt (Status rec) = Some n" and "ReminderSentAt (Status rec) = None"
    and "\<And>e w'. okay ev hi w0 w' \<Longrightarrow> Q (Inl e) w'"
    and "\<And>x w'. okay ev hi w0 w' \<Longrightarrow> x \<in> hi w' \<Longrightarrow> Q (Inr x) w'"
  shows "wp (do { now \<leftarrow> Now L;
      updateRecStatus (RecClient R) (updStatus (\<lambda>s. s\<lparr>ReminderSentAt := Some now\<rparr>) rec) }) Q w"
  unfolding wp_bind
proof (rule time.Now_okay[OF assms(1)])
  fix t w' assume "okay ev hi w0 w'" "hi w \<subseteq> hi w'"
  then show "wp (updateRecStatus (RecClient R) (updStatus (\<lambda>s. s\<lparr>ReminderSentAt := Some t\<rparr>) rec)) Q w'"
    using assms(2-5) by (intro store.updateRecStatus_okay[where old = rec])
      (auto intro: assms(6,7) status_step.remind)
qed

lemma followUpApproval_okay:
  assumes "okay ev hi w0 w" and "rec \<in> hi w"
  shows "wp (followUpApproval L R rec) (stored w0) w"
proof (cases "recState rec = StateAwaitingApproval \<and> NotifiedAt (Status rec) \<noteq> None")
  case False
  then show ?thesis using assms by (auto simp: followUpApproval_def)
next
  case True
  then obtain n where n: "NotifiedAt (Status rec) = Some n" by auto
  have expire: "wp (updateRecStatus (RecClient R) (updStatus (\<lambda>s. s\<lparr>State := StatePending, Owner := [],
        ApprovalToken := [], NotifiedAt := None, ReminderSentAt := None\<rparr>) rec))
      (\<lambda>r. stored w0 (case r of
         Inl err \<Rightarrow> Inl (Error (''resetting expired approval: '' @ errorText err)) | Inr rec2 \<Rightarrow> Inr rec2)) v"
    if "okay ev hi w0 v" "rec \<in> hi v" for v
    using that True n by (intro store.updateRecStatus_okay[where old = rec]) (auto intro: status_step.expire)
  have remind: "wp (Now L) (\<lambda>now. wp (updateRecStatus (RecClient R) (updStatus (\<lambda>s. s\<lparr>ReminderSentAt := Some now\<rparr>) rec))
      (\<lambda>r. stored w0 (case r of
         Inl err \<Rightarrow> Inl (Error (''updating reminder status: '' @ errorText err)) | Inr rec2 \<Rightarrow> Inr rec2))) v"
    if "okay ev hi w0 v" "rec \<in> hi v" "ReminderSentAt (Status rec) = None" for v
    using remind_okay[unfolded wp_bind, OF that(1,2) _ n that(3)] True by simp
  show ?thesis
    using True n
    apply (simp add: followUpApproval_def Let_def)
    apply (rule time.Now_okay[OF assms(1)])
    using assms(2)
    by (auto intro!: expire remind SendAllExcept_okay split: option.splits)
qed

lemma writeUpdate_okay:
  assumes "okay ev hi w0 w" and "rec \<in> hi w" and "\<not> activeState (recState rec)"
    and "updatedSpec (Quantities L) ps result u (Spec rec) = Some sp"
  shows "wp (writeUpdate R now rec sp) (stored w0) w"
proof -
  have touch: "wp (updateRecStatus (RecClient R) (rec1\<lparr>Status := s\<lparr>LastCalculated := Some now\<rparr>\<rparr>))
      (\<lambda>r2. stored w0 (case r2 of
         Inl err \<Rightarrow> Inl (Error (''updating recommendation status: '' @ errorText err)) | Inr rec2 \<Rightarrow> Inr rec2)) v"
    if "okay ev hi w0 v" "rec1 \<in> hi v" "Status rec1 = s" "\<not> activeState (State s)" for rec1 s v
    using that by (intro store.updateRecStatus_okay[where old = rec1]) (auto intro!: status_step.recalculate)
  show ?thesis
    unfolding writeUpdate_def wp_bind
    by (rule store.updateRec_okay[where old = rec, OF assms(1,2)])
       (use assms(3) updatedSpec_keeps[OF assms(4)] in \<open>auto intro!: touch\<close>)
qed

lemma updateExisting_okay:
  assumes "okay ev hi w0 w" and "rec0 \<in> hi w"
  shows "wp (updateExisting L R now rq ps result u rec0) (stored w0) w"
  unfolding updateExisting_def wp_bind
  by (rule wp_conseq[OF followUpApproval_okay[OF assms]])
     (auto intro!: writeUpdate_okay split: sum.splits option.splits)

lemma deleteExisting_okay:
  assumes "okay ev hi w0 w"
  shows "wp (deleteExistingRecommendation R name ns) (\<lambda>_. okay ev hi w0) w"
  unfolding deleteExistingRecommendation_def wp_bind
  by (rule store.getRec_okay[OF assms]) (auto intro!: store.deleteRec_okay)

lemma requestApproval_okay:
  assumes "okay ev hi w0 w" and "rec \<in> hi w" and "recState rec = StatePending" and "owner \<noteq> []"
  shows "wp (requestApproval L R tm rec owner) (\<lambda>_. okay ev hi w0) w"
proof -
  let ?x = "\<lambda>token now. updStatus (\<lambda>s. s\<lparr>State := StateAwaitingApproval, Owner := owner, ApprovalToken := token,
      NotifiedAt := Some now, RevertConfig := Some (Current (Spec rec))\<rparr>) rec"
  have upd: "wp (updateRecStatus (RecClient R) (?x token now)) Q v"
    if "okay ev hi w0 v" "rec \<in> hi v" "\<And>e w'. okay ev hi w0 w' \<Longrightarrow> Q (Inl e) w'"
      "\<And>x w'. okay ev hi w0 w' \<Longrightarrow> Q (Inr x) w'" for Q v token now
    using that assms(3,4)
    by (intro store.updateRecStatus_okay[where old = rec]) (auto intro: status_step.request_approval)
  show ?thesis
    unfolding requestApproval_def wp_bind
    using assms(2)
    by (auto intro!: upd time.GenerateToken_okay[OF assms(1)] time.Now_okay SendAllExcept_okay
        split: sum.splits option.splits) blast+
qed

lemma applyDirectly_okay:
  assumes "okay ev hi w0 w" and "rec \<in> hi w" and "recState rec = StatePending"
  shows "wp (applyDirectly L R rec vm) (\<lambda>_. okay ev hi w0) w"
proof -
  have fail: "wp (updateRecStatus (RecClient R) (updStatus (\<lambda>s. s\<lparr>RevertConfig := Some (Current (Spec rec)),
      State := StateFailed, Message := m\<rparr>) rec)) (\<lambda>_. okay ev hi w0) v"
    if "okay ev hi w0 v" "rec \<in> hi v" for v m
    using that assms(3)
    by (intro store.updateRecStatus_okay[where old = rec]) (auto intro: status_step.apply_failed)
  have applied: "wp (updateRecStatus (RecClient R) (rec\<lparr>Status := s'\<rparr>)) (\<lambda>_. okay ev hi w0) v"
    if "okay ev hi w0 v" "rec \<in> hi v" "status_step (Spec rec) (Status rec) s'" for v s'
    using that by (intro store.updateRecStatus_okay[where old = rec]) auto
  have hot: "status_step (Spec rec) (Status rec) (Status rec\<lparr>RevertConfig := Some (Current (Spec rec)),
      State := StateApplied, AppliedAt := Some now\<rparr>)" for now
    using status_step.apply_direct[of "Status rec" StateApplied "Some now" "Spec rec" "ScheduledRestartAt (Status rec)"]
      assms(3) by simp
  have cold: "status_step (Spec rec) (Status rec) (Status rec\<lparr>RevertConfig := Some (Current (Spec rec)),
      State := StateAppliedPendingRestart\<rparr>)"
    using status_step.apply_direct[of "Status rec" StateAppliedPendingRestart "AppliedAt (Status rec)" "Spec rec"
        "ScheduledRestartAt (Status rec)"] assms(3) by simp
  have patch: "wp (PatchVMResources Q a n ns c m) P v"
    if "RecApplier R = Some a" "okay ev hi w0 v" "\<And>e w'. okay ev hi w0 w' \<Longrightarrow> hi v \<subseteq> hi w' \<Longrightarrow> P e w'"
    for Q a n ns c m P v
    unfolding PatchVMResources_def wp_bind wp_return
    by (rule vm_api.dynPatch_okay[OF applier[OF that(1)] that(2)]) (rule that(3))
  show ?thesis
    unfolding applyDirectly_def wp_bind
    using assms(2)
    by (auto intro!: time.Now_okay[OF assms(1)] patch fail applied hot cold split: option.splits dest: subsetD)
qed

lemma autoApply_okay:
  assumes "okay ev hi w0 w" and "rec \<in> hi w" and "recState rec = StatePending"
  shows "wp (autoApply L R rec vm) (\<lambda>_. okay ev hi w0) w"
proof -
  have owner: "wp (ResolveOwner (Unstructured L) c n ns) Q w"
    if "RecOwnerResolver R = Some c" "\<And>r w'. okay ev hi w0 w' \<Longrightarrow> hi w \<subseteq> hi w' \<Longrightarrow> Q r w'" for c n ns Q
    by (rule okay_quiet_wp[OF recommendation_store.ResolveOwner_quiet[OF resolver[OF that(1)]] assms(1)])
       (rule that(2))
  show ?thesis
    using assms
    by (auto simp: autoApply_def intro!: owner applyDirectly_okay requestApproval_okay split: option.splits)
qed

lemma recordResult_okay:
  assumes "okay ev hi w0 w"
  shows "wp (recordResult L R ps rq name ns vm cpu mem result u) (\<lambda>_. okay ev hi w0) w"
proof -
  have fin: "wp (case st of Inl res \<Rightarrow> ret res | Inr rec \<Rightarrow> do {
         _ \<leftarrow> (if Enabled (AutoMode ps) \<and> recState rec = StatePending then autoApply L R rec vm else ret ());
         ret (Requeue rq) }) (\<lambda>_. okay ev hi w0) v"
    if "stored w0 st v" for st v
    using that by (auto intro!: autoApply_okay split: sum.splits)
  show ?thesis
    unfolding recordResult_def wp_bind
    apply (rule time.Now_okay[OF assms])
    apply (rule store.getRec_okay, assumption)
    by (auto intro!: wp_conseq[OF createNew_okay fin] wp_conseq[OF updateExisting_okay fin] newSpec_ref)
qed

lemma Reconcile_okay: "wp (Reconcile L R ns name) (\<lambda>_. okay ev hi w) w"
proof -
  have vm: "wp (reconcileVM L R ps ns name) (\<lambda>_. okay ev hi w) v" if v: "okay ev hi w v" for ps v
  proof -
    have q1: "quiet ev hi (getVM L R name ns)"
      unfolding getVM_def by (intro quiet_bind store.getVMObject_quiet) auto
    have q2: "quiet ev hi (assessVM L R ps name ns c m)" for c m
      unfolding assessVM_def by (auto intro!: quiet_bind prom)
    show ?thesis
      unfolding reconcileVM_def wp_bind Let_def
      by (rule okay_quiet_wp[OF q1 v])
         (auto intro!: wp_conseq[OF deleteExisting_okay] okay_quiet_wp[OF q2] recordResult_okay
            split: sum.splits assessment.splits)
  qed
  show ?thesis
    unfolding Reconcile_def wp_bind
    by (rule okay_quiet_wp[OF store.getPolicy_quiet okay_refl])
       (auto intro!: vm split: sum.splits option.splits)
qed

lemma SendAll_trace:
  assumes "RecNotifier R = Some d" and "trace ev hi w0 es w" and "\<And>f. P (NotificationSent f n)"
    and "\<And>errs ns w'. trace ev hi w0 (es @ ns) w' \<Longrightarrow> list_all P ns \<Longrightarrow> Q errs w'"
  shows "wp (SendAll d n) Q w"
  unfolding SendAll_def sendFiltered_def
  by (rule notifying.sendTo_wp[OF notifier[OF assms(1)] assms(2) order_refl], rule assms(4))
     (auto simp: assms(3) elim!: list.pred_mono_strong)

lemma remind_trace:
  assumes "trace ev hi w0 es w"
    and "\<And>errs ns w'. trace ev hi w0 (es @ ns) w' \<Longrightarrow> hi w \<subseteq> hi w' \<Longrightarrow> reminders ev hi (channelsOf R) n ns \<Longrightarrow> Q errs w'"
  shows "wp (case RecNotifier R of None \<Rightarrow> ret [] | Some d \<Rightarrow> SendAllExcept d n [''servicenow'']) Q w"
proof (cases "RecNotifier R")
  case None
  then show ?thesis using assms(1) assms(2)[of "[]"] by (simp add: reminders_def channelsOf_def)
next
  case (Some d)
  have fs: "channelsOf R = forwarders d" using Some by (simp add: channelsOf_def)
  have "wp (sendTo (forwarders d) n (Some (\<lambda>t. t \<in> set [''servicenow'']))) Q w"
  proof (cases "notified (forwarders d) ev hi")
    case True
    show ?thesis
      by (rule notified.sendTo_exact_wp[OF True assms(1) order_refl], rule assms(2), assumption, assumption)
         (auto simp: reminders_def fs list_all_iff)
  next
    case False
    show ?thesis
      by (rule notifying.sendTo_wp[OF notifier[OF Some] assms(1) order_refl], rule assms(2), assumption, assumption)
         (simp add: reminders_def fs False)
  qed
  then show ?thesis by (simp add: Some SendAllExcept_def sendFiltered_def)
qed

text \<open>An approval request once the token is made: the status and the notification.\<close>

lemma requestApproval_stored:
  assumes t: "trace ev hi w [ClockRead t, ClockRead t'] v" and v: "rec \<in> hi v" and sign: "sign t = Inr token"
  shows "wp (updateRecStatus (RecClient R) (rec\<lparr>Status := awaitingStatus rec owner token t'\<rparr>))
      (\<lambda>r. wp (case r of Inl err \<Rightarrow> ret () | Inr rec2 \<Rightarrow>
             (case RecNotifier R of None \<Rightarrow> ret ()
              | Some d \<Rightarrow> if RecApprovalRouteHost R = [] then ret ()
                  else do { _ \<leftarrow> SendAll d (notificationFor (Quantities L) rec2 owner (approvalURL (RecApprovalRouteHost R) token));
                    ret () }))
        (\<lambda>_ w'. \<exists>es. trace ev hi w es w' \<and>
          approval_trace sign (RecApprovalRouteHost R) (\<lambda>x. refused (updateRecStatus (RecClient R) x) w') rec owner es)) v"
proof (rule store.stores_wp[OF t v])
  let ?A = "\<lambda>w'. approval_trace sign (RecApprovalRouteHost R) (\<lambda>x. refused (updateRecStatus (RecClient R) x) w') rec owner"
  let ?Q = "\<lambda>_ w'. \<exists>es. trace ev hi w es w' \<and> ?A w' es"
  fix u upd w' assume u: "trace ev hi w ([ClockRead t, ClockRead t'] @ upd) w'"
    and "stores (RecClient R) rec (awaitingStatus rec owner token t') u upd w'"
  then consider
      (refused) e where "upd = []" "u = Inl e" "refused (updateRecStatus (RecClient R) (rec\<lparr>Status := awaitingStatus rec owner token t'\<rparr>)) w'"
    | (stored) new where "upd = [RecStatusUpdated rec new]" "recKey new = recKey rec" "Spec new = Spec rec"
        "Status new = serStatus (awaitingStatus rec owner token t')"
    by (auto simp: stores_def isl_def)
  then show "wp (case u of Inl err \<Rightarrow> ret () | Inr rec2 \<Rightarrow>
           (case RecNotifier R of None \<Rightarrow> ret ()
            | Some d \<Rightarrow> if RecApprovalRouteHost R = [] then ret ()
                else do { _ \<leftarrow> SendAll d (notificationFor (Quantities L) rec2 owner (approvalURL (RecApprovalRouteHost R) token));
                  ret () })) ?Q w'"
  proof cases
    case refused
    then show ?thesis using u sign by (auto simp: approval_trace_def)
  next
    case stored
    have a: "?A w'' (ClockRead t # ClockRead t' # RecStatusUpdated rec new # ns)"
      if "list_all (linkSent owner (approvalURL (RecApprovalRouteHost R) token)) ns" for w'' ns
      using sign stored(2-4) that by (rule approval_traceI)
    have quiet: "?Q () w'" using u a[of "[]"] stored(1) by auto
    have send: "wp (SendAll d (notificationFor (Quantities L) x owner (approvalURL (RecApprovalRouteHost R) token))) (\<lambda>_. ?Q ()) w'"
      if "RecNotifier R = Some d" for d x
      by (rule SendAll_trace[OF that u, where P = "linkSent owner (approvalURL (RecApprovalRouteHost R) token)"])
         (use a stored(1) in \<open>auto simp: notificationFor_def\<close>)
    show ?thesis using quiet send by (cases u) (auto split: option.splits)
  qed
qed

lemma requestApproval_trace:
  fixes tm :: TokenManager and owner :: string
  assumes "rec \<in> hi w"
  defines "sign \<equiv> linkToken L tm (RefNamespace (VirtualMachineRef (Spec rec))) (Name rec) owner"
  shows "wp (requestApproval L R tm rec owner) (\<lambda>_ w'. \<exists>es. trace ev hi w es w' \<and>
    approval_trace sign (RecApprovalRouteHost R) (\<lambda>x. refused (updateRecStatus (RecClient R) x) w') rec owner es) w"
  unfolding requestApproval_def wp_bind[of "GenerateToken _ _ _ _ _ _ _"]
proof (rule linkToken_wp[OF time trace_refl], fold sign_def, goal_cases)
  case (1 t w1)
  show ?case
  proof (cases "sign t")
    case (Inl e)
    show ?thesis unfolding Inl sum.case using 1 Inl by (auto simp: approval_trace_def)
  next
    case (Inr token)
    show ?thesis unfolding Inr sum.case wp_bind
      by (rule time.Now_wp[OF 1(1)], rule requestApproval_stored[unfolded wp_bind awaitingStatus_def]) (use 1 Inr assms(1) in auto)
  qed
qed

text \<open>A direct application after the patch of the VM: the status.\<close>

lemma applyDirectly_stored:
  fixes err :: "string option" and vm :: 'o
  defines "app \<equiv> RecApplier R \<noteq> None" and "hot \<equiv> IsHotplugCapable (Unstructured L) vm"
  assumes t: "trace ev hi w ([ClockRead t] @ patch) v" and v: "rec \<in> hi v"
    and p: "patch = [] \<or> app \<and> patch = [patchOf (Quantities L) rec]"
    and ok: "err = None \<Longrightarrow> app \<Longrightarrow> patch \<noteq> []" and failed: "err \<noteq> None \<Longrightarrow> app"
  shows "wp (case err of
       Some e \<Rightarrow> do {
         _ \<leftarrow> updateRecStatus (RecClient R) (rec\<lparr>Status := (Status rec)\<lparr>RevertConfig := Some (Current (Spec rec)),
            State := StateFailed, Message := ''auto-apply failed: '' @ e\<rparr>\<rparr>);
         ret () }
     | None \<Rightarrow> do {
         _ \<leftarrow> updateRecStatus (RecClient R) (rec\<lparr>Status := directStatus hot rec t\<rparr>);
         ret () })
    (\<lambda>_ w'. \<exists>es. trace ev hi w es w' \<and>
      direct_trace (Quantities L) app hot (\<lambda>x. refused (updateRecStatus (RecClient R) x) w') rec es) v"
proof -
  let ?D = "\<lambda>w'. direct_trace (Quantities L) app hot (\<lambda>x. refused (updateRecStatus (RecClient R) x) w') rec"
  have upd: "wp (updateRecStatus (RecClient R) (rec\<lparr>Status := s'\<rparr>)) (\<lambda>_ w'. \<exists>es. trace ev hi w es w' \<and> ?D w' es) v"
    if s': "(app \<longrightarrow> patch \<noteq> []) \<and> s' = directStatus hot rec t \<or>
        app \<and> (\<exists>m. s' = (Status rec)\<lparr>RevertConfig := Some (Current (Spec rec)), State := StateFailed, Message := m\<rparr>)" for s'
  proof (rule store.stores_wp[OF t v])
    fix u upd w' assume w': "trace ev hi w (([ClockRead t] @ patch) @ upd) w'" and u: "stores (RecClient R) rec s' u upd w'"
    have "?D w' ([ClockRead t] @ patch @ upd)"
      unfolding direct_trace_def
      by (intro exI[of _ t] exI[of _ patch] exI[of _ upd] exI[of _ s'] conjI p s') (use u in \<open>auto simp: stores_def\<close>)
    then show "\<exists>es. trace ev hi w es w' \<and> ?D w' es" using w' by auto
  qed
  show ?thesis
  proof (cases err)
    case None
    show ?thesis unfolding None option.case wp_bind wp_return by (rule upd) (use ok None in blast)
  next
    case (Some e)
    show ?thesis unfolding Some option.case wp_bind wp_return by (rule upd) (use failed Some in blast)
  qed
qed

lemma applyDirectly_trace:
  assumes "rec \<in> hi w"
  shows "wp (applyDirectly L R rec vm) (\<lambda>_ w'. \<exists>es. trace ev hi w es w' \<and>
    direct_trace (Quantities L) (RecApplier R \<noteq> None) (IsHotplugCapable (Unstructured L) vm)
      (\<lambda>x. refused (updateRecStatus (RecClient R) x) w') rec es) w"
  unfolding applyDirectly_def wp_bind[of "Now L"]
proof (rule time.Now_wp[OF trace_refl], goal_cases)
  case (1 t w1)
  have t: "trace ev hi w [ClockRead t] w1" and r: "rec \<in> hi w1" using 1 assms by auto
  note fin = applyDirectly_stored[unfolded directStatus_def]
  have patched: "wp (PatchVMResources (Quantities L) a (RefName (VirtualMachineRef (Spec rec)))
        (RefNamespace (VirtualMachineRef (Spec rec))) (Cores (CPU (Recommended (Spec rec)))) (Memory (Recommended (Spec rec)))) P w1"
    if "RecApplier R = Some a"
      and "\<And>e w'. trace ev hi w ([ClockRead t] @ []) w' \<Longrightarrow> hi w1 \<subseteq> hi w' \<Longrightarrow> P (Some e) w'"
      and "\<And>r w'. trace ev hi w ([ClockRead t] @ [patchOf (Quantities L) rec]) w' \<Longrightarrow> hi w1 \<subseteq> hi w' \<Longrightarrow> P r w'" for a P
    by (rule vm_api.PatchVMResources_wp[OF applier[OF that(1)] refl t]) (use that in \<open>auto simp: patchOf_def\<close>)
  show ?case
  proof (cases "RecApplier R")
    case None
    then show ?thesis using fin[OF _ r, of w t "[]" None] t by simp
  next
    case (Some a)
    show ?thesis
      unfolding Some option.case wp_bind[of "PatchVMResources _ _ _ _ _ _"]
      by (rule patched[OF Some]; rule fin[unfolded Some]) (use r in auto)
  qed
qed

text \<open>The branch of a reminder: the notifications, then the note that it was sent.\<close>

lemma remind_stored:
  assumes state: "recState rec = StateAwaitingApproval" "NotifiedAt (Status rec) = Some n"
    and time: "7 * 24 * Hour < t - n" "t - n \<le> 14 * 24 * Hour" "ReminderSentAt (Status rec) = None"
    and t: "trace ev hi w [ClockRead t] v" and v: "rec \<in> hi v"
  shows "wp (case RecNotifier R of None \<Rightarrow> ret [] | Some d \<Rightarrow> SendAllExcept d (reminder L R rec) [''servicenow''])
      (\<lambda>_. wp (Now L) (\<lambda>now. wp (updateRecStatus (RecClient R) (rec\<lparr>Status := (Status rec)\<lparr>ReminderSentAt := Some now\<rparr>\<rparr>))
        (\<lambda>r w'. \<exists>es. trace ev hi w es w' \<and> follow_up L R ev hi rec (followUpResult msg r) es w'))) v"
proof (rule remind_trace[OF t])
  let ?Q = "\<lambda>r w'. \<exists>es. trace ev hi w es w' \<and> follow_up L R ev hi rec (followUpResult msg r) es w'"
  fix errs ns v' assume ns: "trace ev hi w ([ClockRead t] @ ns) v'" "hi v \<subseteq> hi v'" "reminders ev hi (channelsOf R) (reminder L R rec) ns"
  have note_it: "wp (updateRecStatus (RecClient R) (rec\<lparr>Status := (Status rec)\<lparr>ReminderSentAt := Some u\<rparr>\<rparr>)) ?Q v2"
    if t2: "trace ev hi w (([ClockRead t] @ ns) @ [ClockRead u]) v2" and v2: "rec \<in> hi v2" for u v2
  proof (rule store.stores_wp[OF t2 v2])
    fix r :: "'q recommendation result" and upd w'
    assume w': "trace ev hi w ((([ClockRead t] @ ns) @ [ClockRead u]) @ upd) w'"
      and "stores (RecClient R) rec ((Status rec)\<lparr>ReminderSentAt := Some u\<rparr>) r upd w'"
    from this(2) have "\<exists>ns' u' upd'. ns @ ClockRead u # upd = ns' @ ClockRead u' # upd' \<and>
        reminders ev hi (channelsOf R) (reminder L R rec) ns' \<and>
        stores (RecClient R) rec ((Status rec)\<lparr>ReminderSentAt := Some u'\<rparr>) (followUpResult msg r) upd' w'"
      by (intro exI[of _ ns] exI[of _ u] exI[of _ upd] conjI refl ns stores_followUpResult)
    then have "follow_up L R ev hi rec (followUpResult msg r) (ClockRead t # ns @ ClockRead u # upd) w'"
      using state time by (simp add: follow_up_def)
    then show "?Q r w'" using w' by auto
  qed
  show "wp (Now L) (\<lambda>now. wp (updateRecStatus (RecClient R) (rec\<lparr>Status := (Status rec)\<lparr>ReminderSentAt := Some now\<rparr>\<rparr>)) ?Q) v'"
    by (rule time.Now_wp[OF ns(1)], rule note_it) (use v ns(2) in auto)
qed

lemma followUpApproval_trace:
  assumes "rec \<in> hi w"
  shows "wp (followUpApproval L R rec) (\<lambda>r w'. \<exists>es. trace ev hi w es w' \<and> follow_up L R ev hi rec r es w') w"
proof (cases "recState rec = StateAwaitingApproval \<and> NotifiedAt (Status rec) \<noteq> None")
  case False
  then show ?thesis by (auto simp: followUpApproval_def follow_up_def intro!: exI[of _ "[]"])
next
  case True
  then obtain n where n: "NotifiedAt (Status rec) = Some n" by auto
  let ?Q = "\<lambda>r w'. \<exists>es. trace ev hi w es w' \<and> follow_up L R ev hi rec r es w'"
  have expire: "wp (updateRecStatus (RecClient R) (rec\<lparr>Status := expiredStatus rec\<rparr>)) (\<lambda>u. ?Q (followUpResult msg u)) v"
    if t: "trace ev hi w [ClockRead t] v" and v: "rec \<in> hi v" and "14 * 24 * Hour < t - n" for v t msg
    by (rule store.stores_wp[OF t v]) (use True n that(3) stores_followUpResult in \<open>force simp: follow_up_def\<close>)
  have idle: "?Q (Inr rec) v" if "trace ev hi w [ClockRead t] v" "\<not> 14 * 24 * Hour < t - n"
      "\<not> (7 * 24 * Hour < t - n \<and> ReminderSentAt (Status rec) = None)" for t v
    using that True n by (intro exI[of _ "[ClockRead t]"]) (auto simp: follow_up_def)
  show ?thesis
    unfolding followUpApproval_def
    using True n
    apply (simp add: Let_def)
  proof (rule time.Now_wp[OF trace_refl], goal_cases)
    case (1 t w1)
    then have t: "trace ev hi w [ClockRead t] w1" and r: "rec \<in> hi w1" using assms by auto
    show ?case
      using expire[OF t r, unfolded expiredStatus_def] remind_stored[OF True[THEN conjunct1] n _ _ _ t r] idle[OF t] by auto
  qed
qed

text \<open>An excluded VM: nothing but the deletion of its recommendation.\<close>

lemma deleteExisting_outcome:
  "wp (deleteExistingRecommendation R name ns) (\<lambda>_ w'. \<exists>es. trace ev hi w es w' \<and>
    delete_outcome R (fst (run_state (getRec (RecClient R) ns (''vm-'' @ name)) w)) es w') w"
proof -
  obtain g w1 where g: "run_state (getRec (RecClient R) ns (''vm-'' @ name)) w = (g, w1)" by fastforce
  have t: "trace ev hi w [] w1" using store.getRec_quiet g unfolding quiet_def by (metis snd_conv)
  have "wp (deleteRec (RecClient R) rec) (\<lambda>_ w'. \<exists>es. trace ev hi w es w' \<and> delete_outcome R (Inr rec) es w') w1"
    if "\<not> activeState (recState rec)" for rec
    by (rule store.deleteRec_wp[OF t]) (use that in \<open>auto simp: delete_outcome_def\<close>)
  then show ?thesis unfolding deleteExistingRecommendation_def wp_bind
    using t g by (cases g) (auto simp: wp_def[of "getRec _ _ _"] delete_outcome_def)
qed

end

section \<open>No panic\<close>

lemma is_i32_small [simp]: "is_i32 0" "is_i32 1"
  by (simp_all add: is_i32_def)

lemma is_i32_gib [simp]: "is_i32 (gib Q q)"
  by (simp add: gib_def)

lemma is_i32_vmMemoryGiB [simp]: "is_i32 (vmMemoryGiB Q U vm)"
  by (simp add: vmMemoryGiB_def split: option.splits)

lemma is_i32_abs32: "is_i32 n \<Longrightarrow> is_i32 (abs32 n)"
  by (simp add: abs32_def)

lemma Analyze_is_i32:
  assumes "Analyze oor inp = Some r" and "is_i32 (inCurrentMemoryGiB inp)"
  shows "is_i32 (RecommendedMemoryGiB r) \<and> is_i32 (MemorySavings r)"
proof -
  have down: "is_i32 c \<Longrightarrow> is_i32 d \<Longrightarrow> is_i32 (clampDown c d)"
    and up: "is_i32 c \<Longrightarrow> is_i32 d \<Longrightarrow> is_i32 (clampUp c d)" for c d
    by (simp_all add: clampDown_def clampUp_def Let_def)
  have "is_i32 (headroomSize oor h c p)" "is_i32 (targetSize oor c p)" for h c p
    by (simp_all add: headroomSize_def targetSize_def Let_def)
  then show ?thesis
    using assms down up
    by (auto simp: Analyze_def analyzeUpsize_def analyzeDownsize_def Let_def
        simp del: i32_diff_nonneg split: if_splits)
qed

lemma demo_is_i32: "is_i32 m \<Longrightarrow> is_i32 (RecommendedMemoryGiB (demoResult c m n)) \<and> is_i32 (MemorySavings (demoResult c m n))"
proof -
  assume "is_i32 m"
  then have "is_i32 (m sdiv 2)"
    by (auto simp: is_i32_def signed_divide_int_def sgn_if)
  then show ?thesis by (simp add: demoResult_def demoRecommendedMem_def Let_def)
qed

context quantities
begin

lemma gibQuantity_total: "is_i32 n \<Longrightarrow> \<exists>q. gibQuantity Q n = Some q"
  using parse_gib by (auto simp: gibQuantity_def)

lemma newSpec_total:
  assumes "is_i32 m" "is_i32 (RecommendedMemoryGiB r)" "is_i32 (MemorySavings r)"
  shows "\<exists>sp. newSpec Q ps n ns c m r u = Some sp"
  using gibQuantity_total[OF assms(1)] gibQuantity_total[OF assms(2)]
    gibQuantity_total[OF is_i32_abs32[OF assms(3)]]
  by (auto simp: newSpec_def)

lemma updatedSpec_total:
  assumes "is_i32 (RecommendedMemoryGiB r)" "is_i32 (MemorySavings r)"
  shows "\<exists>sp'. updatedSpec Q ps r u sp = Some sp'"
  using gibQuantity_total[OF assms(1)] gibQuantity_total[OF is_i32_abs32[OF assms(2)]]
  by (auto simp: updatedSpec_def)

lemmas any_call = wp_any[where m = "Now _"] wp_any[where m = "getRec _ _ _"]
  wp_any[where m = "createRec _ _"] wp_any[where m = "updateRec _ _"]
  wp_any[where m = "updateRecStatus _ _"] wp_any[where m = "SendAllExcept _ _ _"]
  wp_any[where m = "getVMObject _ _ _"] wp_any[where m = "deleteExistingRecommendation _ _ _"]
  wp_any[where m = "getPolicy _ _"] wp_any[where m = "autoApply _ _ _ _"]

lemma recordResult_no_panic:
  assumes "Quantities L = Q" "is_i32 m" "is_i32 (RecommendedMemoryGiB r)" "is_i32 (MemorySavings r)"
  shows "wp (recordResult L R ps rq n ns vm c m r u) (\<lambda>res _. res \<noteq> Panicked) w"
proof -
  obtain sp where sp: "newSpec Q ps n ns c m r u = Some sp" using newSpec_total[OF assms(2-4)] by blast
  have create: "wp (createNew R now n ns (newSpec Q ps n ns c m r u)) (\<lambda>res _. res \<noteq> Inl Panicked) v" for now v
    unfolding createNew_def sp by (auto intro!: any_call split: sum.splits)
  have follow: "wp (followUpApproval L R rec) (\<lambda>res _. res \<noteq> Inl Panicked) v" for rec v
    unfolding followUpApproval_def Let_def by (auto intro!: any_call split: sum.splits option.splits)
  have written: "wp (writeUpdate R now rec sp') (\<lambda>res _. res \<noteq> Inl Panicked) v" for now rec sp' v
    unfolding writeUpdate_def by (auto intro!: any_call split: sum.splits)
  have spec: "updatedSpec Q ps r u sp' \<noteq> None" for sp' using updatedSpec_total[OF assms(3,4)] by fastforce
  have update: "wp (updateExisting L R now rq ps r u rec) (\<lambda>res _. res \<noteq> Inl Panicked) v" for now rec v
    unfolding updateExisting_def wp_bind assms(1)
    by (rule wp_conseq[OF follow]) (auto intro!: written simp: spec split: sum.splits option.splits)
  have fin: "wp (case st of Inl res \<Rightarrow> ret res | Inr rec \<Rightarrow> do {
         _ \<leftarrow> (if Enabled (AutoMode ps) \<and> recState rec = StatePending then autoApply L R rec vm else ret ());
         ret (Requeue rq) }) (\<lambda>res _. res \<noteq> Panicked) v" if "st \<noteq> Inl Panicked" for st v
    using that by (cases st) (auto intro!: any_call)
  show ?thesis
    unfolding recordResult_def wp_bind assms(1)
    by (auto intro!: any_call wp_conseq[OF create fin] wp_conseq[OF update fin] fin split: sum.splits)
qed

lemma Reconcile_no_panic:
  assumes "Quantities L = Q"
  shows "wp (Reconcile L R ns n) (\<lambda>res _. res \<noteq> Panicked) w"
proof -
  have assessed: "is_i32 (RecommendedMemoryGiB r)" "is_i32 (MemorySavings r)"
    if "run_state (assessVM L R ps n ns c (vmMemoryGiB Q (Unstructured L) vm)) v = (Assessed r u, v')" for ps c vm r u v v'
    using that Analyze_is_i32 demo_is_i32
    by (fastforce simp: assessVM_def analysisInput_def Let_def
        split: if_splits prod.splits sum.splits option.splits)+
  have vm: "wp (reconcileVM L R ps ns n) (\<lambda>res _. res \<noteq> Panicked) v" for ps v
    unfolding reconcileVM_def getVM_def wp_bind Let_def wp_return assms
    by (auto intro!: any_call wpI[where m = "assessVM _ _ _ _ _ _ _"] recordResult_no_panic[OF assms]
        split: sum.splits assessment.splits) (erule assessed)+
  show ?thesis
    unfolding Reconcile_def wp_bind assms
    using DefaultPolicySpec_total
    by (auto intro!: any_call vm split: sum.splits option.splits)
qed

end

section \<open>A reconciler in the cluster in memory\<close>

definition memReconciler :: "VMUtilization \<Rightarrow> (memWorld, json, int) RightsizingRecommendationReconciler" where
  "memReconciler u = \<lparr>RecClient = memClient, PromClient = (\<lambda>_ _ _ _ _. ret (Inr u)), RecDemoMode = False,
     RecApplier = Some memApplier, RecOwnerResolver = Some memClient,
     RecTokenManager = Some \<lparr>signingKey = ''k''\<rparr>,
     RecNotifier = Some \<lparr>forwarders = map memForwarder [''slack'', ''servicenow'']\<rparr>,
     RecApprovalRouteHost = ''ovro.example''\<rparr>"

lemma memReconciler_simps [simp]:
  "RecClient (memReconciler u) = memClient" "RecApplier (memReconciler u) = Some memApplier"
  "RecOwnerResolver (memReconciler u) = Some memClient"
  "RecTokenManager (memReconciler u) = Some \<lparr>signingKey = ''k''\<rparr>"
  "RecNotifier (memReconciler u) = Some \<lparr>forwarders = map memForwarder [''slack'', ''servicenow'']\<rparr>"
  by (simp_all add: memReconciler_def)

interpretation mem: reconciler_env memLib "memReconciler u" wEvents memHist for u
proof (rule reconciler_env.intro)
  show "RecNotifier (memReconciler u) = Some d \<Longrightarrow> notifying (forwarders d) wEvents memHist" for d
    using mem.weak.notifying_axioms[of "[''slack'', ''servicenow'']"] by auto
qed (auto simp: mem.recommendation_store_axioms mem.vm_api_axioms mem.clock_axioms memReconciler_def)

definition sampleUtil :: VMUtilization where
  "sampleUtil = \<lparr>CurrentCPUCores = 0, CurrentMemoryGiB = 0, UtilCPUP95 = Fin 25, UtilMemoryP95 = Fin 25,
     UtilCPUMax = Fin 50, UtilMemoryMax = Fin 50, DataPoints = 20160\<rparr>"

section \<open>Properties\<close>

text \<open>C3: every write of a reconciliation is one the life of a recommendation allows: a status
  transition of \<open>status_step\<close> from the version that was read, a change of the spec of a
  recommendation that is not active, the creation of a fresh one, a deletion, or a patch of a VM.\<close>

theorem reconcile_writes_allowed:
  assumes "reconciler_env L R ev hi"
    and "run_state (Reconcile L R ns name) w = (res, w')"
  shows "\<exists>es. trace ev hi w es w' \<and> allAllowed es"
  using wpD[OF reconciler_env.Reconcile_okay[OF assms(1)] assms(2)] by (simp add: okay_def)

theorem reconcile_writes_allowed_witness:
  "\<exists>es. trace wEvents memHist (sampleWorld pendingStatus) es
      (snd (run_state (Reconcile memLib (memReconciler sampleUtil) ''prod'' ''web'') (sampleWorld pendingStatus))) \<and>
    allAllowed es"
  by (rule reconcile_writes_allowed[OF mem.reconciler_env_axioms prod.collapse[symmetric]])

text \<open>The owner that \<open>autoApply\<close> goes by: none where the resolver or the token manager is not
  configured, and none where the resolution fails.\<close>

definition effectiveOwner :: "('w, 'o, 'q) lib \<Rightarrow> ('w, 'o, 'q) RightsizingRecommendationReconciler \<Rightarrow>
    'q recommendation \<Rightarrow> 'w \<Rightarrow> string" where
  "effectiveOwner L R rec w = (case (RecOwnerResolver R, RecTokenManager R) of
      (Some c, Some tm) \<Rightarrow> ownerOf (fst (run_state (ResolveOwner (Unstructured L) c
        (RefName (VirtualMachineRef (Spec rec))) (RefNamespace (VirtualMachineRef (Spec rec)))) w))
    | _ \<Rightarrow> [])"

definition auto_apply_trace :: "('w, 'o, 'q) lib \<Rightarrow> ('w, 'o, 'q) RightsizingRecommendationReconciler \<Rightarrow> 'o \<Rightarrow> 'w \<Rightarrow> 'w \<Rightarrow>
    'q recommendation \<Rightarrow> 'q event list \<Rightarrow> bool" where
  "auto_apply_trace L R vm w w' rec es \<longleftrightarrow>
     (let owner = effectiveOwner L R rec w; ref = (\<lambda>x. refused (updateRecStatus (RecClient R) x) w') in
      if owner \<noteq> []
      then approval_trace (linkToken L (the (RecTokenManager R)) (RefNamespace (VirtualMachineRef (Spec rec))) (Name rec) owner)
        (RecApprovalRouteHost R) ref rec owner es
      else direct_trace (Quantities L) (RecApplier R \<noteq> None) (IsHotplugCapable (Unstructured L) vm) ref rec es)"

context reconciler_env
begin

lemma autoApply_wp:
  assumes "rec \<in> hi w"
  shows "wp (autoApply L R rec vm) (\<lambda>_ w'. \<exists>es. trace ev hi w es w' \<and> auto_apply_trace L R vm w w' rec es) w"
proof (cases "RecOwnerResolver R = None \<or> RecTokenManager R = None")
  case True
  then show ?thesis using applyDirectly_trace[OF assms]
    by (auto simp: autoApply_def auto_apply_trace_def effectiveOwner_def split: option.splits)
next
  case False
  then obtain c tm where c: "RecOwnerResolver R = Some c" "RecTokenManager R = Some tm" by auto
  let ?ro = "ResolveOwner (Unstructured L) c (RefName (VirtualMachineRef (Spec rec)))
    (RefNamespace (VirtualMachineRef (Spec rec)))"
  obtain r w1 where run: "run_state ?ro w = (r, w1)" by fastforce
  then have o': "effectiveOwner L R rec w = ownerOf r" using c by (simp add: effectiveOwner_def)
  have t: "trace ev hi w [] w1"
    using recommendation_store.ResolveOwner_quiet[OF resolver[OF c(1)]] run unfolding quiet_def by (metis snd_conv)
  have lift: "wp m (\<lambda>_ w'. \<exists>es. trace ev hi w es w' \<and> P es w') w1"
    if "wp m (\<lambda>_ w'. \<exists>es. trace ev hi w1 es w' \<and> P es w') w1" for m :: "('w, unit) state" and P
    using that by (rule wp_conseq) (use trace_trans[OF t] in fastforce)
  have r1: "rec \<in> hi w1" using trace_hi[OF t assms] .
  have "wp ?ro (\<lambda>a. wp (if ownerOf a \<noteq> [] then requestApproval L R tm rec (ownerOf a) else applyDirectly L R rec vm)
      (\<lambda>_ w'. \<exists>es. trace ev hi w es w' \<and> auto_apply_trace L R vm w w' rec es)) w"
    using lift[OF requestApproval_trace[OF r1, of tm "ownerOf r"]] lift[OF applyDirectly_trace[OF r1, of vm]] run c(2)
    by (simp add: wp_def auto_apply_trace_def o' Let_def)
  then show ?thesis unfolding autoApply_def c prod.case option.case wp_bind .
qed

end

text \<open>C1: auto-apply respects ownership. When the VM or its namespace names an owner, no VM is
  touched: the recommendation is put into \<open>awaiting-approval\<close> for that owner with a token signed for it,
  and notifications with the link to this token go out only after that status was stored. Otherwise the
  VM is patched with the recommended size before the status says applied, and only the status
  \<open>failed\<close> can follow a failed patch. Either is done in full unless the token cannot be signed or the
  API server refuses the status. A failed owner resolution counts as no owner.\<close>

theorem auto_apply_owner_gate:
  assumes "reconciler_env L R ev hi" and "rec \<in> hi w"
    and "run_state (autoApply L R rec vm) w = (r, w')"
  shows "\<exists>es. trace ev hi w es w' \<and> auto_apply_trace L R vm w w' rec es"
  using wpD[OF reconciler_env.autoApply_wp[OF assms(1,2)] assms(3)] .

lemma ownedWorld_owner: "effectiveOwner memLib (memReconciler u) (sampleRec st) (ownedWorld st) = ''alice''"
  by (simp add: effectiveOwner_def ResolveOwner_def ownedWorld_def mem_run sampleSpec_def ownerOf_def)

theorem auto_apply_owner_gate_witness:
  "\<exists>es w'. trace wEvents memHist (ownedWorld pendingStatus) es w' \<and>
    auto_apply_trace memLib (memReconciler sampleUtil) JNull (ownedWorld pendingStatus) w' (sampleRec pendingStatus) es \<and>
    effectiveOwner memLib (memReconciler sampleUtil) (sampleRec pendingStatus) (ownedWorld pendingStatus) = ''alice''"
  using auto_apply_owner_gate[OF mem.reconciler_env_axioms sampleRec_stored(2) prod.collapse[symmetric]] ownedWorld_owner
  by metis

text \<open>C8: what one run does about a pending approval request. More than 14 days after the request was
  sent it resets the recommendation to pending; between 7 and 14 days it sends the link over every
  channel but ServiceNow and then notes the reminder in the status, unless the status already notes one
  (as it does after a reminder for an earlier request that was rejected); an error is returned where the
  API server refuses the status. Nothing happens at any other time, nor to a recommendation that does
  not await approval.\<close>

theorem approval_follow_up:
  assumes "reconciler_env L R ev hi" and "rec \<in> hi w"
    and "run_state (followUpApproval L R rec) w = (r, w')"
  shows "\<exists>es. trace ev hi w es w' \<and> follow_up L R ev hi rec r es w'"
  using wpD[OF reconciler_env.followUpApproval_trace[OF assms(1,2)] assms(3)] .

definition remindStatus :: "int RightsizingRecommendationStatus" where
  "remindStatus = emptyStatus\<lparr>State := StateAwaitingApproval, Owner := ''alice'', ApprovalToken := ''t'',
     NotifiedAt := Some (1000 * Second - 8 * 24 * Hour), RevertConfig := Some (Current sampleSpec)\<rparr>"

lemma sample_reminder:
  "\<exists>r w'. run_state (followUpApproval memLib (memReconciler sampleUtil) (sampleRec remindStatus)) (sampleWorld remindStatus) = (r, w') \<and>
    length (wEvents w') = 4"
  by (simp add: followUpApproval_def Let_def timeSub_def remindStatus_def SendAllExcept_def sendFiltered_def mem_run)

theorem approval_follow_up_witness:
  "\<exists>es w'. trace wEvents memHist (sampleWorld remindStatus) es w' \<and>
    (\<exists>r. follow_up memLib (memReconciler sampleUtil) wEvents memHist (sampleRec remindStatus) r es w') \<and> length es = 4"
proof -
  obtain r w' where run: "run_state (followUpApproval memLib (memReconciler sampleUtil) (sampleRec remindStatus))
      (sampleWorld remindStatus) = (r, w')" and len: "length (wEvents w') = 4"
    using sample_reminder by blast
  obtain es where es: "trace wEvents memHist (sampleWorld remindStatus) es w'" "follow_up memLib (memReconciler sampleUtil) wEvents memHist (sampleRec remindStatus) r es w'"
    using approval_follow_up[OF mem.reconciler_env_axioms sampleRec_stored(1) run] by blast
  moreover have "wEvents (sampleWorld remindStatus) = []" by (simp add: sampleWorld_def emptyWorld_def)
  ultimately show ?thesis using len by (metis trace_def append_Nil)
qed

text \<open>C32: a VM with the exclusion annotation gets no recommendation, and one it has is deleted, unless it
  is in an approval or restart workflow or the API server reports a failure. Nothing else is written, and the
  reconciliation is repeated after the configured time.\<close>

theorem excluded_vm_untouched:
  assumes "reconciler_env L R ev hi"
    and "run_state (getPolicy (RecClient R) ''default'') w = (Inr policy, w1)"
    and "run_state (getVMObject (RecClient R) ns name) w1 = (Inr vm, w2)"
    and "GetAnnotations (Unstructured L) vm AnnotationExclude = Some ''true''"
    and "run_state (Reconcile L R ns name) w = (res, w')"
  shows "res = Requeue (i64 (ReconcileIntervalMinutes (PolicySpec policy) * Minute)) \<and>
    (\<exists>es. trace ev hi w es w' \<and>
      delete_outcome R (fst (run_state (getRec (RecClient R) ns (''vm-'' @ name)) w2)) es w')"
proof -
  have store: "recommendation_store (RecClient R) ev hi" using assms(1) by (simp add: reconciler_env_def)
  have t: "trace ev hi w [] w1" "trace ev hi w1 [] w2"
    using recommendation_store.getPolicy_quiet[OF store, of "''default''"] assms(2)
      recommendation_store.getVMObject_quiet[OF store, of ns name] assms(3)
    unfolding quiet_def by (metis snd_conv)+
  have run: "run_state (Reconcile L R ns name) w =
      (case run_state (deleteExistingRecommendation R name ns) w2 of
         (_, v) \<Rightarrow> (Requeue (i64 (ReconcileIntervalMinutes (PolicySpec policy) * Minute)), v))"
    using assms(2,3,4) by (simp add: Reconcile_def reconcileVM_def getVM_def Let_def)
  obtain v where d: "run_state (deleteExistingRecommendation R name ns) w2 = ((), v)"
    by (cases "run_state (deleteExistingRecommendation R name ns) w2") auto
  obtain es where es: "trace ev hi w2 es v" "delete_outcome R (fst (run_state (getRec (RecClient R) ns (''vm-'' @ name)) w2)) es v"
    using wpD[OF reconciler_env.deleteExisting_outcome[OF assms(1)] d] by blast
  have "trace ev hi w es v" using trace_trans[OF trace_trans[OF t] es(1)] by simp
  then show ?thesis using es(2) run d assms(5) by auto
qed

definition excludedWorld :: memWorld where
  "excludedWorld = (sampleWorld pendingStatus)\<lparr>
     wVMs := [((''prod'', ''web''), vmDoc ''prod'' ''web'' [] [(AnnotationExclude, ''true'')] 8 ''16Gi'' 0)],
     wPolicy := Some \<lparr>PolicyName = ''default'', PolicyResourceVersion = 1,
       PolicySpec = the (DefaultPolicySpec memQuantities)\<rparr>\<rparr>"

lemma excluded_deletes:
  "\<exists>w'. run_state (Reconcile memLib (memReconciler sampleUtil) ''prod'' ''web'') excludedWorld =
      (Requeue (i64 (ReconcileIntervalMinutes (the (DefaultPolicySpec memQuantities)) * Minute)), w') \<and>
    wEvents w' = [RecDeleted (sampleRec pendingStatus)]"
  by (simp add: Reconcile_def reconcileVM_def getVM_def deleteExistingRecommendation_def excludedWorld_def mem_run Let_def
      pendingStatus_def)

theorem excluded_vm_untouched_witness:
  "\<exists>es res w'. run_state (Reconcile memLib (memReconciler sampleUtil) ''prod'' ''web'') excludedWorld = (res, w') \<and>
    trace wEvents memHist excludedWorld es w' \<and>
    delete_outcome (memReconciler sampleUtil) (Inr (sampleRec pendingStatus)) es w' \<and> length es = 1"
proof -
  obtain res w' where run: "run_state (Reconcile memLib (memReconciler sampleUtil) ''prod'' ''web'') excludedWorld = (res, w')"
    and len: "length (wEvents w') = 1" using excluded_deletes by auto
  have "\<exists>es. trace wEvents memHist excludedWorld es w' \<and>
      delete_outcome (memReconciler sampleUtil) (Inr (sampleRec pendingStatus)) es w'"
    using excluded_vm_untouched[where ns = "''prod''" and name = "''web''" and w = excludedWorld and ?w1.0 = excludedWorld
        and ?w2.0 = excludedWorld and vm = "vmDoc ''prod'' ''web'' [] [(AnnotationExclude, ''true'')] 8 ''16Gi'' 0"
        and policy = "\<lparr>PolicyName = ''default'', PolicyResourceVersion = 1, PolicySpec = the (DefaultPolicySpec memQuantities)\<rparr>",
        OF mem.reconciler_env_axioms[of sampleUtil] _ _ _ run]
    by (simp add: excludedWorld_def mem_run)
  moreover have "wEvents excludedWorld = []" by (simp add: excludedWorld_def mem_run)
  ultimately show ?thesis using run len by (auto simp: trace_def)
qed

text \<open>C30: no reconciliation panics, whatever the cluster, Prometheus or the policy return: every
  quantity it builds from a number of GiB parses.\<close>

theorem reconcile_never_panics:
  assumes "quantities (Quantities L)"
    and "run_state (Reconcile L R ns name) w = (res, w')"
  shows "res \<noteq> Panicked"
  using wpD[OF quantities.Reconcile_no_panic[OF assms(1) refl] assms(2)] .

theorem reconcile_never_panics_witness:
  "fst (run_state (Reconcile memLib (memReconciler sampleUtil) ''prod'' ''web'') (sampleWorld pendingStatus)) \<noteq> Panicked"
  using reconcile_never_panics[where L = memLib, OF _ prod.collapse[symmetric]] mem.quantities_axioms by simp

end
