(* ===== verification/Prometheus_Client.thy ===== *)
theory Prometheus_Client
  imports Http Go_Float Recommendation_Controller
begin

text \<open>
  The metrics client (\<open>internal/prometheus/client.go\<close>, \<open>internal/prometheus/queries.go\<close>) and the
  adapter of \<open>cmd/main.go\<close> through which the recommendation controller calls it.

  \<^item> The HTTP client is a parameter: a function from the request to an error or an answer. The
    body of an answer is kept twice, as text (for the error message) and as the JSON value that
    the decoder reads from it (\<open>None\<close>: not JSON).
  \<^item> Every element of a JSON array is decoded into a zero value. That differs from
    \<open>encoding/json\<close> only for an object that repeats an array member.
  \<^item> \<open>ComputePercentile\<close> fails only on an index out of range, which
    \<open>ComputePercentile_total\<close> excludes for fewer than \<open>2 ^ 53\<close> samples.
\<close>

section \<open>Queries\<close>

definition sanitizeLabelValue :: "string \<Rightarrow> string" where
  "sanitizeLabelValue s =
    ReplaceChar (CHR 13) [] (ReplaceChar (CHR 10) []
      (ReplaceChar (CHR 0x22) [CHR 0x5C, CHR 0x22] (ReplaceChar (CHR 0x5C) [CHR 0x5C, CHR 0x5C] s)))"

text \<open>\<open>label="value"\<close>\<close>

abbreviation labelMatcher :: "string \<Rightarrow> string \<Rightarrow> string" where
  "labelMatcher label v \<equiv> label @ CHR ''='' # CHR 0x22 # sanitizeLabelValue v @ [CHR 0x22]"

definition cpuUsageQuery :: "string \<Rightarrow> string \<Rightarrow> string \<Rightarrow> string" where
  "cpuUsageQuery vmName namespace lookback =
    ''rate(kubevirt_vmi_cpu_usage_seconds_total{'' @ labelMatcher ''name'' vmName @ '','' @
    labelMatcher ''namespace'' namespace @ ''}[5m])['' @ lookback @ '':1m]''"

definition memoryResidentQuery :: "string \<Rightarrow> string \<Rightarrow> string \<Rightarrow> string" where
  "memoryResidentQuery vmName namespace lookback =
    ''kubevirt_vmi_memory_resident_bytes{'' @ labelMatcher ''name'' vmName @ '','' @
    labelMatcher ''namespace'' namespace @ ''}['' @ lookback @ '']''"

definition containerCPUQuery :: "string \<Rightarrow> string \<Rightarrow> string \<Rightarrow> string" where
  "containerCPUQuery container namespace lookback =
    ''rate(container_cpu_usage_seconds_total{'' @ labelMatcher ''container'' container @ '','' @
    labelMatcher ''namespace'' namespace @ '',image!='' @ [CHR 0x22, CHR 0x22] @ ''}[5m])['' @ lookback @ '':1m]''"

definition containerMemoryQuery :: "string \<Rightarrow> string \<Rightarrow> string \<Rightarrow> string" where
  "containerMemoryQuery container namespace lookback =
    ''container_memory_working_set_bytes{'' @ labelMatcher ''container'' container @ '','' @
    labelMatcher ''namespace'' namespace @ '',image!='' @ [CHR 0x22, CHR 0x22] @ ''}['' @ lookback @ '']''"

section \<open>The client\<close>

record PromRequest =
  PromURL :: string
  PromAuthorization :: string

record PromResponse =
  PromStatus :: nat
  PromBody :: string
  PromJSON :: "json option"

record 'w Client =
  baseURL :: string
  promHTTPClient :: "PromRequest \<Rightarrow> ('w, string + PromResponse) state"
  bearerToken :: string

record VMMetricSample =
  SampleVMName :: string
  SampleNamespace :: string
  Values :: "float64 list"

record VMMetrics =
  CPUSamples :: "float64 list"
  MemorySamples :: "float64 list"

record PromUtilization =
  PromCPUP95 :: float64
  PromMemoryP95 :: float64
  PromCPUMax :: float64
  PromMemoryMax :: float64
  PromDataPoints :: int

text \<open>\<open>strings.TrimSpace\<close> on ASCII text.\<close>

definition TrimSpace :: "string \<Rightarrow> string" where
  "TrimSpace s = (let blank = (\<lambda>c. (of_char c :: nat) \<in> {9, 10, 11, 12, 13, 32}) in
     rev (dropWhile blank (rev (dropWhile blank s))))"

text \<open>\<open>tokenFile\<close> is the content of the service account token, \<open>None\<close> where it cannot be read;
  \<open>plain\<close> and \<open>insecure\<close> are the two HTTP clients, the second without verification of the
  server's certificate.\<close>

definition NewClient :: "string option \<Rightarrow> (PromRequest \<Rightarrow> ('w, string + PromResponse) state) \<Rightarrow>
    (PromRequest \<Rightarrow> ('w, string + PromResponse) state) \<Rightarrow> string \<Rightarrow> 'w Client" where
  "NewClient tokenFile plainClient insecureClient url =
    (if HasPrefix url ''https://''
     then \<lparr>baseURL = url, promHTTPClient = insecureClient,
       bearerToken = (case tokenFile of Some data \<Rightarrow> TrimSpace data | None \<Rightarrow> [])\<rparr>
     else \<lparr>baseURL = url, promHTTPClient = plainClient, bearerToken = []\<rparr>)"

definition NewClientWithHTTPClient :: "string \<Rightarrow> (PromRequest \<Rightarrow> ('w, string + PromResponse) state) \<Rightarrow> 'w Client" where
  "NewClientWithHTTPClient url httpClient = \<lparr>baseURL = url, promHTTPClient = httpClient, bearerToken = []\<rparr>"

section \<open>The answer of a query\<close>

text \<open>One element of \<open>data.result\<close>: the labels and the points, each an array of any values.\<close>

record promResult =
  Metric :: "(string \<times> string) list"
  Points :: "json list list"

record prometheusResponse =
  RespStatus :: string
  ResultType :: string
  Result :: "promResult list"

fun decodeElements :: "(json \<Rightarrow> 'a option) \<Rightarrow> json list \<Rightarrow> 'a list option" where
  "decodeElements dec [] = Some []"
| "decodeElements dec (j # js) = (case dec j of
      None \<Rightarrow> None
    | Some x \<Rightarrow> map_option (Cons x) (decodeElements dec js))"

definition decodeSlice :: "(json \<Rightarrow> 'a option) \<Rightarrow> json \<Rightarrow> 'a list option" where
  "decodeSlice dec j = (case j of JNull \<Rightarrow> Some [] | JArr js \<Rightarrow> decodeElements dec js | _ \<Rightarrow> None)"

text \<open>A \<open>map[string]string\<close>, newest entry first.\<close>

fun decodeStringMap :: "(string \<times> json) list \<Rightarrow> (string \<times> string) list \<Rightarrow> (string \<times> string) list option" where
  "decodeStringMap [] m = Some m"
| "decodeStringMap ((k, v) # kvs) m = (case decodeString v [] of
      None \<Rightarrow> None
    | Some s \<Rightarrow> decodeStringMap kvs ((k, s) # m))"

definition decodeLabels :: "json \<Rightarrow> (string \<times> string) list \<Rightarrow> (string \<times> string) list option" where
  "decodeLabels j m = (case j of JNull \<Rightarrow> Some [] | JObj kvs \<Rightarrow> decodeStringMap kvs m | _ \<Rightarrow> None)"

definition setResult :: "string \<Rightarrow> json \<Rightarrow> promResult \<Rightarrow> promResult option" where
  "setResult k v r =
    (if k = ''metric'' then map_option (\<lambda>m. r\<lparr>Metric := m\<rparr>) (decodeLabels v (Metric r))
     else if k = ''values'' then map_option (\<lambda>ps. r\<lparr>Points := ps\<rparr>) (decodeSlice (decodeSlice Some) v)
     else Some r)"

definition setData :: "string \<Rightarrow> json \<Rightarrow> prometheusResponse \<Rightarrow> prometheusResponse option" where
  "setData k v p =
    (if k = ''resulttype'' then map_option (\<lambda>s. p\<lparr>ResultType := s\<rparr>) (decodeString v (ResultType p))
     else if k = ''result'' then
       map_option (\<lambda>rs. p\<lparr>Result := rs\<rparr>) (decodeSlice (\<lambda>j. decodeObject setResult j \<lparr>Metric = [], Points = []\<rparr>) v)
     else Some p)"

definition setResponse :: "string \<Rightarrow> json \<Rightarrow> prometheusResponse \<Rightarrow> prometheusResponse option" where
  "setResponse k v p =
    (if k = ''status'' then map_option (\<lambda>s. p\<lparr>RespStatus := s\<rparr>) (decodeString v (RespStatus p))
     else if k = ''data'' then decodeObject setData v p
     else Some p)"

definition decodeResponse :: "json option \<Rightarrow> prometheusResponse option" where
  "decodeResponse b = (case b of
      None \<Rightarrow> None
    | Some j \<Rightarrow> decodeObject setResponse j \<lparr>RespStatus = [], ResultType = [], Result = []\<rparr>)"

text \<open>The inner loop: a point counts when its second element is a string that parses.\<close>

definition pointValue :: "json list \<Rightarrow> float64 option" where
  "pointValue v = (case v of _ # JStr valStr # _ \<Rightarrow> ParseFloat valStr | _ \<Rightarrow> None)"

definition label :: "(string \<times> string) list \<Rightarrow> string \<Rightarrow> string" where
  "label m k = (case map_of m k of Some v \<Rightarrow> v | None \<Rightarrow> [])"

definition metricSample :: "promResult \<Rightarrow> VMMetricSample" where
  "metricSample r = \<lparr>SampleVMName = label (Metric r) ''name'', SampleNamespace = label (Metric r) ''namespace'',
     Values = List.map_filter pointValue (Points r)\<rparr>"

definition queryURL :: "string \<Rightarrow> string \<Rightarrow> string" where
  "queryURL url query = url @ ''/api/v1/query?query='' @ QueryEscape query"

text \<open>\<open>req.Header.Set\<close> comes after the request is made; an absent header is the empty string.\<close>

definition promRequest :: "'w Client \<Rightarrow> string \<Rightarrow> PromRequest option" where
  "promRequest c query =
    (let reqURL = queryURL (baseURL c) query in
     if NewRequestPath reqURL = None then None
     else Some \<lparr>PromURL = reqURL,
       PromAuthorization = (if bearerToken c \<noteq> [] then ''Bearer '' @ bearerToken c else [])\<rparr>)"

definition QueryRange :: "'w Client \<Rightarrow> string \<Rightarrow> ('w, string + VMMetricSample list) state" where
  "QueryRange c query =
    (case promRequest c query of
       None \<Rightarrow> ret (Inl ''creating request'')
     | Some req \<Rightarrow> do {
       r \<leftarrow> promHTTPClient c req;
       ret (case r of
         Inl err \<Rightarrow> Inl (''executing query: '' @ err)
       | Inr resp \<Rightarrow>
           if PromStatus resp \<noteq> 200
           then Inl (''prometheus returned status '' @ show_nat (PromStatus resp) @ '': '' @ take 4096 (PromBody resp))
           else (case decodeResponse (PromJSON resp) of
               None \<Rightarrow> Inl ''decoding response''
             | Some promResp \<Rightarrow> Inr (map metricSample (Result promResp))))
     })"

section \<open>Utilization\<close>

definition firstValues :: "VMMetricSample list \<Rightarrow> float64 list" where
  "firstValues samples = (case samples of [] \<Rightarrow> [] | s # _ \<Rightarrow> Values s)"

definition GetVMMetrics :: "'w Client \<Rightarrow> string \<Rightarrow> string \<Rightarrow> int \<Rightarrow> ('w, string + VMMetrics) state" where
  "GetVMMetrics c vmName namespace lookbackDays =
    (let lookback = show_int lookbackDays @ ''d'' in do {
       r \<leftarrow> QueryRange c (cpuUsageQuery vmName namespace lookback);
       case r of
         Inl err \<Rightarrow> ret (Inl (''querying CPU metrics: '' @ err))
       | Inr cpuSamples \<Rightarrow> do {
           r' \<leftarrow> QueryRange c (memoryResidentQuery vmName namespace lookback);
           ret (case r' of
             Inl err \<Rightarrow> Inl (''querying memory metrics: '' @ err)
           | Inr memSamples \<Rightarrow> Inr \<lparr>CPUSamples = firstValues cpuSamples, MemorySamples = firstValues memSamples\<rparr>)
         }
     })"

definition toPercent :: "float64 list \<Rightarrow> float64 \<Rightarrow> float64 list" where
  "toPercent samples tot =
    (if fle tot (Fin 0) then samples else map (\<lambda>v. fmul (fdiv v tot) (Fin 100)) samples)"

fun maxLoop :: "float64 \<Rightarrow> float64 list \<Rightarrow> float64" where
  "maxLoop m [] = m"
| "maxLoop m (v # vs) = maxLoop (if flt m v then v else m) vs"

definition maxValue :: "float64 list \<Rightarrow> float64" where
  "maxValue values = (case values of [] \<Rightarrow> Fin 0 | v # vs \<Rightarrow> maxLoop v vs)"

text \<open>The percentile of a utilization. An index outside the slice would be a panic; it cannot happen below
  \<open>2 ^ 53\<close> samples (\<open>ComputePercentile_total\<close>), and stands for \<open>NaN\<close> here.\<close>

definition percentile95 :: "(float64 \<Rightarrow> int) \<Rightarrow> float64 list \<Rightarrow> float64" where
  "percentile95 oor samples = (case ComputePercentile oor samples 95 of Some v \<Rightarrow> v | None \<Rightarrow> NaN)"

definition utilization :: "(float64 \<Rightarrow> int) \<Rightarrow> float64 list \<Rightarrow> float64 list \<Rightarrow> nat \<Rightarrow> PromUtilization" where
  "utilization oor cpu mem points = \<lparr>PromCPUP95 = percentile95 oor cpu, PromMemoryP95 = percentile95 oor mem,
     PromCPUMax = maxValue cpu, PromMemoryMax = maxValue mem, PromDataPoints = int points\<rparr>"

definition GetVMUtilization :: "(float64 \<Rightarrow> int) \<Rightarrow> 'w Client \<Rightarrow> string \<Rightarrow> string \<Rightarrow> int \<Rightarrow> int \<Rightarrow> int \<Rightarrow>
    ('w, string + PromUtilization) state" where
  "GetVMUtilization oor c vmName namespace lookbackDays cpuCores memoryBytes = do {
     r \<leftarrow> GetVMMetrics c vmName namespace lookbackDays;
     ret (case r of
       Inl err \<Rightarrow> Inl (''fetching VM metrics: '' @ err)
     | Inr metrics \<Rightarrow>
         (let cpuPct = toPercent (CPUSamples metrics) (f_of_int cpuCores);
              memPct = toPercent (MemorySamples metrics) (f_of_int memoryBytes)
          in Inr (utilization oor cpuPct memPct (length (CPUSamples metrics)))))
   }"

definition GetContainerMetrics :: "'w Client \<Rightarrow> string \<Rightarrow> string \<Rightarrow> int \<Rightarrow> ('w, string + VMMetrics) state" where
  "GetContainerMetrics c containerName namespace lookbackDays =
    (let lookback = show_int lookbackDays @ ''d'' in do {
       r \<leftarrow> QueryRange c (containerCPUQuery containerName namespace lookback);
       case r of
         Inl err \<Rightarrow> ret (Inl (''querying container CPU metrics: '' @ err))
       | Inr cpuSamples \<Rightarrow> do {
           r' \<leftarrow> QueryRange c (containerMemoryQuery containerName namespace lookback);
           ret (case r' of
             Inl err \<Rightarrow> Inl (''querying container memory metrics: '' @ err)
           | Inr memSamples \<Rightarrow> Inr \<lparr>CPUSamples = firstValues cpuSamples, MemorySamples = firstValues memSamples\<rparr>)
         }
     })"

definition GetContainerUtilization :: "(float64 \<Rightarrow> int) \<Rightarrow> 'w Client \<Rightarrow> string \<Rightarrow> string \<Rightarrow> int \<Rightarrow>
    ('w, string + PromUtilization) state" where
  "GetContainerUtilization oor c containerName namespace lookbackDays = do {
     r \<leftarrow> GetContainerMetrics c containerName namespace lookbackDays;
     ret (case r of
       Inl err \<Rightarrow> Inl (''fetching container metrics: '' @ err)
     | Inr metrics \<Rightarrow> Inr (utilization oor (CPUSamples metrics) (MemorySamples metrics) (length (CPUSamples metrics))))
   }"

text \<open>The adapter in \<open>cmd/main.go\<close>; the controller fills in the two sizes.\<close>

definition prometheusAdapter :: "(float64 \<Rightarrow> int) \<Rightarrow> 'w Client \<Rightarrow> string \<Rightarrow> string \<Rightarrow> int \<Rightarrow> int \<Rightarrow> int \<Rightarrow>
    ('w, string + VMUtilization) state" where
  "prometheusAdapter oor c vmName namespace lookbackDays cpuCores memoryBytes = do {
     r \<leftarrow> GetVMUtilization oor c vmName namespace lookbackDays cpuCores memoryBytes;
     ret (case r of
       Inl err \<Rightarrow> Inl err
     | Inr u \<Rightarrow> Inr \<lparr>CurrentCPUCores = 0, CurrentMemoryGiB = 0, UtilCPUP95 = PromCPUP95 u,
         UtilMemoryP95 = PromMemoryP95 u, UtilCPUMax = PromCPUMax u, UtilMemoryMax = PromMemoryMax u,
         DataPoints = PromDataPoints u\<rparr>)
   }"

section \<open>The label matchers\<close>

text \<open>How PromQL reads a string literal after its opening quote: up to the first quote without
  a backslash, a backslash before a quote or a backslash standing for that byte. The result is
  the string and the rest of the query. (The other escapes of PromQL are not needed here: the
  reader rejects them.)\<close>

fun readLiteral :: "string \<Rightarrow> (string \<times> string) option" where
  "readLiteral [] = None"
| "readLiteral [c] = (if c = CHR 0x22 then Some ([], []) else None)"
| "readLiteral (c # d # s) =
    (if c = CHR 0x22 then Some ([], d # s)
     else if c = CHR 0x5C then
       (if d = CHR 0x22 \<or> d = CHR 0x5C then map_option (apfst (Cons d)) (readLiteral s) else None)
     else if c = CHR 10 then None
     else map_option (apfst (Cons c)) (readLiteral (d # s)))"

definition stripBreaks :: "string \<Rightarrow> string" where
  "stripBreaks s = filter (\<lambda>c. c \<noteq> CHR 10 \<and> c \<noteq> CHR 13) s"

lemma sanitize_Nil [simp]: "sanitizeLabelValue [] = []"
  by (simp add: sanitizeLabelValue_def ReplaceChar_def)

lemma sanitize_Cons [simp]: "sanitizeLabelValue (c # s) =
    (if c = CHR 0x22 \<or> c = CHR 0x5C then [CHR 0x5C, c] else if c = CHR 10 \<or> c = CHR 13 then [] else [c]) @
    sanitizeLabelValue s"
  by (auto simp: sanitizeLabelValue_def ReplaceChar_def)

lemma readLiteral_byte: "c \<noteq> CHR 0x22 \<Longrightarrow> c \<noteq> CHR 0x5C \<Longrightarrow> c \<noteq> CHR 10 \<Longrightarrow> readLiteral s \<noteq> None \<Longrightarrow>
    readLiteral (c # s) = map_option (apfst (Cons c)) (readLiteral s)"
  by (cases s) auto

lemma readLiteral_quote [simp]: "readLiteral (CHR 0x22 # s) = Some ([], s)"
  by (cases s) auto

lemma readLiteral_sanitize:
  "readLiteral (sanitizeLabelValue v @ CHR 0x22 # rest) = Some (stripBreaks v, rest)"
  by (induction v) (auto simp: stripBreaks_def readLiteral_byte)

text \<open>C22: the query that reaches the metrics server asks for the named VM in its namespace and for
  nothing else, whatever bytes the names hold: the value of the \<open>query\<close> parameter unescapes to
  the expression, and each of its two label literals ends where the client closes it and reads as
  the given name without line breaks.\<close>

theorem vm_queries_select_vm:
  "(\<exists>p lit lit'. queryURL url (cpuUsageQuery vm ns lb) = url @ ''/api/v1/query?query='' @ p \<and>
     CHR ''&'' \<notin> set p \<and> CHR ''#'' \<notin> set p \<and>
     QueryUnescape p = ''rate(kubevirt_vmi_cpu_usage_seconds_total{name='' @ CHR 0x22 # lit \<and>
     readLiteral lit = Some (stripBreaks vm, '',namespace='' @ CHR 0x22 # lit') \<and>
     readLiteral lit' = Some (stripBreaks ns, ''}[5m])['' @ lb @ '':1m]'')) \<and>
   (\<exists>p lit lit'. queryURL url (memoryResidentQuery vm ns lb) = url @ ''/api/v1/query?query='' @ p \<and>
     CHR ''&'' \<notin> set p \<and> CHR ''#'' \<notin> set p \<and>
     QueryUnescape p = ''kubevirt_vmi_memory_resident_bytes{name='' @ CHR 0x22 # lit \<and>
     readLiteral lit = Some (stripBreaks vm, '',namespace='' @ CHR 0x22 # lit') \<and>
     readLiteral lit' = Some (stripBreaks ns, ''}['' @ lb @ '']''))"
  using QueryEscape_bytes
  by (intro conjI; fastforce simp: queryURL_def cpuUsageQuery_def memoryResidentQuery_def readLiteral_sanitize)

section \<open>Percentages\<close>

lemma ComputePercentile_total:
  assumes "0 \<le> p" "p \<le> 100" and "int (length samples) \<le> 2 ^ 53"
  shows "\<exists>v. ComputePercentile oor samples p = Some v"
proof (cases "length samples \<le> 1")
  case True
  then show ?thesis
    by (cases samples) (auto simp: ComputePercentile_def index_def)
next
  case False
  let ?n = "int (length samples) - 1" and ?s = "sort samples"
  have n: "1 \<le> ?n" "?n \<le> 2 ^ 53" using False assms(3) by auto
  obtain r where r: "fmul (fdiv (f_of_int p) (f_of_int 100)) (f_of_int ?n) = Fin r" "0 \<le> r" "r \<le> of_int ?n"
    using rank_range[OF assms(1,2) n] by blast
  note ix = rank_indices[OF r(2,3) n(2)]
  have "\<exists>x. index ?s i = Some x" if "0 \<le> i" "i \<le> ?n" for i
    using index_total[of i ?s] that by auto
  then obtain l u where "index ?s \<lfloor>r\<rfloor> = Some l" "index ?s \<lceil>r\<rceil> = Some u"
    using ix(3,4,5) by (meson order_trans)
  then show ?thesis using False r(1) ix(1,2)
    by (auto simp: ComputePercentile_def Let_def)
qed

text \<open>A sample set of non-negative representable values up to a bound.\<close>

definition samplesWithin :: "rat \<Rightarrow> float64 list \<Rightarrow> bool" where
  "samplesWithin b xs \<longleftrightarrow> (\<forall>s \<in> set xs. \<exists>x. s = Fin x \<and> round64 x = x \<and> 0 \<le> x \<and> x \<le> b)"

lemma maxLoop_max:
  assumes "samplesWithin b (m # vs)"
  shows "\<exists>x. maxLoop m vs = Fin x \<and> Fin x \<in> set (m # vs) \<and> (\<forall>y. Fin y \<in> set (m # vs) \<longrightarrow> y \<le> x)"
  using assms
proof (induction vs arbitrary: m)
  case Nil
  then show ?case by (auto simp: samplesWithin_def)
next
  case (Cons v vs)
  obtain x y where xy: "m = Fin x" "v = Fin y" using Cons.prems by (auto simp: samplesWithin_def)
  have "samplesWithin b ((if flt m v then v else m) # vs)" using Cons.prems by (auto simp: samplesWithin_def)
  from Cons.IH[OF this] show ?case using xy by (fastforce split: if_splits)
qed

text \<open>The maximum is the largest sample, and the percentile is at most that up to rounding.\<close>

lemma percentiles_of:
  assumes "samplesWithin b xs" "b \<le> 2 ^ 52" and "int (length xs) \<le> 2 ^ 53" and "0 \<le> b"
  shows "\<exists>p m. percentile95 oor xs = Fin p \<and> maxValue xs = Fin m \<and> 0 \<le> p \<and> p \<le> (1 + unit_roundoff) ^ 2 * m \<and>
    0 \<le> m \<and> m \<le> b \<and> (\<forall>y. Fin y \<in> set xs \<longrightarrow> y \<le> m) \<and> (xs = [] \<or> Fin m \<in> set xs)"
proof (cases xs)
  case Nil
  then show ?thesis using assms(4) by (simp add: percentile95_def ComputePercentile_def maxValue_def)
next
  case (Cons a as)
  obtain m where m: "maxValue xs = Fin m" "Fin m \<in> set xs" "\<forall>y. Fin y \<in> set xs \<longrightarrow> y \<le> m"
    using maxLoop_max[of b a as] assms(1) by (auto simp: maxValue_def Cons)
  have "\<exists>v lo hi. ComputePercentile oor xs 95 = Some (Fin v) \<and> Fin lo \<in> set xs \<and> Fin hi \<in> set xs \<and> lo \<le> v \<and>
      v \<le> (1 + unit_roundoff) ^ 2 * hi"
    using assms(1,2,3) Cons by (intro ComputePercentile_bounds) (auto simp: samplesWithin_def intro: order_trans)
  then obtain v lo hi where v: "percentile95 oor xs = Fin v" "Fin lo \<in> set xs" "Fin hi \<in> set xs" "lo \<le> v"
      "v \<le> (1 + unit_roundoff) ^ 2 * hi"
    by (auto simp: percentile95_def)
  have "(1 + unit_roundoff) ^ 2 * hi \<le> (1 + unit_roundoff) ^ 2 * m"
    using m(3) v(3) by (intro mult_left_mono) auto
  moreover have "0 \<le> lo" "0 \<le> m" "m \<le> b" using assms(1) v(2) m(2) by (auto simp: samplesWithin_def)
  ultimately show ?thesis using v m by auto
qed

text \<open>What the reported figures are measured against: a sample as a percentage of a size \<open>n\<close>, up to the
  two roundings of the conversion, and the percentile and maximum of a set of samples so converted.\<close>

definition inPercent :: "int \<Rightarrow> float64 \<Rightarrow> rat \<Rightarrow> bool" where
  "inPercent n s y \<longleftrightarrow> (\<exists>x. s = Fin x \<and> \<bar>y - 100 * x / of_int n\<bar> \<le> 200 * unit_roundoff \<and> 0 \<le> y \<and> y \<le> 100)"

definition reportedFor :: "rat list \<Rightarrow> float64 \<Rightarrow> float64 \<Rightarrow> bool" where
  "reportedFor cs p95 mx \<longleftrightarrow> (if cs = [] then p95 = Fin 0 \<and> mx = Fin 0
     else mx = Fin (Max (set cs)) \<and> (\<exists>v r. p95 = Fin v \<and> nearRank 95 (int (length cs) - 1) r \<and>
       nearInterpolation (sort cs) r v \<and> 0 \<le> v \<and> v \<le> (1 + unit_roundoff) ^ 2 * Max (set cs)))"

lemma percent_conversion:
  assumes "0 \<le> x" "x \<le> of_int n" and "0 < n" "n \<le> 2 ^ 53"
  shows "\<exists>y. fmul (fdiv (Fin x) (f_of_int n)) (Fin 100) = Fin y \<and> round64 y = y \<and> inPercent n (Fin x) y"
proof -
  define q z y where "q = x / of_int n" "z = round64 q" "y = round64 (z * 100)"
  note d = this
  have n: "f_of_int n = Fin (of_int n)" using assms(3,4) by (intro f_of_int_small) simp
  have q: "0 \<le> q" "q \<le> of_int 1" using assms by (simp_all add: d)
  note z = finite_below_int[OF q, folded d]
  have zb: "0 \<le> z * 100" "z * 100 \<le> of_int 100" using z by simp_all
  note y = finite_below_int[OF zb, folded d]
  have u: "0 \<le> unit_roundoff" "min_normal \<le> 1" by (simp_all add: unit_roundoff_def min_normal_def)
  have "\<bar>z - q\<bar> \<le> unit_roundoff * max \<bar>q\<bar> min_normal" "\<bar>y - z * 100\<bar> \<le> unit_roundoff * max \<bar>z * 100\<bar> min_normal"
    unfolding d by (rule round64_error_max)+
  moreover have "unit_roundoff * max \<bar>q\<bar> min_normal \<le> unit_roundoff * 1"
    "unit_roundoff * max \<bar>z * 100\<bar> min_normal \<le> unit_roundoff * 100"
    using u q zb by (intro mult_left_mono; simp)+
  ultimately have "\<bar>y - 100 * q\<bar> \<le> 200 * unit_roundoff" by linarith
  moreover have "fmul (fdiv (Fin x) (f_of_int n)) (Fin 100) = Fin y"
    using assms(3) y z by (simp add: n d)
  ultimately show ?thesis using y by (auto simp: inPercent_def d)
qed

lemma toPercent_reads:
  assumes "samplesWithin (of_int n) xs" and "0 < n" "n \<le> 2 ^ 53"
  obtains cs where "toPercent xs (f_of_int n) = map Fin cs" "list_all2 (inPercent n) xs cs" "\<forall>c \<in> set cs. round64 c = c"
proof -
  have n: "\<not> fle (f_of_int n) (Fin 0)" using assms(2,3) by (simp add: f_of_int_small)
  have "\<exists>cs. map (\<lambda>v. fmul (fdiv v (f_of_int n)) (Fin 100)) xs = map Fin cs \<and> list_all2 (inPercent n) xs cs \<and>
      (\<forall>c \<in> set cs. round64 c = c)"
    using assms(1)
  proof (induction xs)
    case Nil
    then show ?case by simp
  next
    case (Cons s xs)
    then obtain x where x: "s = Fin x" "0 \<le> x" "x \<le> of_int n" "samplesWithin (of_int n) xs" by (auto simp: samplesWithin_def)
    from percent_conversion[OF x(2,3) assms(2,3)] obtain y where
      y: "fmul (fdiv s (f_of_int n)) (Fin 100) = Fin y" "round64 y = y" "inPercent n s y" by (auto simp: x(1))
    from Cons.IH[OF x(4)] obtain cs where "map (\<lambda>v. fmul (fdiv v (f_of_int n)) (Fin 100)) xs = map Fin cs"
        "list_all2 (inPercent n) xs cs" "\<forall>c \<in> set cs. round64 c = c" by blast
    with y show ?case by (intro exI[of _ "y # cs"]) simp
  qed
  then show thesis using that by (auto simp: toPercent_def n)
qed

lemma list_all2_inPercent: "list_all2 (inPercent n) xs cs \<Longrightarrow> c \<in> set cs \<Longrightarrow> 0 \<le> c \<and> c \<le> 100"
  by (induction xs cs rule: list_all2_induct) (auto simp: inPercent_def)

lemma reported_percentiles:
  assumes "samplesWithin (of_int n) xs" and "0 < n" "n \<le> 2 ^ 53" and "int (length xs) \<le> 2 ^ 53"
  shows "\<exists>cs. list_all2 (inPercent n) xs cs \<and>
    reportedFor cs (percentile95 oor (toPercent xs (f_of_int n))) (maxValue (toPercent xs (f_of_int n)))"
proof -
  obtain cs where cs: "toPercent xs (f_of_int n) = map Fin cs" "list_all2 (inPercent n) xs cs"
      "\<forall>c \<in> set cs. round64 c = c"
    by (rule toPercent_reads[OF assms(1-3)])
  note b = list_all2_inPercent[OF cs(2)]
  have len: "int (length cs) \<le> 2 ^ 53" using assms(4) list_all2_lengthD[OF cs(2)] by simp
  have "samplesWithin 100 (map Fin cs)" using b cs(3) by (auto simp: samplesWithin_def)
  from percentiles_of[OF this, of oor] len obtain p m where
    pm: "percentile95 oor (map Fin cs) = Fin p" "maxValue (map Fin cs) = Fin m" "0 \<le> p"
      "p \<le> (1 + unit_roundoff) ^ 2 * m" "\<And>y. y \<in> set cs \<Longrightarrow> y \<le> m" "cs = [] \<or> m \<in> set cs" by auto
  have "reportedFor cs (percentile95 oor (map Fin cs)) (maxValue (map Fin cs))"
  proof (cases "cs = []")
    case True
    then show ?thesis by (simp add: reportedFor_def percentile95_def ComputePercentile_def maxValue_def)
  next
    case False
    have S: "round64 c = c \<and> 0 \<le> c \<and> c \<le> 2 ^ 52" if "c \<in> set cs" for c using b[OF that] cs(3) that by auto
    obtain v r where "ComputePercentile oor (map Fin cs) 95 = Some (Fin v)" "nearRank 95 (int (length cs) - 1) r"
        "nearInterpolation (sort cs) r v"
      using ComputePercentile_interpolates[OF False _ _ len S, of 95 oor] by auto
    moreover have "Max (set cs) = m" using pm(5,6) False by (intro Max_eqI) auto
    ultimately show ?thesis using False pm(1-4) by (auto simp: reportedFor_def percentile95_def)
  qed
  then show ?thesis using cs(1,2) by auto
qed

text \<open>C21: utilization of a VM is reported in percent of its size: when every sample lies between zero
  and the size of the VM, the figures are those of the samples taken as percentages of that
  size, each between 0 and 100 and exact up to two roundings. The maximum is the largest of them,
  the 95th percentile is their linear interpolation at 95 percent of the last index (up to
  the roundings of the percentile computation) and is at most the maximum up to two roundings; without
  samples both are zero. The number of data points is the number of CPU samples.\<close>

theorem utilization_in_percent:
  assumes "run_state (GetVMMetrics c vm ns days) w = (Inr ms, w')"
    and "samplesWithin (of_int cores) (CPUSamples ms)" "samplesWithin (of_int bytes) (MemorySamples ms)"
    and "0 < cores" "cores \<le> 2 ^ 31" "0 < bytes" "bytes \<le> 2 ^ 53"
    and "int (length (CPUSamples ms)) \<le> 2 ^ 53" "int (length (MemorySamples ms)) \<le> 2 ^ 53"
  shows "\<exists>u cpu mem. run_state (GetVMUtilization oor c vm ns days cores bytes) w = (Inr u, w') \<and>
    PromDataPoints u = int (length (CPUSamples ms)) \<and>
    list_all2 (inPercent cores) (CPUSamples ms) cpu \<and> reportedFor cpu (PromCPUP95 u) (PromCPUMax u) \<and>
    list_all2 (inPercent bytes) (MemorySamples ms) mem \<and> reportedFor mem (PromMemoryP95 u) (PromMemoryMax u)"
proof -
  have "cores \<le> 2 ^ 53" using assms(5) by simp
  from reported_percentiles[OF assms(2,4) this assms(8), of oor] reported_percentiles[OF assms(3,6,7,9), of oor]
  show ?thesis using assms(1) by (auto simp: GetVMUtilization_def utilization_def Let_def)
qed

section \<open>What a query returns\<close>

text \<open>The answer of Prometheus to a range query: a matrix, each series its labels with its points, a
  time and a value as a string.\<close>

definition encodeSeries :: "(string \<times> string) list \<times> (json \<times> string) list \<Rightarrow> json" where
  "encodeSeries s = JObj [(''metric'', JObj (map (\<lambda>(k, v). (k, JStr v)) (fst s))),
     (''values'', JArr (map (\<lambda>(t, v). JArr [t, JStr v]) (snd s)))]"

definition encodeMatrix :: "((string \<times> string) list \<times> (json \<times> string) list) list \<Rightarrow> json" where
  "encodeMatrix ss = JObj [(''status'', JStr ''success''),
     (''data'', JObj [(''resultType'', JStr ''matrix''), (''result'', JArr (map encodeSeries ss))])]"

lemma prom_keys:
  "ToLower ''status'' = ''status''" "ToLower ''data'' = ''data''" "ToLower ''resultType'' = ''resulttype''"
  "ToLower ''result'' = ''result''" "ToLower ''metric'' = ''metric''" "ToLower ''values'' = ''values''"
  by code_simp+

lemma decodeElements_map: "(\<And>x. x \<in> set xs \<Longrightarrow> dec (f x) = Some (g x)) \<Longrightarrow> decodeElements dec (map f xs) = Some (map g xs)"
  by (induction xs) auto

lemma decodeStringMap_JStr:
  "decodeStringMap (map (\<lambda>(k, v). (k, JStr v)) labels) m = Some (rev labels @ m)"
  by (induction labels arbitrary: m) (auto simp: decodeString_def)

lemma decode_series:
  "decodeObject setResult (encodeSeries s) \<lparr>Metric = [], Points = []\<rparr> =
    Some \<lparr>Metric = rev (fst s), Points = map (\<lambda>(t, v). [t, JStr v]) (snd s)\<rparr>"
proof -
  have "decodeSlice (decodeSlice Some) (JArr (map (\<lambda>(t, v). JArr [t, JStr v]) (snd s))) =
      Some (map (\<lambda>(t, v). [t, JStr v]) (snd s))"
    unfolding decodeSlice_def json.case by (rule decodeElements_map) auto
  then show ?thesis
    by (simp add: encodeSeries_def decodeObject_def setResult_def prom_keys decodeLabels_def decodeStringMap_JStr)
qed

lemma decode_matrix:
  "decodeResponse (Some (encodeMatrix ss)) = Some \<lparr>RespStatus = ''success'', ResultType = ''matrix'',
     Result = map (\<lambda>s. \<lparr>Metric = rev (fst s), Points = map (\<lambda>(t, v). [t, JStr v]) (snd s)\<rparr>) ss\<rparr>"
proof -
  have "decodeSlice (\<lambda>j. decodeObject setResult j \<lparr>Metric = [], Points = []\<rparr>) (JArr (map encodeSeries ss)) =
      Some (map (\<lambda>s. \<lparr>Metric = rev (fst s), Points = map (\<lambda>(t, v). [t, JStr v]) (snd s)\<rparr>) ss)"
    unfolding decodeSlice_def json.case by (rule decodeElements_map) (rule decode_series)
  then show ?thesis
    by (simp add: decodeResponse_def encodeMatrix_def decodeObject_def[of setResponse] setResponse_def prom_keys
        decodeObject_def[of setData] setData_def decodeString_def)
qed

lemma label_rev: "distinct (map fst m) \<Longrightarrow> label (rev m) k = label m k"
proof -
  assume m: "distinct (map fst m)"
  then have "map_of (rev m) = map_of m" by (subst map_of_inject_set) (simp_all flip: rev_map)
  then show "label (rev m) k = label m k" by (simp add: label_def)
qed

text \<open>A query returns every series of the answer, in order: its name and namespace labels and
  those of its values that parse as numbers, in order. A point whose value does not parse is left
  out and nothing else is lost.\<close>

theorem query_returns_series:
  assumes "promRequest c q = Some req" and "run_state (promHTTPClient c req) w = (Inr resp, w')"
    and "PromStatus resp = 200" "PromJSON resp = Some (encodeMatrix ss)"
    and "\<forall>s \<in> set ss. distinct (map fst (fst s))"
  shows "run_state (QueryRange c q) w = (Inr (map (\<lambda>s. \<lparr>SampleVMName = label (fst s) ''name'',
      SampleNamespace = label (fst s) ''namespace'', Values = List.map_filter ParseFloat (map snd (snd s))\<rparr>) ss), w')"
proof -
  have "List.map_filter pointValue (map (\<lambda>(t, v). [t, JStr v]) ps) = List.map_filter ParseFloat (map snd ps)" for ps
    by (induction ps) (auto simp: map_filter_simps pointValue_def split: option.splits)
  then show ?thesis using assms
    by (simp add: QueryRange_def decode_matrix metricSample_def label_rev)
qed

section \<open>The assessment of the controller\<close>

lemma assessVM_metrics:
  fixes L :: "('w, 'o, 'q) lib" and cores memGiB :: int
  assumes "\<not> RecDemoMode R" and "PromClient R = prometheusAdapter (Oor L) c"
    and "run_state (GetVMMetrics c name ns (LookbackDays ps)) w = (Inr ms, w')"
  defines "cpu \<equiv> toPercent (CPUSamples ms) (f_of_int cores)"
    and "mem \<equiv> toPercent (MemorySamples ms) (f_of_int (i64 (memGiB * 2 ^ 30)))"
  defines "u \<equiv> \<lparr>CurrentCPUCores = cores, CurrentMemoryGiB = memGiB, UtilCPUP95 = percentile95 (Oor L) cpu,
    UtilMemoryP95 = percentile95 (Oor L) mem, UtilCPUMax = maxValue cpu, UtilMemoryMax = maxValue mem,
    DataPoints = int (length (CPUSamples ms))\<rparr>"
  shows "run_state (assessVM L R ps name ns cores memGiB) w =
    (if int (length (CPUSamples ms)) < minDataPoints then Skip True
     else (case Analyze (Oor L) (analysisInput (Quantities L) ps u) of
         None \<Rightarrow> Skip True | Some result \<Rightarrow> Assessed result u), w')"
  using assms(1,2,3) unfolding u_def cpu_def mem_def
  by (auto simp: assessVM_def prometheusAdapter_def GetVMUtilization_def utilization_def Let_def split: option.splits)

lemma headroomSize_idle:
  assumes "0 \<le> h" "h \<le> 2 ^ 53" "is_i32 n"
  shows "headroomSize oor h n (Fin 0) = 0"
proof -
  have "0 \<le> (of_int h :: rat) / 100" "(of_int h :: rat) / 100 \<le> of_int (2 ^ 52)" using assms(1,2) by simp_all
  note q = finite_below_int[OF this]
  have "f_of_int h = Fin (of_int h)" using assms(1,2) by (intro f_of_int_small) simp
  then have d: "fdiv (f_of_int h) (f_of_int 100) = Fin (round64 (of_int h / 100))" using q(1) by (simp add: f_of_int_small)
  have "0 \<le> 1 + round64 (of_int h / 100)" "1 + round64 (of_int h / 100) \<le> of_int (2 ^ 53)" using q(2,3) by simp_all
  from finite_below_int(1)[OF this] have "fadd (f_of_int 1) (fdiv (f_of_int h) (f_of_int 100)) =
      Fin (round64 (1 + round64 (of_int h / 100)))"
    unfolding d by (simp add: f_of_int_small)
  then show ?thesis using assms(3)
    by (simp add: headroomSize_def Let_def f_of_int_small Ceil_def trunc_rat_def is_i32_def[of 0])
qed

text \<open>The size that a load of zero percent would need is zero, so an upsize keeps what the VM has.\<close>

lemma targetSize_idle: "is_i32 n \<Longrightarrow> targetSize oor n (Fin 0) = 0"
  by (rule seventy_bounds) (simp add: targetSize_def f_of_int_small Ceil_def trunc_rat_def is_i32_def[of 0])

text \<open>C37: a VM whose memory metric returns no series counts as using no memory at all: only the CPU
  samples are counted as data points, every downsize that the controller derives recommends
  one gibibyte of memory, whatever the VM has, and every upsize keeps the memory it has.\<close>

theorem missing_memory_series:
  assumes "\<not> RecDemoMode R" and "PromClient R = prometheusAdapter (Oor L) c"
    and "run_state (GetVMMetrics c name ns (LookbackDays ps)) w = (Inr ms, w')" and "MemorySamples ms = []"
    and "0 \<le> HeadroomPercent (Algorithm ps)" "HeadroomPercent (Algorithm ps) \<le> 2 ^ 53" "1 \<le> memGiB" "is_i32 memGiB"
    and "fst (run_state (assessVM L R ps name ns cores memGiB) w) = Assessed result u"
  shows "DataPoints u = int (length (CPUSamples ms)) \<and> UtilMemoryP95 u = Fin 0 \<and> UtilMemoryMax u = Fin 0 \<and>
    (if resDirection result = Downsize then RecommendedMemoryGiB result = 1 \<and> MemorySavings result = memGiB - 1
     else resDirection result = Upsize \<and> RecommendedMemoryGiB result = memGiB \<and> MemorySavings result = 0)"
proof -
  have idle: "percentile95 (Oor L) (toPercent [] t) = Fin 0" "maxValue (toPercent [] t) = Fin 0" for t
    by (simp_all add: percentile95_def ComputePercentile_def maxValue_def toPercent_def)
  obtain inp where r: "Analyze (Oor L) inp = Some result" and inp: "inMemoryP95Percent inp = Fin 0" "inMemoryMaxPercent inp = Fin 0"
      "inCurrentMemoryGiB inp = memGiB" "inHeadroomPercent inp = HeadroomPercent (Algorithm ps)"
    and u: "DataPoints u = int (length (CPUSamples ms)) \<and> UtilMemoryP95 u = Fin 0 \<and> UtilMemoryMax u = Fin 0"
    using assms(4,9) unfolding assessVM_metrics[OF assms(1,2,3)]
    by (auto simp: idle analysisInput_def split: if_splits option.splits)
  have "fMax (Fin 0) (Fin 0) = Fin 0" by (simp add: fMax_def)
  moreover have "clampDown memGiB 0 = 1" "clampUp memGiB 0 = memGiB" using assms(7) by (simp_all add: clampDown_def clampUp_def)
  ultimately have "if resDirection result = Downsize then RecommendedMemoryGiB result = 1 \<and> MemorySavings result = memGiB - 1
     else resDirection result = Upsize \<and> RecommendedMemoryGiB result = memGiB \<and> MemorySavings result = 0"
    using r assms(7,8) headroomSize_idle[OF assms(5,6,8)] targetSize_idle[OF assms(8)]
    by (auto simp: Analyze_def analyzeUpsize_def analyzeDownsize_def Let_def Downsize_def Upsize_def inp i32_diff_nonneg
        split: if_splits)
  with u show ?thesis by simp
qed

text \<open>With a look-back of at most three days no VM is ever assessed: the CPU query samples once a
  minute, so its answer has at most \<open>1440\<close> points a day and one more, below the \<open>5040\<close> that
  the controller demands. Reconciliation then removes an existing recommendation.\<close>

theorem short_lookback_never_assessed:
  assumes "\<not> RecDemoMode R" and "PromClient R = prometheusAdapter (Oor L) c"
    and "run_state (GetVMMetrics c name ns (LookbackDays ps)) w = (Inr ms, w')"
    and "int (length (CPUSamples ms)) \<le> 1440 * LookbackDays ps + 1" and "LookbackDays ps \<le> 3"
  shows "run_state (assessVM L R ps name ns cores memGiB) w = (Skip True, w')"
  using assms(4,5) by (simp add: assessVM_metrics[OF assms(1,2,3)] minDataPoints_def)

text \<open>The service account token leaves the process only over TLS: a client made by \<open>NewClient\<close>
  sends an \<open>Authorization\<close> header only to an address that begins with \<open>https://\<close>.\<close>

theorem token_only_over_https:
  assumes "promRequest (NewClient tokenFile plainClient insecureClient url) q = Some req"
    and "PromAuthorization req \<noteq> []"
  shows "HasPrefix (PromURL req) ''https://'' \<and> (\<exists>data. tokenFile = Some data \<and>
    PromAuthorization req = ''Bearer '' @ TrimSpace data)"
  using assms
  by (auto simp: promRequest_def NewClient_def queryURL_def HasPrefix_iff Let_def split: if_splits option.splits)

section \<open>A metrics server\<close>

text \<open>A server that answers a CPU query with \<open>n\<close> points of one value, any other query with \<open>m\<close> points,
  and a query without points with no series.\<close>

definition matrixOf :: "nat \<Rightarrow> string \<Rightarrow> ((string \<times> string) list \<times> (json \<times> string) list) list" where
  "matrixOf n v = (if n = 0 then [] else [([(''name'', ''web''), (''namespace'', ''prod'')], replicate n (JNum 0, v))])"

definition metricsServer :: "string \<Rightarrow> nat \<Rightarrow> nat \<Rightarrow> PromRequest \<Rightarrow> (memWorld, string + PromResponse) state" where
  "metricsServer v n m r = ret (Inr \<lparr>PromStatus = 200, PromBody = [], PromJSON = Some (encodeMatrix
     (matrixOf (if HasPrefix (PromURL r) ''http://metrics/api/v1/query?query=rate'' then n else m) v))\<rparr>)"

definition metricsClient :: "string \<Rightarrow> nat \<Rightarrow> nat \<Rightarrow> memWorld Client" where
  "metricsClient v n m = NewClientWithHTTPClient ''http://metrics'' (metricsServer v n m)"

lemma promRequest_plain:
  assumes "plainBackend (baseURL c)"
  shows "promRequest c q = Some \<lparr>PromURL = queryURL (baseURL c) q,
    PromAuthorization = (if bearerToken c \<noteq> [] then ''Bearer '' @ bearerToken c else [])\<rparr>"
proof -
  let ?u = "baseURL c @ ''/api/v1/query''"
  have "NewRequestPath (?u @ CHR ''?'' # ''query='' @ QueryEscape q) = NewRequestPath ?u"
    using plainBackend_bytes[OF assms] QueryEscape_bytes[of _ q]
    by (intro NewRequestPath_query) (auto simp: list_ex_iff isControl_def)
  moreover have "NewRequestPath ?u = Some ''/api/v1/query''"
    using NewRequestPath_plain[OF assms, of "''api/v1/query''"] by (simp add: pathByte_def isAlnum_def)
  ultimately show ?thesis by (simp add: promRequest_def queryURL_def)
qed

lemma metricsClient_simps [simp]:
  "baseURL (metricsClient v n m) = ''http://metrics''" "promHTTPClient (metricsClient v n m) = metricsServer v n m"
  "bearerToken (metricsClient v n m) = []"
  by (simp_all add: metricsClient_def NewClientWithHTTPClient_def)

lemma metrics_plain: "plainBackend ''http://metrics''"
  unfolding plainBackend_def by (intro exI[of _ "''http''"] exI[of _ "''metrics''"]) (simp add: isAlnum_def)

lemma query_kind:
  "HasPrefix (queryURL ''http://metrics'' (cpuUsageQuery vm ns d)) ''http://metrics/api/v1/query?query=rate''"
  "\<not> HasPrefix (queryURL ''http://metrics'' (memoryResidentQuery vm ns d)) ''http://metrics/api/v1/query?query=rate''"
  by (simp_all add: queryURL_def cpuUsageQuery_def memoryResidentQuery_def QueryEscape_def isAlnum_def)

lemma map_filter_replicate: "f x = Some y \<Longrightarrow> List.map_filter f (replicate n x) = replicate n y"
  by (induction n) (simp_all add: map_filter_simps)

lemma metricsClient_query:
  assumes "ParseFloat v = Some f"
  shows "run_state (QueryRange (metricsClient v n m) q) w =
    (Inr (let k = (if HasPrefix (queryURL ''http://metrics'' q) ''http://metrics/api/v1/query?query=rate'' then n else m)
      in if k = 0 then [] else [\<lparr>SampleVMName = ''web'', SampleNamespace = ''prod'', Values = replicate k f\<rparr>]), w)"
  using assms
  by (simp add: QueryRange_def promRequest_plain metrics_plain metricsServer_def decode_matrix matrixOf_def metricSample_def
      label_def map_filter_replicate pointValue_def Let_def)

lemma metricsClient_metrics:
  assumes "ParseFloat v = Some f"
  shows "run_state (GetVMMetrics (metricsClient v n m) vm ns d) w =
    (Inr \<lparr>CPUSamples = replicate n f, MemorySamples = replicate m f\<rparr>, w)"
  by (simp add: GetVMMetrics_def metricsClient_query[OF assms] query_kind firstValues_def Let_def)

lemma parse_digits: "ParseFloat ''0'' = Some (Fin 0)" "ParseFloat ''1'' = Some (Fin 1)"
  using f_of_rat_of_int[of 1]
  by (simp_all add: ParseFloat_def special_def readFloat_def dropSign_def isHexFloat_def digitVal_def readExponent_def
      signed_def ToLower_def lower_char_def)

abbreviation metricsWorld :: memWorld where
  "metricsWorld \<equiv> sampleWorld pendingStatus"

definition metricsReconciler :: "string \<Rightarrow> nat \<Rightarrow> nat \<Rightarrow> (memWorld, json, int) RightsizingRecommendationReconciler" where
  "metricsReconciler v n m = (memReconciler sampleUtil)\<lparr>PromClient := prometheusAdapter (Oor memLib) (metricsClient v n m)\<rparr>"

lemma metricsReconciler_simps [simp]:
  "\<not> RecDemoMode (metricsReconciler v n m)"
  "PromClient (metricsReconciler v n m) = prometheusAdapter (Oor memLib) (metricsClient v n m)"
  by (simp_all add: metricsReconciler_def memReconciler_def)

theorem query_returns_series_witness:
  "run_state (QueryRange (metricsClient ''1'' 2 0) (cpuUsageQuery ''web'' ''prod'' ''7d'')) metricsWorld =
    (Inr [\<lparr>SampleVMName = ''web'', SampleNamespace = ''prod'', Values = [Fin 1, Fin 1]\<rparr>], metricsWorld)"
  using query_returns_series[OF promRequest_plain[of "metricsClient ''1'' 2 0"], where ss = "matrixOf 2 ''1''" and w = metricsWorld
      and w' = metricsWorld and q = "cpuUsageQuery ''web'' ''prod'' ''7d''"]
  by (simp add: metrics_plain metricsServer_def query_kind matrixOf_def label_def parse_digits numeral_2_eq_2 map_filter_simps)

theorem utilization_in_percent_witness:
  "\<exists>u cm mm. run_state (GetVMUtilization (Oor memLib) (metricsClient ''1'' 3 2) ''web'' ''prod'' 7 4 1024) metricsWorld =
      (Inr u, metricsWorld) \<and> PromDataPoints u = 3 \<and> PromCPUMax u = Fin cm \<and> \<bar>cm - 25\<bar> \<le> 200 * unit_roundoff \<and>
      PromMemoryMax u = Fin mm \<and> \<bar>mm - 100 / 1024\<bar> \<le> 200 * unit_roundoff"
proof -
  have one: "round64 1 = 1" using round64_of_int[of 1] by simp
  have "samplesWithin (of_int 4) (replicate 3 (Fin 1))" "samplesWithin (of_int 1024) (replicate 2 (Fin 1))"
    by (simp_all add: samplesWithin_def one)
  with utilization_in_percent[OF metricsClient_metrics[OF parse_digits(2), of 3 2 "''web''" "''prod''" 7 metricsWorld],
      of 4 1024 "Oor memLib"]
  obtain u cpu mem where u: "run_state (GetVMUtilization (Oor memLib) (metricsClient ''1'' 3 2) ''web'' ''prod'' 7 4 1024) metricsWorld =
      (Inr u, metricsWorld)" "PromDataPoints u = 3"
    and r: "list_all2 (inPercent 4) (replicate 3 (Fin 1)) cpu" "reportedFor cpu (PromCPUP95 u) (PromCPUMax u)"
      "list_all2 (inPercent 1024) (replicate 2 (Fin 1)) mem" "reportedFor mem (PromMemoryP95 u) (PromMemoryMax u)"
    by auto
  have "cpu \<noteq> []" "mem \<noteq> []" using r(1,3) by auto
  then have "PromCPUMax u = Fin (Max (set cpu))" "Max (set cpu) \<in> set cpu"
    "PromMemoryMax u = Fin (Max (set mem))" "Max (set mem) \<in> set mem"
    using r(2,4) by (simp_all add: reportedFor_def)
  moreover have "\<bar>c - 25\<bar> \<le> 200 * unit_roundoff" if "c \<in> set cpu" for c
    using r(1) that by (auto simp: list_all2_conv_all_nth in_set_conv_nth inPercent_def)
  moreover have "\<bar>c - 100 / 1024\<bar> \<le> 200 * unit_roundoff" if "c \<in> set mem" for c
    using r(3) that by (auto simp: list_all2_conv_all_nth in_set_conv_nth inPercent_def)
  ultimately show ?thesis using u by blast
qed

lemma idle_percent:
  assumes "int n \<le> 2 ^ 53" "is_i32 c" "0 < c"
  shows "percentile95 oor (toPercent (replicate n (Fin 0)) (f_of_int c)) = Fin 0"
    and "maxValue (toPercent (replicate n (Fin 0)) (f_of_int c)) = Fin 0"
proof -
  have z: "toPercent (replicate n (Fin 0)) (f_of_int c) = replicate n (Fin 0)"
    using assms by (simp add: toPercent_def)
  have "samplesWithin 0 (replicate n (Fin 0))" by (simp add: samplesWithin_def)
  from percentiles_of[OF this, of oor] assms(1)
  show "percentile95 oor (toPercent (replicate n (Fin 0)) (f_of_int c)) = Fin 0"
    "maxValue (toPercent (replicate n (Fin 0)) (f_of_int c)) = Fin 0"
    unfolding z by auto
qed

definition metricsPolicy :: "int \<Rightarrow> int RightsizingPolicySpec" where
  "metricsPolicy days = (zeroPolicySpec memQuantities)\<lparr>LookbackDays := days,
     Thresholds := \<lparr>MinCPUSavings = 1, MinMemorySavings = 2 ^ 30, UpsizeUtilizationPercent = 85\<rparr>\<rparr>"

lemma metricsPolicy_simps [simp]:
  "LookbackDays (metricsPolicy d) = d" "HeadroomPercent (Algorithm (metricsPolicy d)) = 0"
  "Thresholds (metricsPolicy d) = \<lparr>MinCPUSavings = 1, MinMemorySavings = 2 ^ 30, UpsizeUtilizationPercent = 85\<rparr>"
  by (simp_all add: metricsPolicy_def zeroPolicySpec_def)

lemma idle_assessed:
  "\<exists>result u. run_state (assessVM memLib (metricsReconciler ''0'' 5040 0) (metricsPolicy 7) ''web'' ''prod'' 8 16) metricsWorld =
    (Assessed result u, metricsWorld) \<and> resDirection result = Downsize"
proof -
  have none: "percentile95 oor (toPercent [] t) = Fin 0" "maxValue (toPercent [] t) = Fin 0" for oor t
    by (simp_all add: percentile95_def ComputePercentile_def maxValue_def toPercent_def)
  have cpu: "percentile95 oor (toPercent (replicate 5040 (Fin 0)) (Fin 8)) = Fin 0"
    "maxValue (toPercent (replicate 5040 (Fin 0)) (Fin 8)) = Fin 0" for oor
    using idle_percent(1)[of 5040 8 oor] idle_percent(2)[of 5040 8] by (simp_all add: is_i32_def)
  show ?thesis
    unfolding assessVM_metrics[OF metricsReconciler_simps(1,2) metricsClient_metrics[OF parse_digits(1)]]
    by (simp add: cpu is_i32_def none minDataPoints_def analysisInput_def Analyze_def upsizeNeeded_def f_of_int_small
        analyzeDownsize_def headroomSize_idle clampDown_def i32_def gib_def memQuantities_def Let_def)
qed

theorem missing_memory_series_witness:
  "\<exists>result u. run_state (assessVM memLib (metricsReconciler ''0'' 5040 0) (metricsPolicy 7) ''web'' ''prod'' 8 16) metricsWorld =
    (Assessed result u, metricsWorld) \<and> RecommendedMemoryGiB result = 1 \<and> MemorySavings result = 15"
proof -
  obtain result u where r: "run_state (assessVM memLib (metricsReconciler ''0'' 5040 0) (metricsPolicy 7) ''web'' ''prod'' 8 16)
      metricsWorld = (Assessed result u, metricsWorld)" "resDirection result = Downsize"
    using idle_assessed by blast
  have "fst (run_state (assessVM memLib (metricsReconciler ''0'' 5040 0) (metricsPolicy 7) ''web'' ''prod'' 8 16) metricsWorld) =
      Assessed result u" unfolding r(1) by simp
  from missing_memory_series[OF metricsReconciler_simps(1,2) metricsClient_metrics[OF parse_digits(1), of 5040] _ _ _ _ _ this]
  show ?thesis using r by (auto simp: is_i32_def)
qed

theorem short_lookback_never_assessed_witness:
  "run_state (assessVM memLib (metricsReconciler ''0'' 4321 4321) (metricsPolicy 3) ''web'' ''prod'' 8 16) metricsWorld =
    (Skip True, metricsWorld)"
  by (rule short_lookback_never_assessed[OF metricsReconciler_simps(1,2) metricsClient_metrics[OF parse_digits(1)]]) simp_all

theorem token_only_over_https_witness:
  "HasPrefix (queryURL ''https://thanos'' ''up'') ''https://'' \<and> TrimSpace ''tok '' = ''tok''"
proof -
  have plain: "plainBackend ''https://thanos''"
    unfolding plainBackend_def by (intro exI[of _ "''https''"] exI[of _ "''thanos''"]) (simp add: isAlnum_def)
  let ?c = "NewClient (Some ''tok '') (metricsServer ''0'' 0 0) (metricsServer ''0'' 0 0) ''https://thanos''"
  have trim: "TrimSpace ''tok '' = ''tok''" by code_simp
  have "promRequest ?c ''up'' = Some \<lparr>PromURL = queryURL ''https://thanos'' ''up'', PromAuthorization = ''Bearer tok''\<rparr>"
    using promRequest_plain[of ?c "''up''"] plain by (simp add: NewClient_def trim)
  from token_only_over_https[OF this] trim show ?thesis by simp
qed

end
