(* ===== verification/Restart_Controller.thy ===== *)
theory Restart_Controller
  imports Workflow
begin

text \<open>
  The restart controller (\<open>internal/controller/restart_controller.go\<close>): a recommendation in
  the state \<open>applied-pending-restart\<close> with a scheduled time has its VM restarted once that time
  has come.
\<close>

record ('w, 'o, 'q) RestartReconciler =
  RstClient :: "('w, 'o, 'q) client"
  RstApplier :: "('w, 'o) Applier"

text \<open>The last part of \<open>Reconcile\<close>: the scheduled time has passed.\<close>

definition restartNow :: "('w, 'o, 'q) lib \<Rightarrow> ('w, 'o, 'q) RestartReconciler \<Rightarrow> 'q recommendation \<Rightarrow>
    ('w, reconcile_result) state" where
  "restartNow L R rec = do {
     err \<leftarrow> RestartVM (RstApplier R) (RefName (VirtualMachineRef (Spec rec)))
       (RefNamespace (VirtualMachineRef (Spec rec)));
     case err of
       Some e \<Rightarrow> do {
         _ \<leftarrow> updateRecStatus (RstClient R)
           (updStatus (\<lambda>s. s\<lparr>State := StateFailed, Message := ''restart failed: '' @ e\<rparr>) rec);
         ret (Error (''restarting VM: '' @ e))
       }
     | None \<Rightarrow> do {
         nowMeta \<leftarrow> Now L;
         r \<leftarrow> updateRecStatus (RstClient R)
           (updStatus (\<lambda>s. s\<lparr>State := StateApplied, AppliedAt := Some nowMeta,
              ScheduledRestartAt := None\<rparr>) rec);
         ret (case r of
           Inl e \<Rightarrow> Error (''updating status after restart: '' @ errorText e)
         | Inr _ \<Rightarrow> Requeue 0)
       }
   }"

definition RestartReconcile :: "('w, 'o, 'q) lib \<Rightarrow> ('w, 'o, 'q) RestartReconciler \<Rightarrow> string \<Rightarrow> string \<Rightarrow>
    ('w, reconcile_result) state" where
  "RestartReconcile L R namespace name = do {
     r \<leftarrow> getRec (RstClient R) namespace name;
     case r of
       Inl err \<Rightarrow> ret (if IsNotFound err then Requeue 0
         else Error (''fetching recommendation: '' @ errorText err))
     | Inr rec \<Rightarrow>
         if recState rec \<noteq> StateAppliedPendingRestart then ret (Requeue 0)
         else (case ScheduledRestartAt (Status rec) of
             None \<Rightarrow> ret (Requeue (5 * Minute))
           | Some scheduledTime \<Rightarrow> do {
               now \<leftarrow> Now L;
               if now < scheduledTime then do {
                 now2 \<leftarrow> Now L;
                 ret (Requeue (timeSub scheduledTime now2))
               } else restartNow L R rec
             })
   }"

section \<open>What a reconciliation does\<close>

definition restartOf :: "'q recommendation \<Rightarrow> 'q event" where
  "restartOf rec = VMPatched (RefNamespace (VirtualMachineRef (Spec rec)))
     (RefName (VirtualMachineRef (Spec rec))) (JObj []) [''restart'']"

text \<open>What may follow once a restart is due: the restart request and the status after it. A
  request that was reported as failed may have had its effect.\<close>

definition after_due :: "'q recommendation \<Rightarrow> 'q event list \<Rightarrow> bool" where
  "after_due rec es \<longleftrightarrow> es = [] \<or> es = [restartOf rec] \<or>
     (\<exists>t. es = [restartOf rec, ClockRead t]) \<or>
     (\<exists>t new. es = [restartOf rec, ClockRead t, RecStatusUpdated rec new] \<and>
        Spec new = Spec rec \<and> recKey new = recKey rec \<and>
        Status new = serStatus (Status rec\<lparr>State := StateApplied, AppliedAt := Some t, ScheduledRestartAt := None\<rparr>)) \<or>
     (\<exists>m new. (es = [RecStatusUpdated rec new] \<or> es = [restartOf rec, RecStatusUpdated rec new]) \<and>
        Spec new = Spec rec \<and> recKey new = recKey rec \<and>
        Status new = serStatus (Status rec\<lparr>State := StateFailed, Message := m\<rparr>))"

text \<open>All traces of a run: nothing; a look at the clock before the scheduled time; or, at or
  after the scheduled time of a version in the right state, what \<open>after_due\<close> allows.\<close>

definition restart_trace :: "string \<times> string \<Rightarrow> 'q event list \<Rightarrow> bool" where
  "restart_trace k es \<longleftrightarrow> es = [] \<or> (\<exists>t u. es = [ClockRead t, ClockRead u]) \<or>
     (\<exists>rec s now rest. es = ClockRead now # rest \<and> after_due rec rest \<and> recKey rec = k \<and>
        recState rec = StateAppliedPendingRestart \<and> ScheduledRestartAt (Status rec) = Some s \<and> s \<le> now)"

text \<open>The outcome of a run, from what it read. Not found, in another state or without a schedule: nothing
  happens. Before the scheduled time: a later call. Then the restart: the request and the
  status \<open>applied\<close>, or the status \<open>failed\<close> where the API server refused the request. A status that is missing
  was refused.\<close>

definition restart_done :: "('w, 'o, 'q) RestartReconciler \<Rightarrow> 'q recommendation \<Rightarrow> reconcile_result \<Rightarrow> 'q event list \<Rightarrow> 'w \<Rightarrow> bool" where
  "restart_done R rec res es w' \<longleftrightarrow> (\<exists>t upd (r :: 'q recommendation result). es = restartOf rec # ClockRead t # upd \<and>
     stores (RstClient R) rec (Status rec\<lparr>State := StateApplied, AppliedAt := Some t, ScheduledRestartAt := None\<rparr>) r upd w' \<and>
     (if isl r then \<exists>m. res = Error m else res = Requeue 0))"

definition restart_refused :: "('w, 'o, 'q) RestartReconciler \<Rightarrow> 'q recommendation \<Rightarrow> reconcile_result \<Rightarrow> 'q event list \<Rightarrow> 'w \<Rightarrow> bool" where
  "restart_refused R rec res es w' \<longleftrightarrow> (\<exists>pre upd m e v (r :: 'q recommendation result). es = pre @ upd \<and>
     (pre = [] \<or> pre = [restartOf rec]) \<and>
     refused (dynPatch (dynamicClient (RstApplier R)) (RefNamespace (VirtualMachineRef (Spec rec)))
       (RefName (VirtualMachineRef (Spec rec))) (JObj []) [''restart'']) v \<and>
     stores (RstClient R) rec (Status rec\<lparr>State := StateFailed, Message := m\<rparr>) r upd w' \<and> res = Error e)"

definition restart_outcome :: "('w, 'o, 'q) RestartReconciler \<Rightarrow> 'q recommendation result \<Rightarrow> reconcile_result \<Rightarrow>
    'q event list \<Rightarrow> 'w \<Rightarrow> bool" where
  "restart_outcome R g res es w' \<longleftrightarrow> (case g of
      Inl e \<Rightarrow> es = [] \<and> (if IsNotFound e then res = Requeue 0 else \<exists>m. res = Error m)
    | Inr rec \<Rightarrow>
        if recState rec \<noteq> StateAppliedPendingRestart then es = [] \<and> res = Requeue 0
        else (case ScheduledRestartAt (Status rec) of
            None \<Rightarrow> es = [] \<and> res = Requeue (5 * Minute)
          | Some s \<Rightarrow> \<exists>t rest. es = ClockRead t # rest \<and>
              (if t < s then \<exists>u. rest = [ClockRead u] \<and> res = Requeue (timeSub s u)
               else restart_done R rec res rest w' \<or> restart_refused R rec res rest w')))"

locale restart_env =
  fixes L :: "('w, 'o, 'q) lib"
    and R :: "('w, 'o, 'q) RestartReconciler"
    and ev :: "'w \<Rightarrow> 'q event list"
    and hi :: "'w \<Rightarrow> 'q recommendation set"
  assumes store: "recommendation_store (RstClient R) ev hi"
    and vms: "vm_api (dynamicClient (RstApplier R)) ev hi"
    and time: "clock (Now L) ev hi"
begin

sublocale store: recommendation_store "RstClient R" ev hi by (rule store)
sublocale vms: vm_api "dynamicClient (RstApplier R)" ev hi by (rule vms)
sublocale time: clock "Now L" ev hi by (rule time)

lemma restartNow_wp:
  assumes "trace ev hi w0 es w" and "rec \<in> hi w"
  shows "wp (restartNow L R rec) (\<lambda>_ w'. \<exists>rest. trace ev hi w0 (es @ rest) w' \<and> after_due rec rest) w"
proof -
  let ?Q = "\<lambda>_ w'. \<exists>rest. trace ev hi w0 (es @ rest) w' \<and> after_due rec rest"
  have fail: "wp (updateRecStatus (RstClient R) (updStatus (\<lambda>s. s\<lparr>State := StateFailed, Message := m\<rparr>) rec)) ?Q v"
    if "trace ev hi w0 (es @ pre) v" "pre = [] \<or> pre = [restartOf rec]" "hi w \<subseteq> hi v" for m v pre
    using that assms(2)
    by (intro store.updateRecStatus_wp[where old = rec, OF that(1)])
       (auto simp: after_due_def intro!: exI[of _ "pre @ _"] intro: exI[of _ pre])
  have ok: "wp (updateRecStatus (RstClient R) (updStatus (\<lambda>s. s\<lparr>State := StateApplied,
      AppliedAt := Some t, ScheduledRestartAt := None\<rparr>) rec)) ?Q v"
    if "trace ev hi w0 (es @ [restartOf rec, ClockRead t]) v" "hi w \<subseteq> hi v" for t v
  proof (rule store.updateRecStatus_wp[where old = rec, OF that(1)], goal_cases)
    case (4 e w')
    then show ?case by (intro exI[of _ "[restartOf rec, ClockRead t]"]) (simp add: after_due_def)
  next
    case (5 new r w')
    then show ?case
      by (intro exI[of _ "[restartOf rec, ClockRead t, RecStatusUpdated rec new]"]) (simp add: after_due_def)
  qed (use that assms(2) in auto)
  show ?thesis
    unfolding restartNow_def wp_bind
  proof (rule vms.RestartVM_wp[OF refl assms(1)], goal_cases)
    case (1 e w')
    then show ?case using fail[of "[]" w'] by simp
  next
    case (2 r w')
    then have t: "trace ev hi w0 (es @ [restartOf rec]) w'" by (simp add: restartOf_def)
    show ?case
    proof (cases r)
      case None
      show ?thesis unfolding None option.case wp_bind
        by (rule time.Now_wp[OF t]) (use 2(2) in \<open>auto intro!: ok\<close>)
    next
      case (Some e)
      then show ?thesis using fail[OF t _ 2(2)] by simp
    qed
  qed
qed

lemma restartNow_outcome:
  assumes "trace ev hi w0 es w" and "rec \<in> hi w"
  shows "wp (restartNow L R rec) (\<lambda>res w'. \<exists>rest. trace ev hi w0 (es @ rest) w' \<and>
    (restart_done R rec res rest w' \<or> restart_refused R rec res rest w')) w"
  unfolding restartNow_def RestartVM_def wp_bind wp_return
proof (rule vms.dynPatch_outcome_wp[OF assms(1)], goal_cases)
  case (1 r pre w1)
  have rec: "rec \<in> hi w1" using 1(2) assms(2) by blast
  have pre: "pre = [] \<or> pre = [restartOf rec]" using 1(3) by (simp add: restartOf_def)
  show ?case
  proof (cases r)
    case (Inl e)
    then have ref: "refused (dynPatch (dynamicClient (RstApplier R)) (RefNamespace (VirtualMachineRef (Spec rec)))
        (RefName (VirtualMachineRef (Spec rec))) (JObj []) [''restart'']) w1" using 1(4) by simp
    show ?thesis unfolding Inl sum.case option.case wp_bind wp_return
      by (rule store.stores_wp[OF 1(1) rec], rule exI[of _ "pre @ _"])
         (use pre ref in \<open>auto simp: restart_refused_def simp del: append_assoc simp flip: append_assoc\<close>)
  next
    case (Inr v)
    then have "pre = [restartOf rec]" using 1(4) pre by simp
    then have t: "trace ev hi w0 (es @ [restartOf rec]) w1" using 1(1) by simp
    have done': "wp (updateRecStatus (RstClient R) (rec\<lparr>Status := Status rec\<lparr>State := StateApplied, AppliedAt := Some t,
          ScheduledRestartAt := None\<rparr>\<rparr>)) (\<lambda>r w'. \<exists>rest. trace ev hi w0 (es @ rest) w' \<and>
        (restart_done R rec (case r of Inl e \<Rightarrow> Error (''updating status after restart: '' @ errorText e) | Inr _ \<Rightarrow> Requeue 0) rest w' \<or> b rest r w')) w2"
      if t2: "trace ev hi w0 ((es @ [restartOf rec]) @ [ClockRead t]) w2" "hi w1 \<subseteq> hi w2" for t w2 b
    proof (rule store.stores_wp[OF t2(1)])
      show "rec \<in> hi w2" using rec t2(2) by blast
      fix u :: "'q recommendation result" and upd w'
      assume u: "trace ev hi w0 (((es @ [restartOf rec]) @ [ClockRead t]) @ upd) w'"
        "stores (RstClient R) rec (Status rec\<lparr>State := StateApplied, AppliedAt := Some t, ScheduledRestartAt := None\<rparr>) u upd w'"
      have "restart_done R rec (case u of Inl e \<Rightarrow> Error (''updating status after restart: '' @ errorText e) | Inr _ \<Rightarrow> Requeue 0)
          (restartOf rec # ClockRead t # upd) w'"
        unfolding restart_done_def
        by (intro exI[of _ t] exI[of _ upd] exI[of _ u] conjI refl u(2)) (auto split: sum.splits)
      then show "\<exists>rest. trace ev hi w0 (es @ rest) w' \<and>
        (restart_done R rec (case u of Inl e \<Rightarrow> Error (''updating status after restart: '' @ errorText e) | Inr _ \<Rightarrow> Requeue 0) rest w' \<or> b rest u w')"
        using u(1) by auto
    qed
    show ?thesis unfolding Inr sum.case option.case wp_bind wp_return
      by (rule time.Now_wp[OF t], rule done') auto
  qed
qed

lemma RestartReconcile_outcome:
  "wp (RestartReconcile L R ns n) (\<lambda>res w'. \<exists>es. trace ev hi w es w' \<and>
    restart_outcome R (fst (run_state (getRec (RstClient R) ns n) w)) res es w') w"
proof -
  obtain g w1 where run: "run_state (getRec (RstClient R) ns n) w = (g, w1)" by fastforce
  have t: "trace ev hi w [] w1" using store.getRec_quiet run unfolding quiet_def by (metis snd_conv)
  have "wp (case g of
       Inl err \<Rightarrow> ret (if IsNotFound err then Requeue 0 else Error (''fetching recommendation: '' @ errorText err))
     | Inr rec \<Rightarrow>
         if recState rec \<noteq> StateAppliedPendingRestart then ret (Requeue 0)
         else (case ScheduledRestartAt (Status rec) of
             None \<Rightarrow> ret (Requeue (5 * Minute))
           | Some s \<Rightarrow> do {
               now \<leftarrow> Now L;
               if now < s then do { now2 \<leftarrow> Now L; ret (Requeue (timeSub s now2)) } else restartNow L R rec
             })) (\<lambda>res w'. \<exists>es. trace ev hi w es w' \<and> restart_outcome R g res es w') w1"
  proof (cases "\<exists>rec s. g = Inr rec \<and> recState rec = StateAppliedPendingRestart \<and> ScheduledRestartAt (Status rec) = Some s")
    case False
    then show ?thesis using t by (auto simp: restart_outcome_def intro!: exI[of _ "[]"] split: sum.splits option.splits)
  next
    case True
    then obtain rec s where g: "g = Inr rec" "recState rec = StateAppliedPendingRestart" "ScheduledRestartAt (Status rec) = Some s"
      by blast
    have rec: "rec \<in> hi w1" using store.getRec_stored run g(1) by blast
    have early: "wp (Now L) (\<lambda>u w'. \<exists>es. trace ev hi w es w' \<and> restart_outcome R g (Requeue (timeSub s u)) es w') v"
      if "trace ev hi w ([] @ [ClockRead now]) v" "now < s" for now v
      by (rule time.Now_wp[OF that(1)]) (use g that(2) in \<open>auto simp: restart_outcome_def\<close>)
    have due: "wp (restartNow L R rec) (\<lambda>res w'. \<exists>es. trace ev hi w es w' \<and> restart_outcome R g res es w') v"
      if "trace ev hi w ([] @ [ClockRead now]) v" "\<not> now < s" "hi w1 \<subseteq> hi v" for now v
      by (rule wp_conseq[OF restartNow_outcome[OF that(1)]])
         (use g that rec in \<open>auto simp: restart_outcome_def\<close>)
    show ?thesis unfolding g(1) sum.case using g by (simp, intro time.Now_wp[OF t]) (auto intro: early[unfolded g(1)] due[unfolded g(1)])
  qed
  then show ?thesis unfolding RestartReconcile_def wp_bind using run by (simp add: wp_def)
qed

lemma RestartReconcile_wp:
  "wp (RestartReconcile L R ns n) (\<lambda>_ w'. \<exists>es. trace ev hi w es w' \<and> restart_trace (ns, n) es) w"
  unfolding RestartReconcile_def wp_bind
proof (rule store.getRec_wp[OF trace_refl], goal_cases)
  case (1 e w')
  then show ?case by (auto simp: restart_trace_def)
next
  case (2 rec w1)
  show ?case
  proof (cases "recState rec = StateAppliedPendingRestart \<and> ScheduledRestartAt (Status rec) \<noteq> None")
    case True
    then obtain s where s: "ScheduledRestartAt (Status rec) = Some s" by auto
    have due: "wp (restartNow L R rec) (\<lambda>_ w'. \<exists>es. trace ev hi w es w' \<and> restart_trace (ns, n) es) w2"
      if "trace ev hi w ([] @ [ClockRead now]) w2" "hi w1 \<subseteq> hi w2" "s \<le> now" for now w2
    proof (rule wp_conseq[OF restartNow_wp[OF that(1)]])
      show "rec \<in> hi w2" using that 2 by auto
    qed (use that 2 True s in \<open>auto simp: restart_trace_def\<close>)
    have early: "wp (Now L) (\<lambda>_ w'. \<exists>es. trace ev hi w es w' \<and> restart_trace (ns, n) es) w2"
      if "trace ev hi w ([] @ [ClockRead now]) w2" for now w2
      by (rule time.Now_wp[OF that]) (auto simp: restart_trace_def)
    show ?thesis
      using True s
      by (simp, intro time.Now_wp[OF 2(1)]) (auto intro: due early)
  next
    case False
    then show ?thesis using 2 by (auto simp: restart_trace_def split: option.splits)
  qed
qed

end

lemma restart_trace_allowed: "restart_trace k es \<Longrightarrow> allAllowed es"
  by (auto simp: restart_trace_def after_due_def restartOf_def simp del: allowed.simps(3)
      intro!: allowed_statusI intro: status_step.restarted status_step.restart_failed)

text \<open>Where the clock passes the scheduled time between its two readings, the result asks for no
  further call: controller-runtime requeues only after a positive duration.\<close>

lemma restart_race:
  assumes "run_state (getRec (RstClient R) ns n) w = (Inr rec, w1)" and "recState rec = StateAppliedPendingRestart"
    and "ScheduledRestartAt (Status rec) = Some s"
    and "run_state (Now L) w1 = (t, w2)" "run_state (Now L) w2 = (t', w3)" "t < s" "s \<le> t'"
  shows "\<exists>d \<le> 0. run_state (RestartReconcile L R ns n) w = (Requeue d, w3)"
  using assms by (auto simp: RestartReconcile_def timeSub_def)

section \<open>Properties\<close>

definition memRestart :: "(memWorld, json, int) RestartReconciler" where
  "memRestart = \<lparr>RstClient = memClient, RstApplier = memApplier\<rparr>"

lemma memRestart_simps [simp]: "RstClient memRestart = memClient" "RstApplier memRestart = memApplier"
  by (simp_all add: memRestart_def)

interpretation mem: restart_env memLib memRestart wEvents memHist
  by (rule restart_env.intro)
     (simp_all add: mem.recommendation_store_axioms mem.vm_api_axioms mem.clock_axioms)

text \<open>C6: the restart controller touches a VM only for a recommendation that it read in the
  state \<open>applied-pending-restart\<close>, and exactly when the clock shows its scheduled time or later: then the
  restart request goes out and the status becomes \<open>applied\<close> after it, or \<open>failed\<close> where the
  request was refused; before that time it asks to be called after the remaining time. A
  status that is missing was refused by the API server: a recommendation changed meanwhile keeps its
  state. Every other recommendation is left alone.\<close>

theorem restart_only_when_due:
  assumes "restart_env L R ev hi"
    and "run_state (RestartReconcile L R ns n) w = (res, w')"
  shows "\<exists>es. trace ev hi w es w' \<and> restart_outcome R (fst (run_state (getRec (RstClient R) ns n) w)) res es w'"
  using restart_env.RestartReconcile_outcome[OF assms(1)] assms(2) by (rule wpD)

definition dueStatus :: "int RightsizingRecommendationStatus" where
  "dueStatus = emptyStatus\<lparr>State := StateAppliedPendingRestart, RevertConfig := Some (Current sampleSpec),
     ScheduledRestartAt := Some (900 * Second)\<rparr>"

lemma sample_restart:
  "\<exists>w'. run_state (RestartReconcile memLib memRestart ''prod'' ''vm-web'') (sampleWorld dueStatus) = (Requeue 0, w') \<and>
    length (wEvents w') = 4 \<and> wEvents w' ! 1 = VMPatched ''prod'' ''web'' (JObj []) [''restart'']"
  by (simp add: RestartReconcile_def restartNow_def RestartVM_def mem_run dueStatus_def sampleSpec_def)

theorem restart_only_when_due_witness:
  "\<exists>es w'. run_state (RestartReconcile memLib memRestart ''prod'' ''vm-web'') (sampleWorld dueStatus) = (Requeue 0, w') \<and>
    trace wEvents memHist (sampleWorld dueStatus) es w' \<and>
    restart_outcome memRestart (Inr (sampleRec dueStatus)) (Requeue 0) es w' \<and> length es = 4"
proof -
  obtain w' where run: "run_state (RestartReconcile memLib memRestart ''prod'' ''vm-web'') (sampleWorld dueStatus) =
      (Requeue 0, w')" and len: "length (wEvents w') = 4"
    using sample_restart by blast
  have "fst (run_state (getRec (RstClient memRestart) ''prod'' ''vm-web'') (sampleWorld dueStatus)) = Inr (sampleRec dueStatus)"
    by (simp add: mem_run)
  with restart_only_when_due[OF mem.restart_env_axioms run] obtain es where
    es: "trace wEvents memHist (sampleWorld dueStatus) es w'"
      "restart_outcome memRestart (Inr (sampleRec dueStatus)) (Requeue 0) es w'" by auto
  have "wEvents (sampleWorld dueStatus) = []" by (simp add: sampleWorld_def emptyWorld_def)
  then have "length es = 4" using es(1) len by (simp add: trace_def)
  then show ?thesis using run es by blast
qed

end
