(* ===== verification/API_Server.thy ===== *)
theory API_Server
  imports Http
begin

text \<open>
  The REST API server (\<open>internal/apiserver/handlers.go\<close>): one definition per handler, in the
  order of the file. The server's record has the fields of the struct \<open>Server\<close>; a field that
  may be nil is an option.
\<close>

record ('w, 'o, 'q) Server =
  K8sClient :: "('w, 'o, 'q) client"
  Clientset :: "'w clientset option"
  DynamicClient :: "('w, 'o) dynamic option"
  OwnerResolver :: "('w, 'o, 'q) client option"
  SrvTokenManager :: "TokenManager option"
  SrvNotifier :: "'w Dispatcher option"
  ApprovalRouteHost :: string
  DemoMode :: bool

abbreviation httpError :: "nat \<Rightarrow> string \<Rightarrow> ('w, 'q Response) state" where
  "httpError c msg \<equiv> ret (Response c (Text msg))"

abbreviation writeJSON :: "'q content \<Rightarrow> ('w, 'q Response) state" where
  "writeJSON v \<equiv> ret (Response 200 v)"

definition internalError :: "('w, 'q Response) state" where
  "internalError = httpError 500 ''internal server error''"

section \<open>Namespace access\<close>

definition sarSpec :: "UserInfo \<Rightarrow> string \<Rightarrow> string \<Rightarrow> string \<Rightarrow> SubjectAccessReviewSpec" where
  "sarSpec user verb resource namespace = \<lparr>SarUser = Username user, SarGroups = Groups user,
     SarVerb = verb, SarGroup = ''rightsizing.redhatconsulting.io'', SarResource = resource,
     SarNamespace = namespace\<rparr>"

definition canUserAccessNamespace :: "('w, 'o, 'q) Server \<Rightarrow> UserInfo option \<Rightarrow> string \<Rightarrow> string \<Rightarrow> ('w, bool) state" where
  "canUserAccessNamespace S user namespace verb = (case (user, Clientset S) of
      (Some u, Some K) \<Rightarrow> do {
        r \<leftarrow> subjectAccessReview K (sarSpec u verb ''rightsizingrecommendations'' namespace);
        ret (case r of Inl err \<Rightarrow> False | Inr b \<Rightarrow> b)
      }
    | _ \<Rightarrow> ret False)"

text \<open>The loop over the items with the cache \<open>checked\<close> of the namespaces already asked for; it
  is the same in \<open>filterByNamespaceAccess\<close> and in \<open>handleListVMs\<close>.\<close>

fun accessLoop :: "('w, 'o, 'q) Server \<Rightarrow> UserInfo \<Rightarrow> ('i \<Rightarrow> string) \<Rightarrow> bool strmap \<Rightarrow> 'i list \<Rightarrow> ('w, 'i list) state" where
  "accessLoop S user nsOf checked [] = ret []"
| "accessLoop S user nsOf checked (item # items) = do {
     (may, checked') \<leftarrow> (case checked (nsOf item) of
         Some a \<Rightarrow> ret (a, checked)
       | None \<Rightarrow> do {
           a \<leftarrow> canUserAccessNamespace S (Some user) (nsOf item) ''get'';
           ret (a, checked(nsOf item \<mapsto> a))
         });
     rest \<leftarrow> accessLoop S user nsOf checked' items;
     ret (if may then item # rest else rest)
   }"

definition filterByNamespaceAccess :: "('w, 'o, 'q) Server \<Rightarrow> Request \<Rightarrow> 'q recommendation list \<Rightarrow>
    ('w, 'q recommendation list) state" where
  "filterByNamespaceAccess S r items = (case ContextUser r of
      None \<Rightarrow> ret []
    | Some user \<Rightarrow> accessLoop S user Namespace Map.empty items)"

section \<open>Reading recommendations\<close>

definition handleListRecommendations :: "('w, 'o, 'q) Server \<Rightarrow> Request \<Rightarrow> ('w, 'q Response) state" where
  "handleListRecommendations S r = do {
     l \<leftarrow> listRecs (K8sClient S) (if Query r ''namespace'' = [] then None else Some (Query r ''namespace''));
     case l of
       Inl err \<Rightarrow> internalError
     | Inr list \<Rightarrow> do {
         items \<leftarrow> filterByNamespaceAccess S r list;
         let items1 = (if Query r ''direction'' = [] then items
               else filter (\<lambda>i. Direction (Spec i) = Query r ''direction'') items);
             items2 = (if Query r ''state'' = [] then items1
               else filter (\<lambda>i. recState i = Query r ''state'') items1)
         in writeJSON (RecsJSON items2)
       }
   }"

definition handleGetRecommendation :: "('w, 'o, 'q) Server \<Rightarrow> Request \<Rightarrow> ('w, 'q Response) state" where
  "handleGetRecommendation S r = do {
     g \<leftarrow> getRec (K8sClient S) (PathNamespace r) (PathName r);
     case g of
       Inl err \<Rightarrow> httpError 404 ''not found''
     | Inr rec \<Rightarrow> writeJSON (RecJSON rec)
   }"

section \<open>Apply\<close>

text \<open>The status write and the answer that end an approval request; \<open>notify\<close> is false in demo
  mode.\<close>

definition awaitApproval :: "('w, 'o, 'q) lib \<Rightarrow> ('w, 'o, 'q) Server \<Rightarrow> TokenManager \<Rightarrow> Request \<Rightarrow>
    'q recommendation \<Rightarrow> string \<Rightarrow> 'w Dispatcher option \<Rightarrow> string \<Rightarrow> ('w, 'q Response) state" where
  "awaitApproval L S tm r rec ownerStr notify msg = do {
     tok \<leftarrow> GenerateToken (Jwt L) (Now L) tm (PathNamespace r) (PathName r) ownerStr (14 * 24 * Hour);
     case tok of
       Inl err \<Rightarrow> httpError 500 ''failed to generate approval token''
     | Inr token \<Rightarrow> do {
         now \<leftarrow> Now L;
         u \<leftarrow> updateRecStatus (K8sClient S)
           (updStatus (\<lambda>s. s\<lparr>State := StateAwaitingApproval, Owner := ownerStr, ApprovalToken := token,
              NotifiedAt := Some now, RevertConfig := Some (Current (Spec rec))\<rparr>) rec);
         case u of
           Inl err \<Rightarrow> internalError
         | Inr rec2 \<Rightarrow> do {
             _ \<leftarrow> (case notify of
                 None \<Rightarrow> ret []
               | Some d \<Rightarrow> SendAll d (notificationFor (Quantities L) rec2 ownerStr
                   (approvalURL (ApprovalRouteHost S) token)));
             ret (Response 202 (FieldsJSON [(''status'', ''awaiting-approval''), (''owner'', ownerStr),
               (''message'', msg), (''approvalUrl'', approvalURL (ApprovalRouteHost S) token)]))
           }
       }
   }"

text \<open>How an apply or an approval leaves the state: \<open>None\<close> where the scheduled time does not
  parse.\<close>

definition appliedStatus :: "bool \<Rightarrow> ApplyRequest \<Rightarrow> time \<Rightarrow> 'q RightsizingRecommendationStatus \<Rightarrow>
    'q RightsizingRecommendationStatus option" where
  "appliedStatus hotplug req now s =
    (if hotplug then Some (s\<lparr>State := StateApplied, AppliedAt := Some now\<rparr>)
     else let s1 = s\<lparr>State := StateAppliedPendingRestart\<rparr> in
       if RestartOption req = ''schedule'' then
         map_option (\<lambda>t. s1\<lparr>ScheduledRestartAt := Some t\<rparr>) (ParseRFC3339 (ScheduledAt req))
       else if RestartOption req = ''now'' then Some (s1\<lparr>AppliedAt := Some now\<rparr>)
       else Some s1)"

definition applyWithoutOwner :: "('w, 'o, 'q) lib \<Rightarrow> ('w, 'o, 'q) Server \<Rightarrow> ApplyRequest \<Rightarrow>
    'q recommendation \<Rightarrow> ('w, 'q Response) state" where
  "applyWithoutOwner L S req rec = do {
     now \<leftarrow> Now L;
     case appliedStatus (HotplugCapable (Spec rec)) req now
         (Status rec\<lparr>RevertConfig := Some (Current (Spec rec))\<rparr>) of
       None \<Rightarrow> httpError 400 ''invalid scheduledAt format (use RFC3339)''
     | Some st \<Rightarrow> do {
         u \<leftarrow> updateRecStatus (K8sClient S) (rec\<lparr>Status := st\<rparr>);
         case u of
           Inl err \<Rightarrow> internalError
         | Inr rec2 \<Rightarrow> writeJSON (RecJSON rec2)
       }
   }"

definition applyPending :: "('w, 'o, 'q) lib \<Rightarrow> ('w, 'o, 'q) Server \<Rightarrow> Request \<Rightarrow> ApplyRequest \<Rightarrow>
    'q recommendation \<Rightarrow> ('w, 'q Response) state" where
  "applyPending L S r req rec =
    (case (DemoMode S, SrvTokenManager S) of
       (True, Some tm) \<Rightarrow> awaitApproval L S tm r rec ''demo-user@example.com'' None
         ''Demo mode: use the approval URL to approve or reject.''
     | _ \<Rightarrow>
       (case (OwnerResolver S, SrvTokenManager S, SrvNotifier S) of
          (Some c, Some tm, Some d) \<Rightarrow> do {
            o' \<leftarrow> ResolveOwner (Unstructured L) c (RefName (VirtualMachineRef (Spec rec)))
              (RefNamespace (VirtualMachineRef (Spec rec)));
            if ownerOf o' \<noteq> []
            then awaitApproval L S tm r rec (ownerOf o') (Some d) ''Notification sent to owner. Awaiting approval.''
            else applyWithoutOwner L S req rec
          }
        | _ \<Rightarrow> applyWithoutOwner L S req rec))"

definition handleApply :: "('w, 'o, 'q) lib \<Rightarrow> ('w, 'o, 'q) Server \<Rightarrow> Request \<Rightarrow> ('w, 'q Response) state" where
  "handleApply L S r = (case decodeApplyRequest (Body r) of
      None \<Rightarrow> httpError 400 ''invalid request body''
    | Some req \<Rightarrow> do {
        g \<leftarrow> getRec (K8sClient S) (PathNamespace r) (PathName r);
        case g of
          Inl err \<Rightarrow> httpError 404 ''recommendation not found''
        | Inr rec \<Rightarrow>
            if recState rec \<noteq> StatePending then httpError 409 ''recommendation is not in pending state''
            else applyPending L S r req rec
      })"

section \<open>Revert and exclusion\<close>

definition handleRevert :: "('w, 'o, 'q) Server \<Rightarrow> Request \<Rightarrow> ('w, 'q Response) state" where
  "handleRevert S r = do {
     g \<leftarrow> getRec (K8sClient S) (PathNamespace r) (PathName r);
     case g of
       Inl err \<Rightarrow> httpError 404 ''recommendation not found''
     | Inr rec \<Rightarrow>
         if \<not> appliedState (recState rec)
         then httpError 409 ''recommendation cannot be reverted in current state''
         else if RevertConfig (Status rec) = None then httpError 409 ''no revert config available''
         else do {
           u \<leftarrow> updateRecStatus (K8sClient S) (updStatus (\<lambda>s. s\<lparr>State := StateReverted\<rparr>) rec);
           case u of
             Inl err \<Rightarrow> internalError
           | Inr rec2 \<Rightarrow> writeJSON (RecJSON rec2)
         }
   }"

definition excludePatch :: "json \<Rightarrow> json" where
  "excludePatch v = JObj [(''metadata'', JObj [(''annotations'', JObj [(AnnotationExclude, v)])])]"

definition handleExclude :: "('w, 'o, 'q) Server \<Rightarrow> Request \<Rightarrow> ('w, 'q Response) state" where
  "handleExclude S r = (case DynamicClient S of
      None \<Rightarrow> internalError
    | Some d \<Rightarrow> do {
        p \<leftarrow> dynPatch d (PathNamespace r) (PathName r) (excludePatch (JStr ''true'')) [];
        case p of
          Inl err \<Rightarrow> httpError 500 ''failed to exclude VM''
        | Inr _ \<Rightarrow> writeJSON (FieldsJSON [(''status'', ''excluded'')])
      })"

definition handleRemoveExclusion :: "('w, 'o, 'q) Server \<Rightarrow> Request \<Rightarrow> ('w, 'q Response) state" where
  "handleRemoveExclusion S r = (case DynamicClient S of
      None \<Rightarrow> internalError
    | Some d \<Rightarrow> do {
        p \<leftarrow> dynPatch d (PathNamespace r) (PathName r) (excludePatch JNull) [];
        case p of
          Inl err \<Rightarrow> httpError 500 ''failed to remove exclusion''
        | Inr _ \<Rightarrow> writeJSON (FieldsJSON [(''status'', ''monitoring resumed'')])
      })"

section \<open>Overview and VMs\<close>

definition countItem :: "'q quantity_lib \<Rightarrow> time \<Rightarrow> OverviewResponse \<Rightarrow> 'q recommendation \<Rightarrow> OverviewResponse" where
  "countItem Q today ov item =
    (let ov1 =
       (if Direction (Spec item) = DirectionDownsize \<and> recState item = StatePending then
          ov\<lparr>DownsizeCandidates := DownsizeCandidates ov + 1,
             TotalCPUSavings := i32 (TotalCPUSavings ov + SavingsCPU (Savings (Spec item))),
             TotalMemorySavings := i64 (TotalMemorySavings ov + Value Q (SavingsMemory (Savings (Spec item))))\<rparr>
        else if Direction (Spec item) = DirectionUpsize \<and> recState item = StatePending then
          ov\<lparr>UpsizeNeeded := UpsizeNeeded ov + 1\<rparr>
        else ov)
     in (case AppliedAt (Status item) of
           None \<Rightarrow> ov1
         | Some t \<Rightarrow> if today < t then ov1\<lparr>AppliedToday := AppliedToday ov1 + 1\<rparr> else ov1))"

definition overview :: "'q quantity_lib \<Rightarrow> time \<Rightarrow> 'q recommendation list \<Rightarrow> OverviewResponse" where
  "overview Q today items = foldl (countItem Q today)
     \<lparr>TotalVMs = int (length items), DownsizeCandidates = 0, UpsizeNeeded = 0, AppliedToday = 0,
      TotalCPUSavings = 0, TotalMemorySavings = 0\<rparr> items"

text \<open>\<open>Truncate(24 * time.Hour)\<close> counts from the zero time, a midnight UTC.\<close>

definition midnight :: "time \<Rightarrow> time" where
  "midnight t = t - t mod (24 * Hour)"

definition handleOverview :: "('w, 'o, 'q) lib \<Rightarrow> ('w, 'o, 'q) Server \<Rightarrow> Request \<Rightarrow> ('w, 'q Response) state" where
  "handleOverview L S r = do {
     l \<leftarrow> listRecs (K8sClient S) None;
     case l of
       Inl err \<Rightarrow> internalError
     | Inr list \<Rightarrow> do {
         items \<leftarrow> filterByNamespaceAccess S r list;
         now \<leftarrow> Now L;
         writeJSON (OverviewJSON (overview (Quantities L) (midnight now) items))
       }
   }"

definition vmListItem :: "'o unstructured \<Rightarrow> 'o \<Rightarrow> VMListItem" where
  "vmListItem U vm =
    (let memStr = (case NestedString U vm [''spec'', ''template'', ''spec'', ''domain'', ''resources'', ''requests'', ''memory''] of
           None \<Rightarrow> [] | Some s \<Rightarrow> s)
     in \<lparr>ItemName = GetName U vm, ItemNamespace = GetNamespace U vm,
         Excluded = (GetAnnotations U vm AnnotationExclude = Some ''true''),
         Running = (NestedString U vm [''status'', ''printableStatus''] = Some ''Running''),
         CPUCores = (case NestedInt64 U vm [''spec'', ''template'', ''spec'', ''domain'', ''cpu'', ''cores''] of
           None \<Rightarrow> 0 | Some n \<Rightarrow> n),
         ItemMemory = (if memStr = [] then ''0'' else memStr)\<rparr>)"

definition handleListVMs :: "('w, 'o, 'q) lib \<Rightarrow> ('w, 'o, 'q) Server \<Rightarrow> Request \<Rightarrow> ('w, 'q Response) state" where
  "handleListVMs L S r = (case DynamicClient S of
      None \<Rightarrow> internalError
    | Some d \<Rightarrow> (case ContextUser r of
          None \<Rightarrow> httpError 401 ''unauthorized''
        | Some user \<Rightarrow> do {
            l \<leftarrow> dynList d;
            case l of
              Inl err \<Rightarrow> internalError
            | Inr vms \<Rightarrow> do {
                items \<leftarrow> accessLoop S user (GetNamespace (Unstructured L)) Map.empty vms;
                writeJSON (VMsJSON (map (vmListItem (Unstructured L)) items))
              }
          }))"

section \<open>Policy\<close>

definition handleGetPolicy :: "('w, 'o, 'q) lib \<Rightarrow> ('w, 'o, 'q) Server \<Rightarrow> Request \<Rightarrow> ('w, 'q Response) state" where
  "handleGetPolicy L S r = do {
     g \<leftarrow> getPolicy (K8sClient S) ''default'';
     case g of
       Inr policy \<Rightarrow> writeJSON (PolicyJSON policy)
     | Inl err \<Rightarrow> (case DefaultPolicySpec (Quantities L) of
           None \<Rightarrow> ret Panicking
         | Some ps \<Rightarrow> writeJSON (PolicyJSON \<lparr>PolicyName = [], PolicyResourceVersion = 0, PolicySpec = ps\<rparr>))
   }"

text \<open>The checks of \<open>handleUpdatePolicy\<close> in order: the message of the first that fails.\<close>

definition policyError :: "'q RightsizingPolicySpec \<Rightarrow> string option" where
  "policyError ps =
    (if LookbackDays ps \<le> 0 \<or> 365 < LookbackDays ps then Some ''lookbackDays must be between 1 and 365''
     else if Percentile (Algorithm ps) < 1 \<or> 100 < Percentile (Algorithm ps)
       then Some ''percentile must be between 1 and 100''
     else if HeadroomPercent (Algorithm ps) < 0 then Some ''headroomPercent must be non-negative''
     else if MinCPUSavings (Thresholds ps) < 0 then Some ''minCpuSavings must be non-negative''
     else if UpsizeUtilizationPercent (Thresholds ps) < 1 \<or> 100 < UpsizeUtilizationPercent (Thresholds ps)
       then Some ''upsizeUtilizationPercent must be between 1 and 100''
     else if ReconcileIntervalMinutes ps \<le> 0 then Some ''reconcileIntervalMinutes must be greater than 0''
     else if RevertRetentionDays ps \<le> 0 then Some ''revertRetentionDays must be greater than 0''
     else None)"

definition handleUpdatePolicy :: "('w, 'o, 'q) lib \<Rightarrow> ('w, 'o, 'q) Server \<Rightarrow> Request \<Rightarrow> ('w, 'q Response) state" where
  "handleUpdatePolicy L S r = (case decodePolicySpec (Quantities L) (Body r) of
      None \<Rightarrow> httpError 400 ''invalid request body''
    | Some ps \<Rightarrow> (case policyError ps of
          Some msg \<Rightarrow> httpError 400 msg
        | None \<Rightarrow> do {
            g \<leftarrow> getPolicy (K8sClient S) ''default'';
            case g of
              Inl err \<Rightarrow> httpError 404 ''policy not found''
            | Inr policy \<Rightarrow> do {
                u \<leftarrow> updatePolicy (K8sClient S) (policy\<lparr>PolicySpec := ps\<rparr>);
                case u of
                  Inl err \<Rightarrow> internalError
                | Inr policy2 \<Rightarrow> writeJSON (PolicyJSON policy2)
              }
          }))"

section \<open>Approval\<close>

definition rejectedStatus :: "string \<Rightarrow> time \<Rightarrow> string \<Rightarrow> 'q RightsizingRecommendationStatus \<Rightarrow>
    'q RightsizingRecommendationStatus" where
  "rejectedStatus by' now reason s = s\<lparr>State := StatePending, RejectedBy := by', RejectedAt := Some now,
     RejectionReason := reason, Owner := [], ApprovalToken := [], NotifiedAt := None\<rparr>"

definition handleReject :: "('w, 'o, 'q) lib \<Rightarrow> ('w, 'o, 'q) Server \<Rightarrow> Request \<Rightarrow> ('w, 'q Response) state" where
  "handleReject L S r = (case decodeRejectRequest False (Body r) of
      None \<Rightarrow> httpError 400 ''invalid request body''
    | Some req \<Rightarrow> do {
        g \<leftarrow> getRec (K8sClient S) (PathNamespace r) (PathName r);
        case g of
          Inl err \<Rightarrow> httpError 404 ''recommendation not found''
        | Inr rec \<Rightarrow>
            if recState rec \<noteq> StateAwaitingApproval then httpError 409 ''recommendation is not awaiting approval''
            else do {
              now \<leftarrow> Now L;
              case ContextUser r of
                None \<Rightarrow> ret Panicking
              | Some user \<Rightarrow> do {
                  u \<leftarrow> updateRecStatus (K8sClient S)
                    (updStatus (rejectedStatus (Username user) now (RejReason req)) rec);
                  case u of
                    Inl err \<Rightarrow> internalError
                  | Inr rec2 \<Rightarrow> writeJSON (RecJSON rec2)
                }
            }
      })"

definition handleOwnerApprove :: "('w, 'o, 'q) lib \<Rightarrow> ('w, 'o, 'q) Server \<Rightarrow> Request \<Rightarrow> ('w, 'q Response) state" where
  "handleOwnerApprove L S r = (case decodeApplyRequest (Body r) of
      None \<Rightarrow> httpError 400 ''invalid request body''
    | Some req \<Rightarrow> do {
        g \<leftarrow> getRec (K8sClient S) (PathNamespace r) (PathName r);
        case g of
          Inl err \<Rightarrow> httpError 404 ''recommendation not found''
        | Inr rec \<Rightarrow>
            if recState rec \<noteq> StateAwaitingApproval then httpError 409 ''recommendation is not awaiting approval''
            else do {
              now \<leftarrow> Now L;
              case appliedStatus (HotplugCapable (Spec rec)) req now
                  (Status rec\<lparr>ApprovedBy := Header r ''X-Approval-Owner'', ApprovedAt := Some now,
                    ApprovalToken := []\<rparr>) of
                None \<Rightarrow> httpError 400 ''invalid scheduledAt format''
              | Some st \<Rightarrow> do {
                  u \<leftarrow> updateRecStatus (K8sClient S) (rec\<lparr>Status := st\<rparr>);
                  case u of
                    Inl err \<Rightarrow> internalError
                  | Inr rec2 \<Rightarrow> writeJSON (RecJSON rec2)
                }
            }
      })"

definition handleOwnerReject :: "('w, 'o, 'q) lib \<Rightarrow> ('w, 'o, 'q) Server \<Rightarrow> Request \<Rightarrow> ('w, 'q Response) state" where
  "handleOwnerReject L S r = (case decodeRejectRequest True (Body r) of
      None \<Rightarrow> httpError 400 ''invalid request body''
    | Some req \<Rightarrow> do {
        g \<leftarrow> getRec (K8sClient S) (PathNamespace r) (PathName r);
        case g of
          Inl err \<Rightarrow> httpError 404 ''recommendation not found''
        | Inr rec \<Rightarrow>
            if recState rec \<noteq> StateAwaitingApproval then httpError 409 ''recommendation is not awaiting approval''
            else do {
              now \<leftarrow> Now L;
              _ \<leftarrow> (case DynamicClient S of
                  Some d \<Rightarrow>
                    if RejAction req = ''exclude'' then do {
                      _ \<leftarrow> dynPatch d (RefNamespace (VirtualMachineRef (Spec rec)))
                        (RefName (VirtualMachineRef (Spec rec))) (excludePatch (JStr ''true'')) [];
                      ret ()
                    } else ret ()
                | None \<Rightarrow> ret ());
              u \<leftarrow> updateRecStatus (K8sClient S)
                (updStatus (rejectedStatus (Header r ''X-Approval-Owner'') now (RejReason req)) rec);
              case u of
                Inl err \<Rightarrow> internalError
              | Inr rec2 \<Rightarrow> writeJSON (RecJSON rec2)
            }
      })"

section \<open>Status transitions of the handlers\<close>

lemma appliedStatus_cases:
  assumes "appliedStatus hot req now s = Some st"
  shows "\<exists>a r. appliedState (State st) \<and> (State st = StateApplied \<longrightarrow> a \<noteq> None) \<and>
    st = s\<lparr>State := State st, AppliedAt := a, ScheduledRestartAt := r\<rparr>"
proof (cases hot)
  case True
  then show ?thesis using assms
    by (intro exI[of _ "Some now"] exI[of _ "ScheduledRestartAt s"]) (auto simp: appliedStatus_def)
next
  case False
  show ?thesis
    using assms False
    by (intro exI[of _ "AppliedAt st"] exI[of _ "ScheduledRestartAt st"])
       (auto simp: appliedStatus_def Let_def split: if_splits)
qed

lemma appliedStatus_apply:
  assumes "appliedStatus hot req now (s\<lparr>RevertConfig := Some (Current sp)\<rparr>) = Some st" and "State s = StatePending"
  shows "status_step sp s st"
proof -
  obtain a r where st: "appliedState (State st)" "State st = StateApplied \<longrightarrow> a \<noteq> None"
      "st = s\<lparr>RevertConfig := Some (Current sp), State := State st, AppliedAt := a, ScheduledRestartAt := r\<rparr>"
    using appliedStatus_cases[OF assms(1)] by auto
  show ?thesis by (subst st(3)) (rule status_step.apply_direct, use st assms(2) in auto)
qed

lemma appliedStatus_approve:
  assumes "appliedStatus hot req now (s\<lparr>ApprovedBy := b, ApprovedAt := Some t, ApprovalToken := []\<rparr>) = Some st"
    and "State s = StateAwaitingApproval"
  shows "status_step sp s st"
proof -
  obtain a r where st: "appliedState (State st)" "State st = StateApplied \<longrightarrow> a \<noteq> None"
      "st = s\<lparr>ApprovedBy := b, ApprovedAt := Some t, ApprovalToken := [], State := State st, AppliedAt := a,
        ScheduledRestartAt := r\<rparr>"
    using appliedStatus_cases[OF assms(1)] by auto
  show ?thesis by (subst st(3)) (rule status_step.approve, use st assms(2) in auto)
qed

lemma rejectedStatus_step: "State s = StateAwaitingApproval \<Longrightarrow> status_step sp s (rejectedStatus b t m s)"
  by (simp add: rejectedStatus_def status_step.reject)

section \<open>Laws of the environment\<close>

locale server_env =
  fixes L :: "('w, 'o, 'q) lib"
    and S :: "('w, 'o, 'q) Server"
    and ev :: "'w \<Rightarrow> 'q event list"
    and hi :: "'w \<Rightarrow> 'q recommendation set"
  assumes store: "recommendation_store (K8sClient S) ev hi"
    and resolver: "OwnerResolver S = Some c \<Longrightarrow> recommendation_store c ev hi"
    and dynamic: "DynamicClient S = Some d \<Longrightarrow> vm_api d ev hi"
    and clientset: "Clientset S = Some K \<Longrightarrow> reviews K ev hi"
    and notifier: "SrvNotifier S = Some n \<Longrightarrow> notifying (forwarders n) ev hi"
    and time: "clock (Now L) ev hi"
begin

sublocale store: recommendation_store "K8sClient S" ev hi by (rule store)
sublocale time: clock "Now L" ev hi by (rule time)

lemma canUserAccessNamespace_quiet: "quiet ev hi (canUserAccessNamespace S u ns verb)"
  using reviews.subjectAccessReview_quiet[OF clientset]
  by (auto simp: canUserAccessNamespace_def intro!: quiet_bind split: option.splits)

lemma accessLoop_quiet: "quiet ev hi (accessLoop S user nsOf checked items)"
  by (induction items arbitrary: checked)
     (auto intro!: quiet_bind canUserAccessNamespace_quiet split: option.splits)

lemma filterByNamespaceAccess_quiet: "quiet ev hi (filterByNamespaceAccess S r items)"
  by (auto simp: filterByNamespaceAccess_def intro!: accessLoop_quiet split: option.splits)

text \<open>The handlers that only read.\<close>

lemma readers_quiet:
  "quiet ev hi (handleListRecommendations S r)" "quiet ev hi (handleGetRecommendation S r)"
  "quiet ev hi (handleListVMs L S r)" "quiet ev hi (handleGetPolicy L S r)"
proof -
  show "quiet ev hi (handleListVMs L S r)"
    using vm_api.dynList_quiet[OF dynamic]
    by (auto simp: handleListVMs_def internalError_def intro!: quiet_bind accessLoop_quiet split: option.splits sum.splits)
qed (auto simp: handleListRecommendations_def handleGetRecommendation_def handleGetPolicy_def internalError_def Let_def
      intro!: quiet_bind store.listRecs_quiet store.getRec_quiet store.getPolicy_quiet filterByNamespaceAccess_quiet
      split: sum.splits option.splits)

text \<open>A status write and the answer.\<close>

lemma statusWrite_okay:
  assumes "okay ev hi w0 w" and "rec \<in> hi w" and "status_step (Spec rec) (Status rec) st"
  shows "wp (updateRecStatus (K8sClient S) (rec\<lparr>Status := st\<rparr>))
    (\<lambda>u. wp (case u of Inl err \<Rightarrow> internalError | Inr rec2 \<Rightarrow> writeJSON (RecJSON rec2)) (\<lambda>_. okay ev hi w0)) w"
  using assms by (intro store.updateRecStatus_okay[where old = rec]) (auto simp: internalError_def)

lemma awaitApproval_okay:
  assumes "okay ev hi w0 w" and "rec \<in> hi w" and "recState rec = StatePending" and "owner \<noteq> []"
    and "notify = None \<or> notify = SrvNotifier S"
  shows "wp (awaitApproval L S tm r rec owner notify msg) (\<lambda>_. okay ev hi w0) w"
proof -
  have send: "wp (case notify of None \<Rightarrow> ret [] | Some d \<Rightarrow> SendAll d n) (\<lambda>_. okay ev hi w0) v"
    if "okay ev hi w0 v" for n v
    using that assms(5) notifying.sendTo_okay[OF notifier that order_refl]
    by (auto simp: SendAll_def sendFiltered_def split: option.splits)
  have upd: "wp (updateRecStatus (K8sClient S) (updStatus (\<lambda>s. s\<lparr>State := StateAwaitingApproval, Owner := owner,
      ApprovalToken := token, NotifiedAt := Some now, RevertConfig := Some (Current (Spec rec))\<rparr>) rec)) Q v"
    if "okay ev hi w0 v" "rec \<in> hi v" "\<And>e w'. okay ev hi w0 w' \<Longrightarrow> Q (Inl e) w'"
      "\<And>x w'. okay ev hi w0 w' \<Longrightarrow> Q (Inr x) w'" for Q v token now
    using that assms(3,4)
    by (intro store.updateRecStatus_okay[where old = rec]) (auto intro: status_step.request_approval)
  show ?thesis
    unfolding awaitApproval_def wp_bind
    using assms(2)
    by (auto intro!: upd send time.GenerateToken_okay[OF assms(1)] time.Now_okay simp: internalError_def
        split: sum.splits) blast+
qed

lemma applyWithoutOwner_okay:
  assumes "okay ev hi w0 w" and "rec \<in> hi w" and "recState rec = StatePending"
  shows "wp (applyWithoutOwner L S req rec) (\<lambda>_. okay ev hi w0) w"
  unfolding applyWithoutOwner_def wp_bind
  using assms(2,3)
  by (auto intro!: time.Now_okay[OF assms(1)] statusWrite_okay appliedStatus_apply split: option.splits)

lemma resolveOwner_okay:
  assumes "OwnerResolver S = Some c" and "okay ev hi w0 w"
    and "\<And>r w'. okay ev hi w0 w' \<Longrightarrow> hi w \<subseteq> hi w' \<Longrightarrow> Q r w'"
  shows "wp (ResolveOwner (Unstructured L) c n ns) Q w"
  by (rule okay_quiet_wp[OF recommendation_store.ResolveOwner_quiet[OF resolver[OF assms(1)]] assms(2)]) (rule assms(3))

lemma handleApply_okay: "wp (handleApply L S r) (\<lambda>_. okay ev hi w) w"
proof -
  have "wp (applyPending L S r req rec) (\<lambda>_. okay ev hi w) v"
    if "okay ev hi w v" "rec \<in> hi v" "recState rec = StatePending" for req rec v
    using that unfolding applyPending_def
    by (auto intro!: awaitApproval_okay applyWithoutOwner_okay resolveOwner_okay split: option.splits bool.splits)
  then show ?thesis
    by (auto simp: handleApply_def intro!: store.getRec_okay split: option.splits)
qed

lemma handleRevert_okay: "wp (handleRevert S r) (\<lambda>_. okay ev hi w) w"
  by (auto simp: handleRevert_def intro!: store.getRec_okay statusWrite_okay status_step.revert)

lemma patches_okay:
  "wp (handleExclude S r) (\<lambda>_. okay ev hi w) w" "wp (handleRemoveExclusion S r) (\<lambda>_. okay ev hi w) w"
  by (auto simp: handleExclude_def handleRemoveExclusion_def internalError_def
      intro!: vm_api.dynPatch_okay[OF dynamic] split: option.splits sum.splits)

lemma handleOverview_okay: "wp (handleOverview L S r) (\<lambda>_. okay ev hi w) w"
  unfolding handleOverview_def wp_bind
  by (rule okay_quiet_wp[OF store.listRecs_quiet okay_refl])
     (auto simp: internalError_def intro!: okay_quiet_wp[OF filterByNamespaceAccess_quiet] time.Now_okay split: sum.splits)

lemma handleUpdatePolicy_okay: "wp (handleUpdatePolicy L S r) (\<lambda>_. okay ev hi w) w"
proof -
  have upd: "wp (updatePolicy (K8sClient S) p) Q v"
    if "okay ev hi w v" "\<And>u w'. okay ev hi w w' \<Longrightarrow> Q u w'" for p Q v
    by (rule store.updatePolicy_wp[OF trace_refl]) (auto intro!: that(2) okay_trace[OF that(1)])
  show ?thesis
    by (auto simp: handleUpdatePolicy_def internalError_def intro!: upd okay_quiet_wp[OF store.getPolicy_quiet]
        split: option.splits sum.splits)
qed

lemma handleReject_okay: "wp (handleReject L S r) (\<lambda>_. okay ev hi w) w"
  by (auto simp: handleReject_def intro!: store.getRec_okay time.Now_okay statusWrite_okay rejectedStatus_step
      split: option.splits) blast+

lemma handleOwnerApprove_okay: "wp (handleOwnerApprove L S r) (\<lambda>_. okay ev hi w) w"
  by (auto simp: handleOwnerApprove_def intro!: store.getRec_okay time.Now_okay statusWrite_okay appliedStatus_approve
      split: option.splits) blast+

lemma handleOwnerReject_okay: "wp (handleOwnerReject L S r) (\<lambda>_. okay ev hi w) w"
  by (auto simp: handleOwnerReject_def intro!: store.getRec_okay time.Now_okay statusWrite_okay rejectedStatus_step
      vm_api.dynPatch_okay[OF dynamic] split: option.splits) blast+

end

section \<open>Apply: the owner decides first\<close>

text \<open>The owner that \<open>handleApply\<close> goes by.\<close>

definition serverOwner :: "('w, 'o, 'q) lib \<Rightarrow> ('w, 'o, 'q) Server \<Rightarrow> 'q recommendation \<Rightarrow> 'w \<Rightarrow> string" where
  "serverOwner L S rec w =
    (if DemoMode S \<and> SrvTokenManager S \<noteq> None then ''demo-user@example.com''
     else (case (OwnerResolver S, SrvTokenManager S, SrvNotifier S) of
         (Some c, Some tm, Some d) \<Rightarrow> ownerOf (fst (run_state (ResolveOwner (Unstructured L) c
           (RefName (VirtualMachineRef (Spec rec))) (RefNamespace (VirtualMachineRef (Spec rec)))) w))
       | _ \<Rightarrow> []))"

text \<open>What an apply without an owner logs.\<close>

definition applied_trace :: "('q recommendation \<Rightarrow> bool) \<Rightarrow> ApplyRequest \<Rightarrow> 'q recommendation \<Rightarrow> nat \<Rightarrow> 'q event list \<Rightarrow> bool" where
  "applied_trace ref req rec c es \<longleftrightarrow> (\<exists>t.
     case appliedStatus (HotplugCapable (Spec rec)) req t ((Status rec)\<lparr>RevertConfig := Some (Current (Spec rec))\<rparr>) of
       None \<Rightarrow> es = [ClockRead t] \<and> c = 400
     | Some st \<Rightarrow> es = [ClockRead t] \<and> c = 500 \<and> ref (rec\<lparr>Status := st\<rparr>) \<or>
         (\<exists>new. es = [ClockRead t, RecStatusUpdated rec new] \<and> recKey new = recKey rec \<and> Spec new = Spec rec \<and>
            Status new = serStatus st \<and> (c = 200 \<or> c = 500)))"

definition storedStatus :: "'q recommendation \<Rightarrow> 'q event list \<Rightarrow> bool" where
  "storedStatus rec es \<longleftrightarrow> (\<exists>new. RecStatusUpdated rec new \<in> set es)"

definition apply_trace :: "('w, 'o, 'q) lib \<Rightarrow> ('w, 'o, 'q) Server \<Rightarrow> Request \<Rightarrow> ApplyRequest \<Rightarrow> 'q recommendation \<Rightarrow> 'w \<Rightarrow> 'w \<Rightarrow>
    'q Response \<Rightarrow> 'q event list \<Rightarrow> bool" where
  "apply_trace L S r req rec w w' resp es \<longleftrightarrow>
     (let owner = serverOwner L S rec w in
      if owner \<noteq> []
      then approval_trace (linkToken L (the (SrvTokenManager S)) (PathNamespace r) (PathName r) owner) (ApprovalRouteHost S)
          (\<lambda>x. refused (updateRecStatus (K8sClient S) x) w') rec owner es \<and>
        (code resp = 500 \<or> code resp = 202 \<and> storedStatus rec es)
      else applied_trace (\<lambda>x. refused (updateRecStatus (K8sClient S) x) w') req rec (code resp) es)"

lemma lift_trace:
  assumes "trace ev hi w es0 w1" and "wp m (\<lambda>a w'. \<exists>es. trace ev hi w1 es w' \<and> P a w' (es0 @ es)) w1"
  shows "wp m (\<lambda>a w'. \<exists>es. trace ev hi w es w' \<and> P a w' es) w1"
  using assms(2) by (rule wp_conseq) (use trace_trans[OF assms(1)] in blast)

context server_env
begin

text \<open>An approval request once the token is made: the status, the notification and the answer.\<close>

lemma awaitApproval_stored:
  assumes t: "trace ev hi w [ClockRead t, ClockRead t'] v" and v: "rec \<in> hi v" and sign: "sign t = Inr token"
    and notify: "notify = None \<or> notify = SrvNotifier S"
  shows "wp (updateRecStatus (K8sClient S) (rec\<lparr>Status := awaitingStatus rec owner token t'\<rparr>))
      (\<lambda>u. wp (case u of Inl err \<Rightarrow> internalError
         | Inr rec2 \<Rightarrow> do {
             _ \<leftarrow> (case notify of None \<Rightarrow> ret []
               | Some d \<Rightarrow> SendAll d (notificationFor (Quantities L) rec2 owner (approvalURL (ApprovalRouteHost S) token)));
             ret (Response 202 b)
           })
        (\<lambda>resp w'. \<exists>es. trace ev hi w es w' \<and>
          approval_trace sign (ApprovalRouteHost S) (\<lambda>x. refused (updateRecStatus (K8sClient S) x) w') rec owner es \<and>
          (code resp = 500 \<or> code resp = 202 \<and> storedStatus rec es))) v"
proof (rule store.updateRecStatus_refused_wp[where old = rec, OF t v], goal_cases)
  case (3 e w')
  then show ?case using sign by (auto simp: approval_trace_def internalError_def)
next
  case (4 new u w')
  let ?A = "\<lambda>w'. approval_trace sign (ApprovalRouteHost S) (\<lambda>x. refused (updateRecStatus (K8sClient S) x) w') rec owner"
  let ?Q = "\<lambda>resp w'. \<exists>es. trace ev hi w es w' \<and> ?A w' es \<and> (code resp = 500 \<or> code resp = 202 \<and> storedStatus rec es)"
  let ?ntf = "\<lambda>x. notificationFor (Quantities L) x owner (approvalURL (ApprovalRouteHost S) token)"
  have st: "Status new = serStatus (awaitingStatus rec owner token t')" using 4(6) by simp
  have a: "?A w'' (ClockRead t # ClockRead t' # RecStatusUpdated rec new # ns)"
    if "list_all (linkSent owner (approvalURL (ApprovalRouteHost S) token)) ns" for w'' ns
    using sign 4(4,5) st that by (rule approval_traceI)
  have done': "?Q (Response 202 b) w''"
    if "trace ev hi w ([ClockRead t, ClockRead t', RecStatusUpdated rec new] @ ns) w''"
      "list_all (linkSent owner (approvalURL (ApprovalRouteHost S) token)) ns" for w'' ns
    using that a[OF that(2)] by (intro exI[of _ "[ClockRead t, ClockRead t', RecStatusUpdated rec new] @ ns"]) (auto simp: storedStatus_def)
  have err: "?Q (Response 500 c) w'" for c using 4(1) a[of "[]"] by auto
  have send: "wp (SendAll d (?ntf x)) (\<lambda>_. ?Q (Response 202 b)) w'" if "SrvNotifier S = Some d" for d x
    unfolding SendAll_def sendFiltered_def
    by (rule notifying.sendTo_wp[OF notifier[OF that] 4(1) order_refl], rule done')
       (auto simp: notificationFor_def elim!: list.pred_mono_strong)
  show ?case using err done'[of "[]"] send 4(1,7) notify
    by (cases u) (auto simp: internalError_def split: option.splits)
qed auto

lemma awaitApproval_trace:
  fixes tm :: TokenManager and owner :: string and r :: Request
  assumes "rec \<in> hi w" and "notify = None \<or> notify = SrvNotifier S"
  defines "sign \<equiv> linkToken L tm (PathNamespace r) (PathName r) owner"
  shows "wp (awaitApproval L S tm r rec owner notify msg) (\<lambda>resp w'. \<exists>es. trace ev hi w es w' \<and>
    approval_trace sign (ApprovalRouteHost S) (\<lambda>x. refused (updateRecStatus (K8sClient S) x) w') rec owner es \<and>
    (code resp = 500 \<or> code resp = 202 \<and> storedStatus rec es)) w"
  unfolding awaitApproval_def wp_bind[of "GenerateToken _ _ _ _ _ _ _"]
proof (rule linkToken_wp[OF time trace_refl], fold sign_def, goal_cases)
  case (1 t w1)
  show ?case
  proof (cases "sign t")
    case (Inl err)
    show ?thesis unfolding Inl sum.case using 1 Inl by (auto simp: approval_trace_def)
  next
    case (Inr token)
    have stored: "rec \<in> hi w2" if "hi w1 \<subseteq> hi w2" for w2 using that 1(2) assms(1) by blast
    show ?thesis unfolding Inr sum.case wp_bind
      by (rule time.Now_wp[OF 1(1)], rule awaitApproval_stored[unfolded wp_bind awaitingStatus_def])
         (use stored Inr assms(2) in auto)
  qed
qed

lemma applyWithoutOwner_trace:
  assumes "rec \<in> hi w"
  shows "wp (applyWithoutOwner L S req rec) (\<lambda>resp w'. \<exists>es. trace ev hi w es w' \<and>
    applied_trace (\<lambda>x. refused (updateRecStatus (K8sClient S) x) w') req rec (code resp) es) w"
  unfolding applyWithoutOwner_def wp_bind
proof (rule time.Now_wp[OF trace_refl], goal_cases)
  case (1 t w1)
  show ?case
  proof (cases "appliedStatus (HotplugCapable (Spec rec)) req t ((Status rec)\<lparr>RevertConfig := Some (Current (Spec rec))\<rparr>)")
    case None
    then have "applied_trace ref req rec 400 [ClockRead t]" for ref by (auto simp: applied_trace_def intro!: exI[of _ t])
    then show ?thesis using 1 None by auto
  next
    case (Some st)
    have r: "rec \<in> hi w1" using 1 assms by blast
    show ?thesis
      unfolding Some option.case wp_bind
    proof (rule store.updateRecStatus_refused_wp[where old = rec, OF 1(1) r], goal_cases)
      case (3 e w')
      then have "applied_trace (\<lambda>x. refused (updateRecStatus (K8sClient S) x) w') req rec 500 [ClockRead t]"
        using Some by (auto simp: applied_trace_def intro!: exI[of _ t])
      then show ?case using 3(1) by (auto simp: internalError_def)
    next
      case (4 new u w')
      have "applied_trace ref req rec c [ClockRead t, RecStatusUpdated rec new]" if "c = 200 \<or> c = 500" for c ref
        using 4 Some that by (auto simp: applied_trace_def intro!: exI[of _ t])
      then show ?case using 4(1,7) by (cases u) (auto simp: internalError_def)
    qed auto
  qed
qed

lemma applyPending_trace:
  assumes "rec \<in> hi w"
  shows "wp (applyPending L S r req rec) (\<lambda>resp w'. \<exists>es. trace ev hi w es w' \<and>
    apply_trace L S r req rec w w' resp es) w"
proof (cases "(DemoMode S \<and> SrvTokenManager S \<noteq> None) \<or> OwnerResolver S = None \<or> SrvTokenManager S = None \<or> SrvNotifier S = None")
  case True
  then show ?thesis
    using awaitApproval_trace[OF assms] applyWithoutOwner_trace[OF assms]
    by (auto simp: applyPending_def apply_trace_def serverOwner_def Let_def split: option.splits bool.splits)
next
  case False
  then obtain c tm d where c: "OwnerResolver S = Some c" "SrvTokenManager S = Some tm" "SrvNotifier S = Some d"
      "DemoMode S = False" by auto
  let ?ro = "ResolveOwner (Unstructured L) c (RefName (VirtualMachineRef (Spec rec)))
    (RefNamespace (VirtualMachineRef (Spec rec)))"
  obtain o' w1 where run: "run_state ?ro w = (o', w1)" by fastforce
  then have own: "serverOwner L S rec w = ownerOf o'" using c by (simp add: serverOwner_def)
  have t: "trace ev hi w [] w1"
    using recommendation_store.ResolveOwner_quiet[OF resolver[OF c(1)]] run unfolding quiet_def by (metis snd_conv)
  have r1: "rec \<in> hi w1" using trace_hi[OF t assms] .
  have "notify = Some d \<Longrightarrow> notify = None \<or> notify = SrvNotifier S" for notify using c by simp
  note A = lift_trace[OF t, unfolded append_Nil]
  show ?thesis
    using A[OF awaitApproval_trace[OF r1, of "Some d" tm r "ownerOf o'"]] A[OF applyWithoutOwner_trace[OF r1, of req]] run own c
    by (simp add: applyPending_def apply_trace_def wp_def Let_def)
qed

end

section \<open>The server on the cluster in memory\<close>

definition memServer :: "bool \<Rightarrow> (memWorld, json, int) Server" where
  "memServer demo = \<lparr>K8sClient = memClient, Clientset = Some memClientset, DynamicClient = Some memDynamic,
     OwnerResolver = Some memClient, SrvTokenManager = Some \<lparr>signingKey = ''k''\<rparr>,
     SrvNotifier = Some \<lparr>forwarders = map memForwarder [''slack'', ''servicenow'']\<rparr>,
     ApprovalRouteHost = ''approve.example.com'', DemoMode = demo\<rparr>"

lemma memServer_simps [simp]:
  "K8sClient (memServer d) = memClient" "Clientset (memServer d) = Some memClientset"
  "DynamicClient (memServer d) = Some memDynamic" "OwnerResolver (memServer d) = Some memClient"
  "SrvTokenManager (memServer d) = Some \<lparr>signingKey = ''k''\<rparr>"
  "SrvNotifier (memServer d) = Some \<lparr>forwarders = map memForwarder [''slack'', ''servicenow'']\<rparr>"
  "DemoMode (memServer d) = d"
  by (simp_all add: memServer_def)

interpretation mem: server_env memLib "memServer demo" wEvents memHist for demo
proof (rule server_env.intro)
  fix n :: "memWorld Dispatcher"
  assume "SrvNotifier (memServer demo) = Some n"
  then show "notifying (forwarders n) wEvents memHist"
    using mem.weak.notifying_axioms[of "[''slack'', ''servicenow'']"] by auto
qed (auto simp: mem.recommendation_store_axioms mem.vm_api_axioms mem.clock_axioms mem.reviews_axioms)

definition sampleRequest :: "json \<Rightarrow> Request" where
  "sampleRequest body = \<lparr>Method = ''POST'', EscapedPath = ''/api/v1/recommendations/prod/vm-web/apply'',
     Query = (\<lambda>_. []), Header = (\<lambda>h. if h = ''Authorization'' then ''Bearer t'' else []),
     Body = Some body, Form = None, PathNamespace = ''prod'', PathName = ''vm-web'',
     ContextUser = Some \<lparr>Username = ''ops'', UID = ''1'', Groups = []\<rparr>\<rparr>"

section \<open>Properties\<close>



section \<open>Access to namespaces\<close>

text \<open>Whether the review lets the user read recommendations of a namespace, for reviews that are
  answered by a function \<open>dec\<close>.\<close>

definition mayRead :: "(SubjectAccessReviewSpec \<Rightarrow> bool result) \<Rightarrow> UserInfo \<Rightarrow> string \<Rightarrow> bool" where
  "mayRead dec user ns = (dec (sarSpec user ''get'' ''rightsizingrecommendations'' ns) = Inr True)"

lemma canUserAccessNamespace_dec:
  assumes "Clientset S = Some K" and "\<And>s w. fst (run_state (subjectAccessReview K s) w) = dec s"
  shows "fst (run_state (canUserAccessNamespace S (Some user) ns ''get'') w) = mayRead dec user ns"
  using assms(2)[of "sarSpec user ''get'' ''rightsizingrecommendations'' ns" w] assms(1)
  by (auto simp: canUserAccessNamespace_def mayRead_def split: prod.splits sum.splits)

text \<open>The loop with its cache returns exactly the items whose namespace the user may read.\<close>

lemma accessLoop_filter:
  assumes "Clientset S = Some K" and "\<And>s w. fst (run_state (subjectAccessReview K s) w) = dec s"
    and "\<And>ns a. checked ns = Some a \<Longrightarrow> a = mayRead dec user ns"
  shows "wp (accessLoop S user nsOf checked items) (\<lambda>res _. res = filter (mayRead dec user \<circ> nsOf) items) w"
  using assms(3)
proof (induction items arbitrary: checked w)
  case (Cons item items)
  have ask: "wp (canUserAccessNamespace S (Some user) (nsOf item) ''get'') (\<lambda>a _. a = mayRead dec user (nsOf item)) v" for v
    by (simp add: wp_run canUserAccessNamespace_dec[OF assms(1,2)])
  show ?case
  proof (cases "checked (nsOf item)")
    case None
    have "wp (accessLoop S user nsOf (checked(nsOf item \<mapsto> mayRead dec user (nsOf item))) items)
        (\<lambda>res _. res = filter (mayRead dec user \<circ> nsOf) items) v" for v
      by (rule Cons.IH) (use Cons.prems in \<open>auto split: if_splits\<close>)
    then show ?thesis
      unfolding accessLoop.simps None option.case wp_bind wp_return prod.case
      by (intro wp_conseq[OF ask]) (auto elim!: wp_conseq)
  next
    case (Some a)
    then have a: "a = mayRead dec user (nsOf item)" by (rule Cons.prems)
    have "wp (accessLoop S user nsOf checked items) (\<lambda>res _. res = filter (mayRead dec user \<circ> nsOf) items) v" for v
      by (rule Cons.IH) (rule Cons.prems)
    then show ?thesis
      unfolding accessLoop.simps Some option.case wp_bind wp_return prod.case a by (rule wp_conseq) simp
  qed
qed simp

text \<open>C28: the list of recommendations holds exactly the recommendations that the cluster returned,
  whose namespace the user may read, and that match the filters of the query: nothing of another
  namespace leaks, and nothing readable is dropped by the cache of reviews.\<close>

theorem list_shows_readable:
  assumes "Clientset S = Some K" and "\<And>s w. fst (run_state (subjectAccessReview K s) w) = dec s"
    and "ContextUser r = Some user"
    and "run_state (listRecs (K8sClient S) (if Query r ''namespace'' = [] then None else Some (Query r ''namespace''))) w = (Inr all, w1)"
  shows "fst (run_state (handleListRecommendations S r) w) = Response 200 (RecsJSON
    (filter (\<lambda>i. mayRead dec user (Namespace i) \<and>
       (Query r ''direction'' = [] \<or> Direction (Spec i) = Query r ''direction'') \<and>
       (Query r ''state'' = [] \<or> recState i = Query r ''state'')) all))"
proof -
  have "wp (accessLoop S user Namespace Map.empty all) (\<lambda>res _. res = filter (mayRead dec user \<circ> Namespace) all) w1"
    by (rule accessLoop_filter[OF assms(1,2)]) simp
  then obtain w2 where loop: "run_state (accessLoop S user Namespace Map.empty all) w1 =
      (filter (mayRead dec user \<circ> Namespace) all, w2)"
    by (auto simp: wp_def split: prod.splits)
  show ?thesis
    by (simp add: handleListRecommendations_def filterByNamespaceAccess_def assms(3,4) loop Let_def comp_def)
qed

definition readWorld :: memWorld where
  "readWorld = (sampleWorld pendingStatus)\<lparr>
     wHist := [(((''prod'', ''vm-web''), 1), (sampleSpec, pendingStatus)), (((''dev'', ''vm-db''), 2), (sampleSpec, pendingStatus))],
     wCur := [((''prod'', ''vm-web''), 1), ((''dev'', ''vm-db''), 2)]\<rparr>"

definition devClientset :: "memWorld clientset" where
  "devClientset = memClientset\<lparr>subjectAccessReview := (\<lambda>s. ret (Inr (SarNamespace s = ''dev'')))\<rparr>"

theorem list_shows_readable_witness:
  "fst (run_state (handleListRecommendations (memServer False\<lparr>Clientset := Some devClientset\<rparr>) (sampleRequest JNull)) readWorld) =
    Response 200 (RecsJSON [memRec (''dev'', ''vm-db'') 2 sampleSpec pendingStatus])"
proof -
  let ?all = "[memRec (''prod'', ''vm-web'') 1 sampleSpec pendingStatus, memRec (''dev'', ''vm-db'') 2 sampleSpec pendingStatus]"
  have "run_state (listRecs (K8sClient (memServer False\<lparr>Clientset := Some devClientset\<rparr>))
      (if Query (sampleRequest JNull) ''namespace'' = [] then None else Some (Query (sampleRequest JNull) ''namespace''))) readWorld =
      (Inr ?all, readWorld)"
    by (simp add: readWorld_def mem_run sampleRequest_def List.map_filter_def)
  from list_shows_readable[of "memServer False\<lparr>Clientset := Some devClientset\<rparr>" devClientset "\<lambda>s. Inr (SarNamespace s = ''dev'')",
      OF _ _ _ this] show ?thesis
    by (simp add: devClientset_def sampleRequest_def mayRead_def sarSpec_def memRec_def)
qed

section \<open>Totals\<close>

lemma i32_add [simp]: "i32 (i32 a + b) = i32 (a + b)"
proof -
  have "i32 a + b + 2 ^ 31 = (a + 2 ^ 31) mod 2 ^ 32 + b" by (simp add: i32_def)
  then have "(i32 a + b + 2 ^ 31) mod 2 ^ 32 = (a + b + 2 ^ 31) mod 2 ^ 32"
    by (simp only: mod_add_left_eq) (simp add: ac_simps)
  then show ?thesis by (simp add: i32_def[of "i32 a + b"] i32_def[of "a + b"])
qed

lemma i64_add [simp]: "i64 (i64 a + b) = i64 (a + b)"
proof -
  have "i64 a + b + 2 ^ 63 = (a + 2 ^ 63) mod 2 ^ 64 + b" by (simp add: i64_def)
  then have "(i64 a + b + 2 ^ 63) mod 2 ^ 64 = (a + b + 2 ^ 63) mod 2 ^ 64"
    by (simp only: mod_add_left_eq) (simp add: ac_simps)
  then show ?thesis by (simp add: i64_def[of "i64 a + b"] i64_def[of "a + b"])
qed

abbreviation downsizable :: "'q recommendation \<Rightarrow> bool" where
  "downsizable i \<equiv> Direction (Spec i) = DirectionDownsize \<and> recState i = StatePending"

abbreviation upsizable :: "'q recommendation \<Rightarrow> bool" where
  "upsizable i \<equiv> Direction (Spec i) = DirectionUpsize \<and> recState i = StatePending"

abbreviation appliedAfter :: "time \<Rightarrow> 'q recommendation \<Rightarrow> bool" where
  "appliedAfter t i \<equiv> (case AppliedAt (Status i) of None \<Rightarrow> False | Some u \<Rightarrow> t < u)"

lemma countItem_fields [simp]:
  "TotalVMs (countItem Q t ov i) = TotalVMs ov"
  "DownsizeCandidates (countItem Q t ov i) = DownsizeCandidates ov + (if downsizable i then 1 else 0)"
  "UpsizeNeeded (countItem Q t ov i) = UpsizeNeeded ov + (if upsizable i then 1 else 0)"
  "AppliedToday (countItem Q t ov i) = AppliedToday ov + (if appliedAfter t i then 1 else 0)"
  "TotalCPUSavings (countItem Q t ov i) =
     (if downsizable i then i32 (TotalCPUSavings ov + SavingsCPU (Savings (Spec i))) else TotalCPUSavings ov)"
  "TotalMemorySavings (countItem Q t ov i) =
     (if downsizable i then i64 (TotalMemorySavings ov + Value Q (SavingsMemory (Savings (Spec i)))) else TotalMemorySavings ov)"
  by (auto simp: countItem_def Let_def split: option.splits)

lemma countItem_fold:
  "TotalVMs (foldl (countItem Q t) ov is) = TotalVMs ov"
  "DownsizeCandidates (foldl (countItem Q t) ov is) = DownsizeCandidates ov + int (length (filter downsizable is))"
  "UpsizeNeeded (foldl (countItem Q t) ov is) = UpsizeNeeded ov + int (length (filter upsizable is))"
  "AppliedToday (foldl (countItem Q t) ov is) = AppliedToday ov + int (length (filter (appliedAfter t) is))"
  by (induction "is" arbitrary: ov) auto

lemma savings_fold:
  "is_i32 (TotalCPUSavings ov) \<Longrightarrow> TotalCPUSavings (foldl (countItem Q t) ov is) =
    i32 (TotalCPUSavings ov + (\<Sum>i\<leftarrow>filter downsizable is. SavingsCPU (Savings (Spec i))))"
  "is_i64 (TotalMemorySavings ov) \<Longrightarrow> TotalMemorySavings (foldl (countItem Q t) ov is) =
    i64 (TotalMemorySavings ov + (\<Sum>i\<leftarrow>filter downsizable is. Value Q (SavingsMemory (Savings (Spec i)))))"
  by (induction "is" arbitrary: ov) (auto simp: add.assoc)

lemma filter_disjoint_length:
  "(\<And>x. P x \<Longrightarrow> \<not> Q x) \<Longrightarrow> length (filter P xs) + length (filter Q xs) \<le> length xs"
  by (induction xs) auto

text \<open>The overview counts every visible recommendation once: the candidates are exactly the
  pending ones of each direction and together no more than the VMs, the savings are the sums over
  the downsize candidates up to the wrap-around of their integer types, and an item counts as
  applied today when its time is after the midnight given.\<close>

theorem overview_totals:
  "TotalVMs (overview Q today items) = int (length items) \<and>
   DownsizeCandidates (overview Q today items) = int (length (filter downsizable items)) \<and>
   UpsizeNeeded (overview Q today items) = int (length (filter upsizable items)) \<and>
   DownsizeCandidates (overview Q today items) + UpsizeNeeded (overview Q today items) \<le> TotalVMs (overview Q today items) \<and>
   AppliedToday (overview Q today items) = int (length (filter (appliedAfter today) items)) \<and>
   TotalCPUSavings (overview Q today items) = i32 (\<Sum>i\<leftarrow>filter downsizable items. SavingsCPU (Savings (Spec i))) \<and>
   TotalMemorySavings (overview Q today items) =
     i64 (\<Sum>i\<leftarrow>filter downsizable items. Value Q (SavingsMemory (Savings (Spec i))))"
proof -
  have "length (filter downsizable items) + length (filter upsizable items) \<le> length items"
    by (rule filter_disjoint_length) simp
  then show ?thesis by (simp add: overview_def countItem_fold savings_fold is_i32_def is_i64_def)
qed

section \<open>Policies\<close>

definition policyInBounds :: "'q RightsizingPolicySpec \<Rightarrow> bool" where
  "policyInBounds ps \<longleftrightarrow> LookbackDays ps \<in> {1..365} \<and> Percentile (Algorithm ps) \<in> {1..100} \<and>
     0 \<le> HeadroomPercent (Algorithm ps) \<and> 0 \<le> MinCPUSavings (Thresholds ps) \<and>
     UpsizeUtilizationPercent (Thresholds ps) \<in> {1..100} \<and> 0 < ReconcileIntervalMinutes ps \<and>
     0 < RevertRetentionDays ps"

lemma policyError_None [simp]: "policyError ps = None \<longleftrightarrow> policyInBounds ps"
  by (auto simp: policyError_def policyInBounds_def)

text \<open>The outcome for a spec within its bounds, from the policy that was read: none, and the answer is
  404; or the new spec is stored in it, or the API server refused that and the answer is 500.\<close>

definition policy_outcome :: "('w, 'o, 'q) Server \<Rightarrow> 'q RightsizingPolicySpec \<Rightarrow> 'q RightsizingPolicy result \<Rightarrow>
    'q Response \<Rightarrow> 'q event list \<Rightarrow> 'w \<Rightarrow> bool" where
  "policy_outcome S ps g resp es w' \<longleftrightarrow> (case g of
      Inl e \<Rightarrow> code resp = 404 \<and> es = []
    | Inr policy \<Rightarrow> code resp = 500 \<and> es = [] \<and> refused (updatePolicy (K8sClient S) (policy\<lparr>PolicySpec := ps\<rparr>)) w' \<or>
        es = [PolicyUpdated (policy\<lparr>PolicySpec := ps\<rparr>)] \<and> (code resp = 200 \<or> code resp = 500))"

text \<open>C29: the policy is only ever replaced by the spec of the request body, and exactly when that spec
  is within its bounds, a policy exists and the API server accepts the write; a request outside the bounds is
  refused with 400 and changes nothing.\<close>

theorem update_policy_in_bounds:
  assumes "server_env L S ev hi" and "run_state (handleUpdatePolicy L S r) w = (resp, w')"
  shows "case decodePolicySpec (Quantities L) (Body r) of
      None \<Rightarrow> code resp = 400 \<and> w' = w
    | Some ps \<Rightarrow> if \<not> policyInBounds ps then code resp = 400 \<and> w' = w
        else \<exists>es. trace ev hi w es w' \<and>
          policy_outcome S ps (fst (run_state (getPolicy (K8sClient S) ''default'') w)) resp es w'"
proof (cases "\<exists>ps. decodePolicySpec (Quantities L) (Body r) = Some ps \<and> policyInBounds ps")
  case True
  then obtain ps where ps: "decodePolicySpec (Quantities L) (Body r) = Some ps" "policyInBounds ps" by blast
  have store: "recommendation_store (K8sClient S) ev hi" using assms(1) by (simp add: server_env_def)
  obtain g v where g: "run_state (getPolicy (K8sClient S) ''default'') w = (g, v)" by fastforce
  then have t: "trace ev hi w [] v"
    using recommendation_store.getPolicy_quiet[OF store] unfolding quiet_def by (metis snd_conv)
  have upd: "wp (updatePolicy (K8sClient S) (p\<lparr>PolicySpec := ps\<rparr>))
    (\<lambda>u. wp (case u of Inl err \<Rightarrow> internalError | Inr policy2 \<Rightarrow> writeJSON (PolicyJSON policy2))
      (\<lambda>resp w'. \<exists>es. trace ev hi w es w' \<and> policy_outcome S ps (Inr p) resp es w')) v" for p
    by (rule recommendation_store.updatePolicy_wp[OF store t])
       (auto simp: internalError_def policy_outcome_def split: sum.splits)
  have "wp (handleUpdatePolicy L S r) (\<lambda>resp w'. \<exists>es. trace ev hi w es w' \<and> policy_outcome S ps g resp es w') w"
    unfolding handleUpdatePolicy_def ps(1) option.case policyError_None[THEN iffD2, OF ps(2)] wp_bind
    using upd t g by (cases g) (auto simp: wp_def[of "getPolicy _ _"] policy_outcome_def)
  from wpD[OF this assms(2)] show ?thesis using ps g by simp
next
  case False
  have "code resp = 400 \<and> w' = w"
    using assms(2) False by (auto simp: handleUpdatePolicy_def split: option.splits)
  then show ?thesis using False by (auto split: option.splits)
qed

definition policyBody :: "int \<Rightarrow> json" where
  "policyBody days = JObj [(''lookbackDays'', JNum days), (''revertRetentionDays'', JNum 7),
     (''reconcileIntervalMinutes'', JNum 60),
     (''algorithm'', JObj [(''percentile'', JNum 95), (''headroomPercent'', JNum 20)]),
     (''thresholds'', JObj [(''minCpuSavings'', JNum 1), (''upsizeUtilizationPercent'', JNum 90)])]"

definition policyWorld :: memWorld where
  "policyWorld = emptyWorld\<lparr>wPolicy := Some \<lparr>PolicyName = ''default'', PolicyResourceVersion = 1,
     PolicySpec = zeroPolicySpec memQuantities\<rparr>\<rparr>"

lemma policyBody_decode:
  "\<exists>ps. decodePolicySpec memQuantities (Some (policyBody 30)) = Some ps \<and> policyInBounds ps \<and> LookbackDays ps = 30"
  by (rule exI[of _ "zeroPolicySpec memQuantities\<lparr>LookbackDays := 30, RevertRetentionDays := 7,
     ReconcileIntervalMinutes := 60, Algorithm := \<lparr>Percentile = 95, HeadroomPercent = 20\<rparr>,
     Thresholds := \<lparr>MinCPUSavings = 1, MinMemorySavings = 0, UpsizeUtilizationPercent = 90\<rparr>\<rparr>"], code_simp)

theorem update_policy_in_bounds_witness:
  "\<exists>p. wEvents (snd (run_state (handleUpdatePolicy memLib (memServer False) (sampleRequest (policyBody 30))) policyWorld)) =
    [PolicyUpdated p] \<and> LookbackDays (PolicySpec p) = 30"
proof -
  obtain resp w' where run: "run_state (handleUpdatePolicy memLib (memServer False) (sampleRequest (policyBody 30))) policyWorld = (resp, w')"
    by fastforce
  obtain ps where ps: "decodePolicySpec memQuantities (Some (policyBody 30)) = Some ps" "policyInBounds ps" "LookbackDays ps = 30"
    using policyBody_decode by blast
  have ok: "code resp = 200"
    using run ps(1) policyError_None[THEN iffD2, OF ps(2)] by (auto simp: handleUpdatePolicy_def sampleRequest_def policyWorld_def mem_run)
  show ?thesis
    using update_policy_in_bounds[OF mem.server_env_axioms run] ps ok run
    by (auto simp: sampleRequest_def trace_def policyWorld_def emptyWorld_def policy_outcome_def split: sum.splits)
qed

section \<open>What the handlers can touch\<close>

text \<open>The events of the handlers that act on the recommendation named by the path.\<close>

fun statusOnly :: "string \<Rightarrow> string \<Rightarrow> 'q event \<Rightarrow> bool" where
  "statusOnly ns n (RecStatusUpdated old new) = (recKey old = (ns, n) \<and> recKey new = (ns, n) \<and> Spec new = Spec old)"
| "statusOnly ns n (NotificationSent f m) = True"
| "statusOnly ns n (ClockRead t) = True"
| "statusOnly ns n e = False"

text \<open>The two handlers that patch a VM named by the path change nothing but its exclusion annotation.\<close>

fun exclusionOnly :: "string \<Rightarrow> string \<Rightarrow> 'q event \<Rightarrow> bool" where
  "exclusionOnly ns n (VMPatched vns vn patch subs) =
    (vns = ns \<and> vn = n \<and> subs = [] \<and> (patch = excludePatch (JStr ''true'') \<or> patch = excludePatch JNull))"
| "exclusionOnly ns n e = False"

text \<open>What an owner's rejection leaves of a recommendation that was read as \<open>rec\<close>: the status with the
  rejection, or nothing of it where the API server refused; before it, only where exclusion was asked for,
  the annotation on the VM of this recommendation.\<close>

definition exclusionOf :: "'q recommendation \<Rightarrow> 'q event" where
  "exclusionOf rec = VMPatched (RefNamespace (VirtualMachineRef (Spec rec))) (RefName (VirtualMachineRef (Spec rec)))
     (JObj [(''metadata'', JObj [(''annotations'', JObj [(''rightsizing.redhatconsulting.io/exclude'', JStr ''true'')])])]) []"

definition exclusion_tried :: "('w, 'o, 'q) Server \<Rightarrow> RejectRequest \<Rightarrow> 'q recommendation \<Rightarrow> 'q event list \<Rightarrow> bool" where
  "exclusion_tried S req rec ps \<longleftrightarrow> ps = [exclusionOf rec] \<and> RejAction req = ''exclude'' \<or>
     ps = [] \<and> (RejAction req = ''exclude'' \<longrightarrow> (case DynamicClient S of None \<Rightarrow> True
       | Some d \<Rightarrow> \<exists>v. refused (dynPatch d (RefNamespace (VirtualMachineRef (Spec rec))) (RefName (VirtualMachineRef (Spec rec)))
           (excludePatch (JStr ''true'')) []) v))"

definition owner_rejection :: "('w, 'o, 'q) Server \<Rightarrow> string \<Rightarrow> RejectRequest \<Rightarrow> 'q recommendation \<Rightarrow> 'q Response \<Rightarrow>
    'q event list \<Rightarrow> 'w \<Rightarrow> bool" where
  "owner_rejection S owner req rec resp es w' \<longleftrightarrow>
    (if recState rec \<noteq> StateAwaitingApproval then es = [] \<and> resp = Response 409 (Text ''recommendation is not awaiting approval'')
     else \<exists>now ps upd u. es = ClockRead now # ps @ upd \<and>
       exclusion_tried S req rec ps \<and>
       stores (K8sClient S) rec ((Status rec)\<lparr>State := StatePending, RejectedBy := owner, RejectedAt := Some now,
          RejectionReason := RejReason req, Owner := [], ApprovalToken := [], NotifiedAt := None\<rparr>) u upd w' \<and>
       (case u of Inl (err :: api_error) \<Rightarrow> resp = Response 500 (Text ''internal server error'') | Inr rec2 \<Rightarrow> resp = Response 200 (RecJSON rec2)))"

fun isPolicyUpdate :: "'q event \<Rightarrow> bool" where
  "isPolicyUpdate (PolicyUpdated p) = policyInBounds (PolicySpec p)"
| "isPolicyUpdate e = False"

lemma wp_run_bind: "run_state m w = (a, w1) \<Longrightarrow> wp (m \<bind> f) Q w = wp (f a) Q w1"
  by (simp add: wp_def)

context server_env
begin

lemma statusWrite_emitted:
  assumes "emitted ev hi P w0 w" and "rec \<in> hi w"
    and "\<And>new. recKey new = recKey rec \<Longrightarrow> Spec new = Spec rec \<Longrightarrow> Status new = serStatus st \<Longrightarrow> P (RecStatusUpdated rec new)"
  shows "wp (updateRecStatus (K8sClient S) (rec\<lparr>Status := st\<rparr>))
    (\<lambda>u. wp (case u of Inl err \<Rightarrow> internalError | Inr rec2 \<Rightarrow> writeJSON (RecJSON rec2)) (\<lambda>_. emitted ev hi P w0)) w"
  using assms by (intro store.updateRecStatus_emitted[where old = rec, OF assms(1)])
    (auto simp: internalError_def split: sum.splits)

lemma awaitApproval_status:
  assumes "emitted ev hi (statusOnly ns n) w0 w" and "rec \<in> hi w" and "recKey rec = (ns, n)"
    and "notify = None \<or> notify = SrvNotifier S"
  shows "wp (awaitApproval L S tm r rec owner notify msg) (\<lambda>_. emitted ev hi (statusOnly ns n) w0) w"
proof -
  have send: "wp (case notify of None \<Rightarrow> ret [] | Some d \<Rightarrow> SendAll d m) (\<lambda>_. emitted ev hi (statusOnly ns n) w0) v"
    if "emitted ev hi (statusOnly ns n) w0 v" for m v
    using that assms(4) notifying.sendTo_emitted[OF notifier that order_refl]
    by (auto simp: SendAll_def sendFiltered_def split: option.splits)
  have upd: "wp (updateRecStatus (K8sClient S) (updStatus (\<lambda>s. s\<lparr>State := StateAwaitingApproval, Owner := owner,
      ApprovalToken := token, NotifiedAt := Some now, RevertConfig := Some (Current (Spec rec))\<rparr>) rec)) Q v"
    if "emitted ev hi (statusOnly ns n) w0 v" "rec \<in> hi v" "\<And>u w'. emitted ev hi (statusOnly ns n) w0 w' \<Longrightarrow> Q u w'" for Q v token now
    using that assms(3) by (intro store.updateRecStatus_emitted[where old = rec, OF that(1)]) auto
  show ?thesis
    unfolding awaitApproval_def wp_bind
    using assms(2)
    by (auto intro!: upd send time.GenerateToken_emitted[OF assms(1)] time.Now_emitted simp: internalError_def
        split: sum.splits) (simp | blast)+
qed

lemma applyWithoutOwner_status:
  assumes "emitted ev hi (statusOnly ns n) w0 w" and "rec \<in> hi w" and "recKey rec = (ns, n)"
  shows "wp (applyWithoutOwner L S req rec) (\<lambda>_. emitted ev hi (statusOnly ns n) w0) w"
  unfolding applyWithoutOwner_def wp_bind
  using assms(2,3)
  by (auto intro!: time.Now_emitted[OF assms(1)] statusWrite_emitted split: option.splits)

lemma resolveOwner_emitted:
  assumes "OwnerResolver S = Some c" and "emitted ev hi P w0 w"
    and "\<And>r w'. emitted ev hi P w0 w' \<Longrightarrow> hi w \<subseteq> hi w' \<Longrightarrow> Q r w'"
  shows "wp (ResolveOwner (Unstructured L) c n ns) Q w"
  by (rule emitted_quiet_wp[OF recommendation_store.ResolveOwner_quiet[OF resolver[OF assms(1)]] assms(2)]) (rule assms(3))

lemma handleApply_status:
  "wp (handleApply L S r) (\<lambda>_. emitted ev hi (statusOnly (PathNamespace r) (PathName r)) w) w"
proof -
  have "wp (applyPending L S r req rec) (\<lambda>_. emitted ev hi (statusOnly (PathNamespace r) (PathName r)) w) v"
    if "emitted ev hi (statusOnly (PathNamespace r) (PathName r)) w v" "rec \<in> hi v"
      "recKey rec = (PathNamespace r, PathName r)" for req rec v
    using that unfolding applyPending_def
    by (auto intro!: awaitApproval_status applyWithoutOwner_status resolveOwner_emitted split: option.splits bool.splits)
  then show ?thesis using emitted_refl[of ev hi "statusOnly (PathNamespace r) (PathName r)" w]
    by (auto simp: handleApply_def intro!: store.getRec_emitted split: option.splits)
qed

lemma handleRevert_status: "wp (handleRevert S r) (\<lambda>_. emitted ev hi (statusOnly (PathNamespace r) (PathName r)) w) w"
  using emitted_refl[of ev hi "statusOnly (PathNamespace r) (PathName r)" w]
  by (auto simp: handleRevert_def intro!: store.getRec_emitted statusWrite_emitted)

lemma patches_exclusion:
  "wp (handleExclude S r) (\<lambda>_. emitted ev hi (exclusionOnly (PathNamespace r) (PathName r)) w) w"
  "wp (handleRemoveExclusion S r) (\<lambda>_. emitted ev hi (exclusionOnly (PathNamespace r) (PathName r)) w) w"
  using emitted_refl[of ev hi "exclusionOnly (PathNamespace r) (PathName r)" w]
  by (auto simp: handleExclude_def handleRemoveExclusion_def internalError_def
      intro!: vm_api.dynPatch_emitted[OF dynamic] split: option.splits sum.splits)

lemma handleReject_status: "wp (handleReject L S r) (\<lambda>_. emitted ev hi (statusOnly (PathNamespace r) (PathName r)) w) w"
  using emitted_refl[of ev hi "statusOnly (PathNamespace r) (PathName r)" w]
  by (auto simp: handleReject_def intro!: store.getRec_emitted time.Now_emitted statusWrite_emitted
      split: option.splits) (simp | blast)+

lemma handleOwnerApprove_status:
  "wp (handleOwnerApprove L S r) (\<lambda>_. emitted ev hi (statusOnly (PathNamespace r) (PathName r)) w) w"
  using emitted_refl[of ev hi "statusOnly (PathNamespace r) (PathName r)" w]
  by (auto simp: handleOwnerApprove_def intro!: store.getRec_emitted time.Now_emitted statusWrite_emitted
      split: option.splits) (simp | blast)+

lemma rejection_stored:
  assumes "trace ev hi w0 es w" and "rec \<in> hi w" and "recState rec = StateAwaitingApproval"
    and "es = ClockRead now # ps"
    and "exclusion_tried S req rec ps"
  shows "wp (do { u \<leftarrow> updateRecStatus (K8sClient S) (updStatus (rejectedStatus owner now (RejReason req)) rec);
      case u of Inl err \<Rightarrow> internalError | Inr rec2 \<Rightarrow> writeJSON (RecJSON rec2) })
    (\<lambda>resp w'. \<exists>es. trace ev hi w0 es w' \<and> owner_rejection S owner req rec resp es w') w"
  unfolding wp_bind
proof (rule store.stores_wp[OF assms(1,2)], goal_cases)
  case (1 u upd w')
  have "\<exists>es. trace ev hi w0 es w' \<and> owner_rejection S owner req rec resp es w'"
    if "case u of Inl (err :: api_error) \<Rightarrow> resp = Response 500 (Text ''internal server error'') | Inr rec2 \<Rightarrow> resp = Response 200 (RecJSON rec2)" for resp
  proof -
    have "owner_rejection S owner req rec resp (es @ upd) w'" unfolding owner_rejection_def
      by (simp only: assms(3) simp_thms if_False, rule exI[of _ now], rule exI[of _ ps], rule exI[of _ upd], rule exI[of _ u])
         (use 1(2) assms(4,5) that in \<open>simp add: rejectedStatus_def\<close>)
    with 1(1) show ?thesis by blast
  qed
  then show ?case by (cases u) (simp_all add: internalError_def)
qed

lemma handleOwnerReject_outcome:
  assumes "decodeRejectRequest True (Body r) = Some req"
    and "run_state (getRec (K8sClient S) (PathNamespace r) (PathName r)) w = (Inr rec, w1)"
  shows "wp (handleOwnerReject L S r)
    (\<lambda>resp w'. \<exists>es. trace ev hi w es w' \<and> owner_rejection S (Header r ''X-Approval-Owner'') req rec resp es w') w"
    (is "wp _ ?Q w")
proof -
  have t: "trace ev hi w [] w1" using store.getRec_quiet assms(2) unfolding quiet_def by (metis snd_conv)
  have rec: "rec \<in> hi w1" using store.getRec_stored[OF assms(2)] by simp
  let ?upd = "\<lambda>now. do { u \<leftarrow> updateRecStatus (K8sClient S)
      (updStatus (rejectedStatus (Header r ''X-Approval-Owner'') now (RejReason req)) rec);
      case u of Inl err \<Rightarrow> internalError | Inr rec2 \<Rightarrow> writeJSON (RecJSON rec2) }"
  let ?patch = "(case DynamicClient S of
      Some d \<Rightarrow> if RejAction req = ''exclude'' then do { _ \<leftarrow> dynPatch d (RefNamespace (VirtualMachineRef (Spec rec)))
          (RefName (VirtualMachineRef (Spec rec))) (excludePatch (JStr ''true'')) []; ret () } else ret ()
    | None \<Rightarrow> ret ())"
  show ?thesis
  proof (cases "recState rec = StateAwaitingApproval")
    case False
    then show ?thesis using assms t by (auto simp: handleOwnerReject_def wp_def owner_rejection_def)
  next
    case True
    have "wp (do { now \<leftarrow> Now L; _ \<leftarrow> ?patch; ?upd now }) ?Q w1"
      unfolding wp_bind[of "Now L"]
    proof (rule time.Now_wp[OF t], goal_cases)
      case (1 now w2)
      have r2: "rec \<in> hi w2" using rec 1 by blast
      have t2: "trace ev hi w [ClockRead now] w2" using 1(1) by simp
      show ?case
      proof (cases "\<exists>d. DynamicClient S = Some d \<and> RejAction req = ''exclude''")
        case False
        then have "?patch = ret ()" by (auto split: option.splits)
        then show ?thesis using rejection_stored[OF t2 r2 True, of now "[]" req] False
          by (cases "DynamicClient S") (auto simp: exclusion_tried_def)
      next
        case ex: True
        then obtain d where d: "DynamicClient S = Some d" by blast
        have "wp (dynPatch d (RefNamespace (VirtualMachineRef (Spec rec))) (RefName (VirtualMachineRef (Spec rec)))
            (excludePatch (JStr ''true'')) []) (\<lambda>_. wp (?upd now) ?Q) w2"
        proof (rule vm_api.dynPatch_outcome_wp[OF dynamic[OF d] t2], goal_cases)
          case (1 r' pre w3)
          then show ?case using ex d r2
            by (intro rejection_stored[of _ _ _ _ _ pre, OF 1(1) _ True])
               (auto simp: exclusion_tried_def exclusionOf_def excludePatch_def AnnotationExclude_def split: if_splits)
        qed
        then show ?thesis using ex d by simp
      qed
    qed
    then show ?thesis using True
      unfolding handleOwnerReject_def assms(1) option.case wp_run_bind[OF assms(2)] sum.case by simp
  qed
qed

lemma handleOverview_emitted:
  assumes "\<And>t. P (ClockRead t)"
  shows "wp (handleOverview L S r) (\<lambda>_. emitted ev hi P w) w"
  unfolding handleOverview_def wp_bind
  by (rule emitted_quiet_wp[OF store.listRecs_quiet emitted_refl[where P = P]])
     (auto simp: internalError_def intro!: emitted_quiet_wp[OF filterByNamespaceAccess_quiet] time.Now_emitted assms
        split: sum.splits)

lemma readers_emitted:
  "wp (handleListRecommendations S r) (\<lambda>_. emitted ev hi P w) w" "wp (handleGetRecommendation S r) (\<lambda>_. emitted ev hi P w) w"
  "wp (handleListVMs L S r) (\<lambda>_. emitted ev hi P w) w" "wp (handleGetPolicy L S r) (\<lambda>_. emitted ev hi P w) w"
  by (rule emitted_quiet_wp[OF _ emitted_refl], rule readers_quiet, assumption)+

lemma handleUpdatePolicy_emitted: "wp (handleUpdatePolicy L S r) (\<lambda>_. emitted ev hi isPolicyUpdate w) w"
  using emitted_refl[of ev hi isPolicyUpdate w]
  by (auto simp: handleUpdatePolicy_def internalError_def intro!: store.updatePolicy_emitted
      emitted_quiet_wp[OF store.getPolicy_quiet] split: option.splits sum.splits)

end

text \<open>C10: an owner's rejection takes effect as asked, on the recommendation of the request. Only while that
  awaits approval: then its status goes back to pending with the owner, the time and the reason of the rejection, and owner,
  token and time of the request are cleared; the answer is the stored version, or an error where the API server refused it.
  Where the exclusion of the VM is asked for, the annotation is first put on the VM that this recommendation
  refers to and on no other, unless the API server refuses; a plain rejection touches no VM.\<close>

theorem owner_rejection_outcome:
  assumes "server_env L S ev hi" and "decodeRejectRequest True (Body r) = Some req"
    and "run_state (getRec (K8sClient S) (PathNamespace r) (PathName r)) w = (Inr rec, w1)"
    and "run_state (handleOwnerReject L S r) w = (resp, w')"
  shows "\<exists>es. trace ev hi w es w' \<and> owner_rejection S (Header r ''X-Approval-Owner'') req rec resp es w'"
  using wpD[OF server_env.handleOwnerReject_outcome[OF assms(1-3)] assms(4)] .

definition requestedSample :: "int RightsizingRecommendationStatus" where
  "requestedSample = emptyStatus\<lparr>State := StateAwaitingApproval, Owner := ''alice'', ApprovalToken := ''t'',
     NotifiedAt := Some 0, RevertConfig := Some (Current sampleSpec)\<rparr>"

abbreviation excludeBody :: json where
  "excludeBody \<equiv> JObj [(''reason'', JStr ''no''), (''action'', JStr ''exclude'')]"

theorem owner_rejection_outcome_witness:
  "\<exists>es resp w'. run_state (handleOwnerReject memLib (memServer False) (sampleRequest excludeBody)) (sampleWorld requestedSample) = (resp, w') \<and>
    trace wEvents memHist (sampleWorld requestedSample) es w' \<and> exclusionOf (sampleRec requestedSample) \<in> set es \<and>
    owner_rejection (memServer False) [] \<lparr>RejReason = ''no'', RejAction = ''exclude''\<rparr> (sampleRec requestedSample) resp es w'"
proof -
  have keys: "ToLower ''reason'' = ''reason''" "ToLower ''action'' = ''action''" by code_simp+
  have body: "decodeRejectRequest True (Body (sampleRequest excludeBody)) = Some \<lparr>RejReason = ''no'', RejAction = ''exclude''\<rparr>"
    by (simp add: sampleRequest_def decodeRejectRequest_def decodeObject_def setRejectRequest_def decodeString_def keys)
  have get: "run_state (getRec (K8sClient (memServer False)) (PathNamespace (sampleRequest excludeBody)) (PathName (sampleRequest excludeBody)))
      (sampleWorld requestedSample) = (Inr (sampleRec requestedSample), sampleWorld requestedSample)"
    by (simp add: sampleRequest_def mem_run)
  obtain resp w' where run: "run_state (handleOwnerReject memLib (memServer False) (sampleRequest excludeBody)) (sampleWorld requestedSample) = (resp, w')"
    and ev: "exclusionOf (sampleRec requestedSample) \<in> set (wEvents w')"
    by (simp add: handleOwnerReject_def body) (simp add: sampleRequest_def mem_run requestedSample_def sampleSpec_def exclusionOf_def
        excludePatch_def AnnotationExclude_def)
  have h: "Header (sampleRequest excludeBody) ''X-Approval-Owner'' = []" by (simp add: sampleRequest_def)
  from owner_rejection_outcome[OF mem.server_env_axioms body get run] obtain es where
    es: "trace wEvents memHist (sampleWorld requestedSample) es w'"
    "owner_rejection (memServer False) [] \<lparr>RejReason = ''no'', RejAction = ''exclude''\<rparr> (sampleRec requestedSample) resp es w'"
    unfolding h by blast
  have "wEvents (sampleWorld requestedSample) = []" by (simp add: sampleWorld_def emptyWorld_def)
  then show ?thesis using run ev es by (auto simp: trace_def)
qed

text \<open>C38: applying, approving or reverting through the API never touches a virtual machine. The
  only effects are status writes of the recommendation named by the path and notifications:
  resizing is left to the reconciler's auto-apply, and nothing restores the configuration that
  \<open>revertConfig\<close> keeps.\<close>

theorem api_leaves_vms_alone:
  assumes "server_env L S ev hi" and "h \<in> {handleApply L S r, handleOwnerApprove L S r, handleRevert S r}"
    and "run_state h w = (resp, w')"
  shows "\<exists>es. trace ev hi w es w' \<and> list_all (statusOnly (PathNamespace r) (PathName r)) es"
proof -
  have "wp h (\<lambda>_. emitted ev hi (statusOnly (PathNamespace r) (PathName r)) w) w"
    using assms(2) server_env.handleApply_status[OF assms(1)] server_env.handleOwnerApprove_status[OF assms(1)]
      server_env.handleRevert_status[OF assms(1)] by blast
  from wpD[OF this assms(3)] show ?thesis by (simp add: emitted_def)
qed

definition appliedSample :: "int RightsizingRecommendationStatus" where
  "appliedSample = emptyStatus\<lparr>State := StateApplied, AppliedAt := Some 0, RevertConfig := Some (Current sampleSpec)\<rparr>"

theorem api_leaves_vms_alone_witness:
  "\<exists>es w'. run_state (handleRevert (memServer False) (sampleRequest JNull)) (sampleWorld appliedSample) =
      (Response 200 (RecJSON (memRec (''prod'', ''vm-web'') 2 sampleSpec (appliedSample\<lparr>State := StateReverted\<rparr>))), w') \<and>
    trace wEvents memHist (sampleWorld appliedSample) es w' \<and> list_all (statusOnly ''prod'' ''vm-web'') es \<and> es \<noteq> []"
proof -
  obtain w' where run: "run_state (handleRevert (memServer False) (sampleRequest JNull)) (sampleWorld appliedSample) =
      (Response 200 (RecJSON (memRec (''prod'', ''vm-web'') 2 sampleSpec (appliedSample\<lparr>State := StateReverted\<rparr>))), w')"
    and ev: "wEvents w' \<noteq> []"
    by (simp add: handleRevert_def sampleRequest_def mem_run appliedSample_def serStatus_def emptyStatus_def truncSecond_def)
  obtain es where es: "trace wEvents memHist (sampleWorld appliedSample) es w'" "list_all (statusOnly ''prod'' ''vm-web'') es"
    using api_leaves_vms_alone[OF mem.server_env_axioms[of False] _ run, of "sampleRequest JNull"]
    by (auto simp: sampleRequest_def)
  then have "es \<noteq> []" using ev by (auto simp: trace_def sampleWorld_def emptyWorld_def)
  then show ?thesis using run es by blast
qed

end
