(* ===== verification/API_Middleware.thy ===== *)
theory API_Middleware
  imports API_Server
begin

text \<open>
  The way of a request through the API server: the routes (\<open>internal/apiserver/server.go\<close>) and
  the authentication and authorisation in front of the handlers
  (\<open>internal/apiserver/middleware.go\<close>).

  \<open>net/http\<close>'s \<open>ServeMux\<close> matches the escaped path segment by segment: it unescapes each segment
  and compares it with the pattern, so a path value may hold any byte. The middleware reads the
  namespace off the unescaped path instead. The two agree on every namespace without a slash.
\<close>

section \<open>Middleware\<close>

definition extractBearerToken :: "Request \<Rightarrow> string" where
  "extractBearerToken r = (let auth = Header r ''Authorization'' in
     if auth = [] then []
     else (case SplitN2 CHR '' '' auth of
         [scheme, token] \<Rightarrow> if ToLower scheme \<noteq> ''bearer'' then [] else token
       | _ \<Rightarrow> []))"

definition httpMethodToVerb :: "string \<Rightarrow> string" where
  "httpMethodToVerb m =
    (if m = ''GET'' then ''get'' else if m = ''POST'' then ''update'' else if m = ''PUT'' then ''update''
     else if m = ''DELETE'' then ''delete'' else ''get'')"

definition extractNamespaceFromPath :: "string \<Rightarrow> string" where
  "extractNamespaceFromPath path = (let parts = Split CHR ''/'' (TrimPrefix path ''/'') in
     if 5 \<le> length parts \<and> (parts ! 2 = ''recommendations'' \<or> parts ! 2 = ''vms'') then parts ! 3 else [])"

definition resourceFromPath :: "string \<Rightarrow> string" where
  "resourceFromPath path = (let parts = Split CHR ''/'' (TrimPrefix path ''/'') in
     if 3 \<le> length parts \<and> parts ! 2 = ''policy'' then ''rightsizingpolicies''
     else if 3 \<le> length parts \<and> parts ! 2 = ''vms'' then ''virtualmachines''
     else ''rightsizingrecommendations'')"

abbreviation URLPath :: "Request \<Rightarrow> string" where
  "URLPath r \<equiv> PathUnescape (EscapedPath r)"

definition AuthMiddleware :: "'w clientset option \<Rightarrow> (Request \<Rightarrow> ('w, 'q Response) state) \<Rightarrow> Request \<Rightarrow>
    ('w, 'q Response) state" where
  "AuthMiddleware clientset next' r =
    (let token = extractBearerToken r in
     if token = [] then httpError 401 ''unauthorized''
     else (case clientset of
         None \<Rightarrow> httpError 500 ''internal server error''
       | Some K \<Rightarrow> do {
           tr \<leftarrow> tokenReview K token;
           case tr of
             Inl err \<Rightarrow> httpError 401 ''unauthorized''
           | Inr (authenticated, user) \<Rightarrow>
               if \<not> authenticated then httpError 401 ''unauthorized''
               else do {
                 result \<leftarrow> subjectAccessReview K (sarSpec user (httpMethodToVerb (Method r))
                   (resourceFromPath (URLPath r)) (extractNamespaceFromPath (URLPath r)));
                 case result of
                   Inl err \<Rightarrow> httpError 403 ''forbidden''
                 | Inr permitted \<Rightarrow>
                     if \<not> permitted then httpError 403 ''forbidden''
                     else next' (r\<lparr>ContextUser := Some user\<rparr>)
               }
         }))"

section \<open>Routes\<close>

datatype segment = Lit string | Wild

record 'h route =
  RouteMethod :: string
  Pattern :: "segment list"
  RouteHandler :: 'h

type_synonym ('w, 'q) api_route = "(Request \<Rightarrow> ('w, 'q Response) state) route"

text \<open>The two wildcards of a pattern are \<open>{namespace}\<close> and \<open>{name}\<close>, in this order.\<close>

abbreviation named :: "string list \<Rightarrow> string list \<Rightarrow> segment list" where
  "named pre post \<equiv> map Lit pre @ [Wild, Wild] @ map Lit post"

definition apiRoute :: "('w, 'o, 'q) Server \<Rightarrow> string \<Rightarrow> segment list \<Rightarrow>
    (Request \<Rightarrow> ('w, 'q Response) state) \<Rightarrow> ('w, 'q) api_route" where
  "apiRoute S m p h = \<lparr>RouteMethod = m, Pattern = p, RouteHandler = AuthMiddleware (Clientset S) h\<rparr>"

definition internalRoute :: "string \<Rightarrow> segment list \<Rightarrow> (Request \<Rightarrow> ('w, 'q Response) state) \<Rightarrow> ('w, 'q) api_route" where
  "internalRoute m p h = \<lparr>RouteMethod = m, Pattern = p, RouteHandler = h\<rparr>"

definition authRoutes :: "('w, 'o, 'q) lib \<Rightarrow> ('w, 'o, 'q) Server \<Rightarrow> ('w, 'q) api_route list" where
  "authRoutes L S = [
     apiRoute S ''GET'' (map Lit [''api'', ''v1'', ''recommendations'']) (handleListRecommendations S),
     apiRoute S ''GET'' (named [''api'', ''v1'', ''recommendations''] []) (handleGetRecommendation S),
     apiRoute S ''POST'' (named [''api'', ''v1'', ''recommendations''] [''apply'']) (handleApply L S),
     apiRoute S ''POST'' (named [''api'', ''v1'', ''recommendations''] [''revert'']) (handleRevert S),
     apiRoute S ''GET'' (map Lit [''api'', ''v1'', ''vms'']) (handleListVMs L S),
     apiRoute S ''POST'' (named [''api'', ''v1'', ''vms''] [''exclude'']) (handleExclude S),
     apiRoute S ''DELETE'' (named [''api'', ''v1'', ''vms''] [''exclude'']) (handleRemoveExclusion S),
     apiRoute S ''GET'' (map Lit [''api'', ''v1'', ''overview'']) (handleOverview L S),
     apiRoute S ''GET'' (map Lit [''api'', ''v1'', ''policy'']) (handleGetPolicy L S),
     apiRoute S ''PUT'' (map Lit [''api'', ''v1'', ''policy'']) (handleUpdatePolicy L S),
     apiRoute S ''POST'' (named [''api'', ''v1'', ''recommendations''] [''reject'']) (handleReject L S)]"

definition internalRoutes :: "('w, 'o, 'q) lib \<Rightarrow> ('w, 'o, 'q) Server \<Rightarrow> ('w, 'q) api_route list" where
  "internalRoutes L S = [
     internalRoute ''GET'' (named [''api'', ''v1'', ''internal'', ''recommendations''] []) (handleGetRecommendation S),
     internalRoute ''POST'' (named [''api'', ''v1'', ''internal'', ''recommendations''] [''owner-approve'']) (handleOwnerApprove L S),
     internalRoute ''POST'' (named [''api'', ''v1'', ''internal'', ''recommendations''] [''owner-reject'']) (handleOwnerReject L S)]"

definition registerRoutes :: "('w, 'o, 'q) lib \<Rightarrow> ('w, 'o, 'q) Server \<Rightarrow> ('w, 'q) api_route list" where
  "registerRoutes L S = authRoutes L S @ internalRoutes L S"

text \<open>Matching a pattern against the segments of a path: the values of the wildcards. A wildcard
  matches no empty segment, and no single slash, which stands for a trailing one.\<close>

fun matchPath :: "segment list \<Rightarrow> string list \<Rightarrow> string list option" where
  "matchPath [] [] = Some []"
| "matchPath (Lit l # ps) (s # ss) = (if PathUnescape s = l then matchPath ps ss else None)"
| "matchPath (Wild # ps) (s # ss) = (if s = [] \<or> PathUnescape s = ''/'' then None
    else map_option (Cons (PathUnescape s)) (matchPath ps ss))"
| "matchPath _ _ = None"

definition pathSegments :: "Request \<Rightarrow> string list" where
  "pathSegments r = Split CHR ''/'' (TrimPrefix (EscapedPath r) ''/'')"

text \<open>\<open>cleanPath\<close> changes a path that does not start with a slash, has an empty segment before the
  last one, or a segment \<open>.\<close> or \<open>..\<close>; such a path is redirected to its clean form.\<close>

definition cleanPath :: "Request \<Rightarrow> bool" where
  "cleanPath r \<longleftrightarrow> HasPrefix (EscapedPath r) ''/'' \<and>
     list_all (\<lambda>s. s \<noteq> [] \<and> s \<noteq> ''.'' \<and> s \<noteq> ''..'') (butlast (pathSegments r)) \<and>
     last (pathSegments r) \<noteq> ''.'' \<and> last (pathSegments r) \<noteq> ''..''"

definition methodMatches :: "string \<Rightarrow> string \<Rightarrow> bool" where
  "methodMatches m pat \<longleftrightarrow> m = pat \<or> m = ''HEAD'' \<and> pat = ''GET''"

fun findHandler :: "'h route list \<Rightarrow> Request \<Rightarrow> ('h route \<times> string list) option" where
  "findHandler [] r = None"
| "findHandler (rt # rts) r =
    (case (if methodMatches (Method r) (RouteMethod rt) then matchPath (Pattern rt) (pathSegments r) else None) of
       Some vs \<Rightarrow> Some (rt, vs)
     | None \<Rightarrow> findHandler rts r)"

definition withPathValues :: "string list \<Rightarrow> Request \<Rightarrow> Request" where
  "withPathValues vs r = (case vs of
      [ns, n] \<Rightarrow> r\<lparr>PathNamespace := ns, PathName := n\<rparr>
    | _ \<Rightarrow> r\<lparr>PathNamespace := [], PathName := []\<rparr>)"

definition ServeHTTP :: "('w, 'o, 'q) lib \<Rightarrow> ('w, 'o, 'q) Server \<Rightarrow> Request \<Rightarrow> ('w, 'q Response) state" where
  "ServeHTTP L S r =
    (if Method r \<noteq> ''CONNECT'' \<and> \<not> cleanPath r then httpError 301 ''Moved Permanently''
     else (case findHandler (registerRoutes L S) r of
         Some (rt, vs) \<Rightarrow> RouteHandler rt (withPathValues vs r)
       | None \<Rightarrow>
           if list_ex (\<lambda>rt. matchPath (Pattern rt) (pathSegments r) \<noteq> None) (registerRoutes L S)
           then httpError 405 ''Method Not Allowed''
           else httpError 404 ''404 page not found''))"

section \<open>Paths\<close>

lemma Split_cases:
  assumes "Split c s = p # q # ps"
  obtains t where "s = p @ c # t" "c \<notin> set p" "Split c t = q # ps"
proof -
  have "\<exists>t. s = p @ c # t \<and> c \<notin> set p \<and> Split c t = q # ps" using assms
  proof (induction s arbitrary: p)
    case (Cons x s)
    show ?case
    proof (cases "x = c")
      case True
      then show ?thesis using Cons.prems by auto
    next
      case False
      obtain p' ps' where sp: "Split c s = p' # ps'" by (cases "Split c s") auto
      with False Cons.prems have p: "p = x # p'" "ps' = q # ps" by auto
      show ?thesis using Cons.IH[of p'] sp p False by fastforce
    qed
  qed simp
  then show ?thesis using that by blast
qed

lemma Split_single: "Split c s = [p] \<Longrightarrow> s = p \<and> c \<notin> set p"
proof (induction s arbitrary: p)
  case (Cons x s)
  then show ?case by (cases "Split c s") (auto split: if_splits)
qed simp

text \<open>The parts of the unescaped path, as the middleware sees them, start with the unescaped
  segments as long as these hold no slash.\<close>

lemma Split_unescape:
  assumes "Split (CHR ''/'') s = p # q # ps" and "CHR ''/'' \<notin> set (PathUnescape p)"
  obtains t where "Split (CHR ''/'') t = q # ps"
    "Split (CHR ''/'') (PathUnescape s) = PathUnescape p # Split (CHR ''/'') (PathUnescape t)"
proof -
  obtain t where t: "s = p @ CHR ''/'' # t" "Split (CHR ''/'') t = q # ps" using Split_cases[OF assms(1)] by metis
  then have "Split (CHR ''/'') (PathUnescape s) = PathUnescape p # Split (CHR ''/'') (PathUnescape t)"
    using Split_append[OF assms(2)] by (simp add: PathUnescape_slash)
  then show ?thesis using that t(2) by blast
qed

lemma matchPath_length: "matchPath ps ss = Some vs \<Longrightarrow> length ss = length ps"
  by (induction ps ss arbitrary: vs rule: matchPath.induct) (auto split: if_splits)

lemma pathSegments_clean:
  assumes "cleanPath r" obtains s where "EscapedPath r = CHR ''/'' # s" "pathSegments r = Split (CHR ''/'') s"
  using assms by (auto simp: cleanPath_def pathSegments_def HasPrefix_iff TrimPrefix_def)

abbreviation plain :: "string \<Rightarrow> bool" where
  "plain s \<equiv> CHR ''/'' \<notin> set s"

abbreviation urlParts :: "Request \<Rightarrow> string list" where
  "urlParts r \<equiv> Split (CHR ''/'') (TrimPrefix (URLPath r) ''/'')"

lemma matchPath_Lit: "matchPath (Lit l # ps) ss = Some vs \<longleftrightarrow>
    (\<exists>s ss'. ss = s # ss' \<and> PathUnescape s = l \<and> matchPath ps ss' = Some vs)"
  by (cases ss) (auto split: if_splits)

lemma matchPath_Wild: "matchPath (Wild # ps) ss = Some vs \<longleftrightarrow>
    (\<exists>s ss' vs'. ss = s # ss' \<and> s \<noteq> [] \<and> PathUnescape s \<noteq> ''/'' \<and> matchPath ps ss' = Some vs' \<and> vs = PathUnescape s # vs')"
  by (cases ss) (auto split: if_splits)

lemma matchPath_Nil: "matchPath [] ss = Some vs \<longleftrightarrow> ss = [] \<and> vs = []"
  by (cases ss) auto

lemma matchPath_map_Lit: "matchPath (map Lit ls) ss = Some vs \<longleftrightarrow> map PathUnescape ss = ls \<and> vs = []"
  by (induction ls arbitrary: ss) (auto simp: matchPath_Lit matchPath_Nil Cons_eq_map_conv)

text \<open>A path of three literals.\<close>

lemma literal_path:
  assumes "cleanPath r" and "matchPath (map Lit [a, b, c]) (pathSegments r) = Some vs"
    and "plain a" "plain b" "plain c"
  shows "vs = [] \<and> urlParts r = [a, b, c]"
proof -
  obtain s where s: "EscapedPath r = CHR ''/'' # s" "pathSegments r = Split (CHR ''/'') s"
    using pathSegments_clean[OF assms(1)] .
  obtain x y z where seg: "Split (CHR ''/'') s = [x, y, z]" "PathUnescape x = a" "PathUnescape y = b" "PathUnescape z = c"
    using assms(2) unfolding s(2) by (auto simp del: list.map simp: matchPath_map_Lit map_eq_Cons_conv)
  obtain t where t: "Split (CHR ''/'') t = [y, z]"
      "Split (CHR ''/'') (PathUnescape s) = a # Split (CHR ''/'') (PathUnescape t)"
    using Split_unescape[OF seg(1)] seg(2) assms(3) by metis
  obtain u where u: "Split (CHR ''/'') u = [z]"
      "Split (CHR ''/'') (PathUnescape t) = b # Split (CHR ''/'') (PathUnescape u)"
    using Split_unescape[OF t(1)] seg(3) assms(4) by metis
  have "u = z" using Split_single[OF u(1)] by simp
  then have "Split (CHR ''/'') (PathUnescape s) = [a, b, c]"
    using t(2) u(2) seg(4) Split_no_sep[OF assms(5)] by simp
  moreover have "vs = []" using assms(2) by (simp only: matchPath_map_Lit)
  ultimately show ?thesis using s(1) by (simp add: TrimPrefix_def)
qed

text \<open>A path of three literals and the two wildcards.\<close>

lemma named_path:
  assumes "cleanPath r" and "matchPath (named [a, b, c] post) (pathSegments r) = Some vs"
    and "plain a" "plain b" "plain c"
  obtains ns n rest where "vs = [ns, n]" "urlParts r = a # b # c # rest"
    "plain ns \<Longrightarrow> \<exists>m ms. rest = ns # m # ms"
proof -
  obtain s where s: "EscapedPath r = CHR ''/'' # s" "pathSegments r = Split (CHR ''/'') s"
    using pathSegments_clean[OF assms(1)] .
  obtain x y z i j ss where seg: "Split (CHR ''/'') s = x # y # z # i # j # ss" "PathUnescape x = a" "PathUnescape y = b"
      "PathUnescape z = c" and vs: "vs = [PathUnescape i, PathUnescape j]"
    using assms(2) unfolding s(2) by (auto simp: matchPath_Lit matchPath_Wild matchPath_map_Lit)
  obtain t where t: "Split (CHR ''/'') t = y # z # i # j # ss"
      "Split (CHR ''/'') (PathUnescape s) = a # Split (CHR ''/'') (PathUnescape t)"
    using Split_unescape[OF seg(1)] seg(2) assms(3) by metis
  obtain u where u: "Split (CHR ''/'') u = z # i # j # ss"
      "Split (CHR ''/'') (PathUnescape t) = b # Split (CHR ''/'') (PathUnescape u)"
    using Split_unescape[OF t(1)] seg(3) assms(4) by metis
  obtain v where v: "Split (CHR ''/'') v = i # j # ss"
      "Split (CHR ''/'') (PathUnescape u) = c # Split (CHR ''/'') (PathUnescape v)"
    using Split_unescape[OF u(1)] seg(4) assms(5) by metis
  have "\<exists>m ms. Split (CHR ''/'') (PathUnescape v) = PathUnescape i # m # ms" if "plain (PathUnescape i)"
    using Split_unescape[OF v(1) that] by (metis Split_not_Nil neq_Nil_conv)
  moreover have "urlParts r = a # b # c # Split (CHR ''/'') (PathUnescape v)"
    using s(1) t(2) u(2) v(2) by (simp add: TrimPrefix_def)
  ultimately show ?thesis using that[OF vs] by simp
qed

section \<open>Authorisation\<close>

text \<open>The reviews that admit a request: its token belongs to \<open>u\<close>, who may do what the method and
  the path ask for.\<close>

definition authorised :: "('w, 'o, 'q) Server \<Rightarrow> Request \<Rightarrow> 'w \<Rightarrow> UserInfo \<Rightarrow> bool" where
  "authorised S r w u \<longleftrightarrow> (\<exists>K w1 w2. Clientset S = Some K \<and> extractBearerToken r \<noteq> [] \<and>
     run_state (tokenReview K (extractBearerToken r)) w = (Inr (True, u), w1) \<and>
     run_state (subjectAccessReview K (sarSpec u (httpMethodToVerb (Method r)) (resourceFromPath (URLPath r))
       (extractNamespaceFromPath (URLPath r)))) w1 = (Inr True, w2))"

text \<open>What a write needs to be authorised for: the resource and the namespace.\<close>

fun needs :: "'q event \<Rightarrow> (string \<times> string) option" where
  "needs (RecCreated new) = Some (''rightsizingrecommendations'', Namespace new)"
| "needs (RecUpdated old new) = Some (''rightsizingrecommendations'', Namespace old)"
| "needs (RecStatusUpdated old new) = Some (''rightsizingrecommendations'', Namespace old)"
| "needs (RecDeleted old) = Some (''rightsizingrecommendations'', Namespace old)"
| "needs (PolicyUpdated p) = Some (''rightsizingpolicies'', [])"
| "needs (VMPatched ns n patch subs) = Some (''virtualmachines'', ns)"
| "needs (NotificationSent f m) = None"
| "needs (ClockRead t) = None"

definition covered :: "Request \<Rightarrow> 'q event \<Rightarrow> bool" where
  "covered r e = (case needs e of
      None \<Rightarrow> True
    | Some (res, ns) \<Rightarrow> res = resourceFromPath (URLPath r) \<and> (plain ns \<longrightarrow> ns = extractNamespaceFromPath (URLPath r)) \<and>
        httpMethodToVerb (Method r) \<in> {''update'', ''delete''})"

definition refusal :: "'q Response \<Rightarrow> bool" where
  "refusal resp \<longleftrightarrow> (\<exists>c msg. resp = Response c (Text msg) \<and> c \<in> {301, 401, 403, 404, 405, 500})"

context server_env
begin

lemma AuthMiddleware_wp:
  assumes "\<And>u w2. authorised S r w u \<Longrightarrow> trace ev hi w [] w2 \<Longrightarrow> wp (h (r\<lparr>ContextUser := Some u\<rparr>)) Q w2"
    and "\<And>resp w2. refusal resp \<Longrightarrow> trace ev hi w [] w2 \<Longrightarrow> Q resp w2"
  shows "wp (AuthMiddleware (Clientset S) h r) Q w"
proof (cases "extractBearerToken r = [] \<or> Clientset S = None")
  case True
  then show ?thesis using assms(2) by (auto simp: AuthMiddleware_def Let_def refusal_def split: option.splits)
next
  case False
  then obtain K where K: "Clientset S = Some K" and tok: "extractBearerToken r \<noteq> []" by auto
  let ?sar = "\<lambda>u. subjectAccessReview K (sarSpec u (httpMethodToVerb (Method r)) (resourceFromPath (URLPath r))
       (extractNamespaceFromPath (URLPath r)))"
  obtain tr w1 where tr: "run_state (tokenReview K (extractBearerToken r)) w = (tr, w1)" by fastforce
  have t1: "trace ev hi w [] w1"
    using reviews.tokenReview_quiet[OF clientset[OF K]] tr unfolding quiet_def by (metis snd_conv)
  show ?thesis
  proof (cases "\<exists>u. tr = Inr (True, u)")
    case True
    then obtain u where u: "tr = Inr (True, u)" by blast
    obtain a w2 where a: "run_state (?sar u) w1 = (a, w2)" by fastforce
    have t2: "trace ev hi w [] w2"
      using reviews.subjectAccessReview_quiet[OF clientset[OF K]] a trace_trans[OF t1, of "[]" w2]
      unfolding quiet_def by (metis snd_conv append_Nil2)
    have "authorised S r w u" if "a = Inr True" using that K tok tr u a unfolding authorised_def by blast
    then have "wp (case a of Inl err \<Rightarrow> httpError 403 ''forbidden''
        | Inr permitted \<Rightarrow> if \<not> permitted then httpError 403 ''forbidden'' else h (r\<lparr>ContextUser := Some u\<rparr>)) Q w2"
      using assms t2 by (auto simp: refusal_def split: sum.splits)
    then show ?thesis using K tok tr u a by (simp add: AuthMiddleware_def wp_def Let_def)
  next
    case False
    then show ?thesis using K tok tr t1 assms(2)
      by (auto simp: AuthMiddleware_def wp_def Let_def refusal_def split: sum.splits)
  qed
qed

end

section \<open>Every route\<close>

lemma withPathValues_simps [simp]:
  "Method (withPathValues vs r) = Method r" "EscapedPath (withPathValues vs r) = EscapedPath r"
  "Header (withPathValues vs r) = Header r" "Body (withPathValues vs r) = Body r"
  by (auto simp: withPathValues_def split: list.splits)

lemma withPathValues_two [simp]: "withPathValues [ns, n] r = r\<lparr>PathNamespace := ns, PathName := n\<rparr>"
  by (simp add: withPathValues_def)

lemma authorised_path [simp]: "authorised S (withPathValues vs r) w u = authorised S r w u"
  by (simp add: authorised_def extractBearerToken_def)

lemma covered_read [simp]: "needs e = None \<Longrightarrow> covered r e"
  by (simp add: covered_def)

text \<open>What an event needs is covered by the review of a request with that path.\<close>

lemma named_review:
  assumes "cleanPath r" and "matchPath (named [''api'', ''v1'', k] post) (pathSegments r) = Some vs"
    and "k = ''recommendations'' \<or> k = ''vms''"
  obtains ns n where "vs = [ns, n]" "plain ns \<Longrightarrow> extractNamespaceFromPath (URLPath r) = ns"
    "resourceFromPath (URLPath r) = (if k = ''vms'' then ''virtualmachines'' else ''rightsizingrecommendations'')"
proof -
  have pl: "plain ''api''" "plain ''v1''" "plain k" using assms(3) by auto
  obtain ns n rest where p: "vs = [ns, n]" "urlParts r = ''api'' # ''v1'' # k # rest"
      "plain ns \<Longrightarrow> \<exists>m ms. rest = ns # m # ms"
    by (rule named_path[OF assms(1,2) pl], rule that)
  have "extractNamespaceFromPath (URLPath r) = ns" if "plain ns"
    using p(2) p(3)[OF that] assms(3) by (auto simp: extractNamespaceFromPath_def Let_def)
  moreover have "resourceFromPath (URLPath r) = (if k = ''vms'' then ''virtualmachines'' else ''rightsizingrecommendations'')"
    using p(2) assms(3) by (auto simp: resourceFromPath_def Let_def)
  ultimately show ?thesis using that p(1) by blast
qed

lemma verb_writes: "methodMatches m pat \<Longrightarrow> pat \<in> {''POST'', ''PUT'', ''DELETE''} \<Longrightarrow>
    httpMethodToVerb m \<in> {''update'', ''delete''}"
  by (auto simp: methodMatches_def httpMethodToVerb_def)

lemma covered_status:
  assumes "cleanPath r" and "matchPath (named [''api'', ''v1'', ''recommendations''] post) (pathSegments r) = Some vs"
    and "methodMatches (Method r) ''POST''"
  obtains ns n where "vs = [ns, n]" "\<And>e. statusOnly ns n e \<Longrightarrow> covered r e"
proof -
  have k: "''recommendations'' = ''recommendations'' \<or> ''recommendations'' = ''vms''" by simp
  obtain ns n where p: "vs = [ns, n]" "plain ns \<Longrightarrow> extractNamespaceFromPath (URLPath r) = ns"
    "resourceFromPath (URLPath r) = (if ''recommendations'' = ''vms'' then ''virtualmachines'' else ''rightsizingrecommendations'')"
    using named_review[OF assms(1,2) k] by blast
  have "covered r e" if "statusOnly ns n e" for e
    using that p(2,3) verb_writes[OF assms(3)] by (cases e) (simp_all add: covered_def)
  with p(1) show ?thesis using that by blast
qed

lemma covered_exclusion:
  assumes "cleanPath r" and "matchPath (named [''api'', ''v1'', ''vms''] post) (pathSegments r) = Some vs"
    and "methodMatches (Method r) m" and "m = ''POST'' \<or> m = ''DELETE''"
  obtains ns n where "vs = [ns, n]" "\<And>e. exclusionOnly ns n e \<Longrightarrow> covered r e"
proof -
  have k: "''vms'' = ''recommendations'' \<or> ''vms'' = ''vms''" by simp
  obtain ns n where p: "vs = [ns, n]" "plain ns \<Longrightarrow> extractNamespaceFromPath (URLPath r) = ns"
    "resourceFromPath (URLPath r) = (if ''vms'' = ''vms'' then ''virtualmachines'' else ''rightsizingrecommendations'')"
    using named_review[OF assms(1,2) k] by blast
  have "httpMethodToVerb (Method r) \<in> {''update'', ''delete''}" using verb_writes[OF assms(3)] assms(4) by blast
  then have "covered r e" if "exclusionOnly ns n e" for e
    using that p(2,3) by (cases e) (simp_all add: covered_def)
  with p(1) show ?thesis using that by blast
qed

lemma covered_policy:
  assumes "cleanPath r" and "matchPath (map Lit [''api'', ''v1'', ''policy'']) (pathSegments r) = Some vs"
    and "methodMatches (Method r) ''PUT''" and "isPolicyUpdate e"
  shows "covered r e"
proof -
  have "plain ''api''" "plain ''v1''" "plain ''policy''" by simp_all
  then have "urlParts r = [''api'', ''v1'', ''policy'']" using literal_path[OF assms(1,2)] by blast
  then have "resourceFromPath (URLPath r) = ''rightsizingpolicies''" "extractNamespaceFromPath (URLPath r) = []"
    by (simp_all add: resourceFromPath_def extractNamespaceFromPath_def Let_def)
  then show ?thesis using verb_writes[OF assms(3)] assms(4) by (cases e) (simp_all add: covered_def)
qed

definition guarded :: "('w, 'o, 'q) Server \<Rightarrow> ('w \<Rightarrow> 'q event list) \<Rightarrow> ('w \<Rightarrow> 'q recommendation set) \<Rightarrow>
    ('w, 'q) api_route \<Rightarrow> bool" where
  "guarded S ev hi rt \<longleftrightarrow> (\<forall>r vs w. cleanPath r \<longrightarrow> methodMatches (Method r) (RouteMethod rt) \<longrightarrow>
     matchPath (Pattern rt) (pathSegments r) = Some vs \<longrightarrow>
     wp (RouteHandler rt (withPathValues vs r)) (\<lambda>resp w'.
       (\<exists>u. authorised S r w u) \<and> emitted ev hi (covered r) w w' \<or> refusal resp \<and> trace ev hi w [] w') w)"

lemma emitted_mono: "emitted ev hi P w w' \<Longrightarrow> (\<And>e. P e \<Longrightarrow> P' e) \<Longrightarrow> emitted ev hi P' w w'"
  unfolding emitted_def by (metis list.pred_mono_strong)

lemma emitted_after: "trace ev hi w [] v \<Longrightarrow> emitted ev hi P v w' \<Longrightarrow> emitted ev hi P w w'"
  unfolding emitted_def by (metis trace_trans append_Nil)

text \<open>The writes of the API server, by kind: statuses, annotations of VMs and the policy.\<close>

fun apiWrite :: "'q event \<Rightarrow> bool" where
  "apiWrite (RecCreated new) = False"
| "apiWrite (RecUpdated old new) = False"
| "apiWrite (RecDeleted old) = False"
| "apiWrite (VMPatched ns n patch subs) = (subs = [] \<and> (patch = excludePatch (JStr ''true'') \<or> patch = excludePatch JNull))"
| "apiWrite e = True"

lemma statusOnly_write: "statusOnly ns n e \<Longrightarrow> apiWrite e"
  by (cases e) auto

lemma exclusionOnly_write: "exclusionOnly ns n e \<Longrightarrow> apiWrite e"
  by (cases e) auto

lemma policyUpdate_write: "isPolicyUpdate e \<Longrightarrow> apiWrite e"
  by (cases e) auto

context server_env
begin

lemma guardedI:
  assumes "\<And>r vs u v. cleanPath r \<Longrightarrow> methodMatches (Method r) m \<Longrightarrow> matchPath p (pathSegments r) = Some vs \<Longrightarrow>
    wp (h ((withPathValues vs r)\<lparr>ContextUser := Some u\<rparr>)) (\<lambda>_ w'. emitted ev hi (covered r) v w') v"
  shows "guarded S ev hi (apiRoute S m p h)"
  unfolding guarded_def apiRoute_def route.simps
proof (intro allI impI, rule AuthMiddleware_wp)
  fix r vs w u v
  assume "cleanPath r" "methodMatches (Method r) m" "matchPath p (pathSegments r) = Some vs"
    "authorised S (withPathValues vs r) w u" "trace ev hi w [] v"
  then show "wp (h ((withPathValues vs r)\<lparr>ContextUser := Some u\<rparr>)) (\<lambda>resp w'.
       (\<exists>u. authorised S r w u) \<and> emitted ev hi (covered r) w w' \<or> refusal resp \<and> trace ev hi w [] w') v"
    using assms by (intro wp_conseq[OF assms]) (auto intro: emitted_after)
qed auto

lemma guarded_status:
  assumes "\<And>r w. wp (h r) (\<lambda>_. emitted ev hi (statusOnly (PathNamespace r) (PathName r)) w) w"
  shows "guarded S ev hi (apiRoute S ''POST'' (named [''api'', ''v1'', ''recommendations''] post) h)"
proof (rule guardedI)
  fix r vs u v
  assume *: "cleanPath r" "methodMatches (Method r) ''POST''"
    "matchPath (named [''api'', ''v1'', ''recommendations''] post) (pathSegments r) = Some vs"
  obtain ns n where p: "vs = [ns, n]" "\<And>e :: 'q event. statusOnly ns n e \<Longrightarrow> covered r e"
    using covered_status[OF *(1,3,2)] by blast
  show "wp (h ((withPathValues vs r)\<lparr>ContextUser := Some u\<rparr>)) (\<lambda>_ w'. emitted ev hi (covered r) v w') v"
    by (rule wp_conseq[OF assms], simp add: p(1)) (erule emitted_mono, erule p(2))
qed

lemma guarded_exclusion:
  assumes "\<And>r w. wp (h r) (\<lambda>_. emitted ev hi (exclusionOnly (PathNamespace r) (PathName r)) w) w"
    and "m = ''POST'' \<or> m = ''DELETE''"
  shows "guarded S ev hi (apiRoute S m (named [''api'', ''v1'', ''vms''] post) h)"
proof (rule guardedI)
  fix r vs u v
  assume *: "cleanPath r" "methodMatches (Method r) m"
    "matchPath (named [''api'', ''v1'', ''vms''] post) (pathSegments r) = Some vs"
  obtain ns n where p: "vs = [ns, n]" "\<And>e :: 'q event. exclusionOnly ns n e \<Longrightarrow> covered r e"
    using covered_exclusion[OF *(1,3,2) assms(2)] by blast
  show "wp (h ((withPathValues vs r)\<lparr>ContextUser := Some u\<rparr>)) (\<lambda>_ w'. emitted ev hi (covered r) v w') v"
    by (rule wp_conseq[OF assms(1)], simp add: p(1)) (erule emitted_mono, erule p(2))
qed

lemma guarded_read:
  assumes "\<And>r w P. (\<And>t. P (ClockRead t)) \<Longrightarrow> wp (h r) (\<lambda>_. emitted ev hi P w) w"
  shows "guarded S ev hi (apiRoute S m p h)"
  by (rule guardedI, rule assms) simp

lemma guarded_policy: "guarded S ev hi (apiRoute S ''PUT'' (map Lit [''api'', ''v1'', ''policy'']) (handleUpdatePolicy L S))"
  by (rule guardedI, rule wp_conseq[OF handleUpdatePolicy_emitted]) (blast intro: emitted_mono covered_policy)

lemma authRoutes_guarded: "list_all (guarded S ev hi) (authRoutes L S)"
  unfolding authRoutes_def list.pred_inject
  by (intro conjI TrueI guarded_status guarded_exclusion guarded_read guarded_policy handleApply_status
      handleRevert_status handleReject_status patches_exclusion readers_emitted handleOverview_emitted) simp_all

end

lemma findHandler_Some:
  "findHandler rts r = Some (rt, vs) \<Longrightarrow>
    rt \<in> set rts \<and> methodMatches (Method r) (RouteMethod rt) \<and> matchPath (Pattern rt) (pathSegments r) = Some vs"
  by (induction rts) (auto split: option.splits if_splits)

lemma findHandler_append:
  "findHandler (xs @ ys) r = (case findHandler xs r of Some x \<Rightarrow> Some x | None \<Rightarrow> findHandler ys r)"
  by (induction xs) (auto split: option.splits)

text \<open>At most one route fits a request, so that searching the table in order finds the route that
  \<open>ServeMux\<close> picks by its rules of precedence.\<close>

fun disjointPatterns :: "segment list \<Rightarrow> segment list \<Rightarrow> bool" where
  "disjointPatterns [] [] = False"
| "disjointPatterns (Lit a # ps) (Lit b # qs) = (a \<noteq> b \<or> disjointPatterns ps qs)"
| "disjointPatterns (p # ps) (q # qs) = disjointPatterns ps qs"
| "disjointPatterns _ _ = True"

lemma matchPath_empty: "matchPath [] ss = (if ss = [] then Some [] else None)" "matchPath (p # ps) [] = None"
  by (cases ss; cases p; auto)+

lemma disjointPatterns_sound: "disjointPatterns ps qs \<Longrightarrow> matchPath ps ss \<noteq> None \<Longrightarrow> matchPath qs ss = None"
proof (induction ps qs arbitrary: ss rule: disjointPatterns.induct, goal_cases)
  case (2 a ps b qs ss)
  then show ?case by (cases ss) (auto split: if_splits)
next
  case (3 ps q qs ss)
  then show ?case by (cases ss; cases q) (fastforce split: if_splits)+
next
  case (4 p ps qs ss)
  then show ?case by (cases ss; cases p) (fastforce split: if_splits)+
qed (auto simp: matchPath_empty split: if_splits)

definition apart :: "'h route \<Rightarrow> 'h route \<Rightarrow> bool" where
  "apart rt rt' \<longleftrightarrow> RouteMethod rt \<noteq> ''HEAD'' \<and> RouteMethod rt' \<noteq> ''HEAD'' \<and>
     (RouteMethod rt \<noteq> RouteMethod rt' \<or> disjointPatterns (Pattern rt) (Pattern rt'))"

lemma apart_sound:
  assumes "apart rt rt'" and "methodMatches m (RouteMethod rt)" and "matchPath (Pattern rt) ss \<noteq> None"
    and "methodMatches m (RouteMethod rt')"
  shows "matchPath (Pattern rt') ss = None"
  using assms disjointPatterns_sound unfolding apart_def methodMatches_def by metis

lemma findHandler_apart:
  assumes "sorted_wrt apart rts" and "rt \<in> set rts" and "methodMatches (Method r) (RouteMethod rt)"
    and "matchPath (Pattern rt) (pathSegments r) = Some vs"
  shows "findHandler rts r = Some (rt, vs)"
  using assms(1,2)
proof (induction rts)
  case (Cons x rts)
  show ?case
  proof (cases "x = rt")
    case True
    then show ?thesis using assms(3,4) by simp
  next
    case False
    then have "apart x rt" "rt \<in> set rts" using Cons.prems by auto
    moreover have "matchPath (Pattern x) (pathSegments r) = None" if "methodMatches (Method r) (RouteMethod x)"
      using apart_sound[OF \<open>apart x rt\<close> that _ assms(3)] assms(4) by fastforce
    ultimately show ?thesis using Cons by (auto split: option.splits)
  qed
qed simp

lemma routes_apart: "sorted_wrt apart (registerRoutes L S)"
  unfolding registerRoutes_def authRoutes_def internalRoutes_def apiRoute_def internalRoute_def
  by (simp add: apart_def)

lemma ServeHTTP_route:
  assumes "rt \<in> set (registerRoutes L S)" and "methodMatches (Method r) (RouteMethod rt)"
    and "matchPath (Pattern rt) (pathSegments r) = Some vs" and "cleanPath r"
  shows "ServeHTTP L S r = RouteHandler rt (withPathValues vs r)"
  using findHandler_apart[OF routes_apart assms(1-3)] assms(4) by (simp add: ServeHTTP_def)

text \<open>The requests for the endpoints of the approval proxy.\<close>

definition internalRequest :: "Request \<Rightarrow> bool" where
  "internalRequest r \<longleftrightarrow> 3 \<le> length (pathSegments r) \<and> PathUnescape (pathSegments r ! 2) = ''internal''"

lemma internalRoutes_path: "rt \<in> set (internalRoutes L S) \<Longrightarrow> matchPath (Pattern rt) (pathSegments r) = Some vs \<Longrightarrow> internalRequest r"
  by (auto simp: internalRoutes_def internalRoute_def internalRequest_def matchPath_Lit)

lemma no_connect: "rt \<in> set (registerRoutes L S) \<Longrightarrow> \<not> methodMatches ''CONNECT'' (RouteMethod rt)"
  by (auto simp: registerRoutes_def authRoutes_def internalRoutes_def internalRoute_def apiRoute_def methodMatches_def)

context server_env
begin

lemma ServeHTTP_wp:
  assumes "\<And>rt vs. cleanPath r \<Longrightarrow> rt \<in> set (registerRoutes L S) \<Longrightarrow> methodMatches (Method r) (RouteMethod rt) \<Longrightarrow>
      matchPath (Pattern rt) (pathSegments r) = Some vs \<Longrightarrow> wp (RouteHandler rt (withPathValues vs r)) Q w"
    and "\<And>resp. refusal resp \<Longrightarrow> Q resp w"
  shows "wp (ServeHTTP L S r) Q w"
proof (cases "findHandler (registerRoutes L S) r")
  case None
  then show ?thesis using assms(2) by (auto simp: ServeHTTP_def refusal_def)
next
  case (Some p)
  obtain rt vs where p: "p = (rt, vs)" by fastforce
  note rt = findHandler_Some[OF Some[unfolded p]]
  then have "Method r \<noteq> ''CONNECT''" using no_connect[of rt L S] by auto
  then show ?thesis
    using rt Some p assms(1)[of rt vs] assms(2)
    by (cases "cleanPath r") (auto simp: ServeHTTP_def refusal_def)
qed

lemma ServeHTTP_external:
  assumes "\<not> internalRequest r"
  shows "wp (ServeHTTP L S r) (\<lambda>resp w'. (\<exists>u. authorised S r w u) \<and> emitted ev hi (covered r) w w' \<or>
    refusal resp \<and> trace ev hi w [] w') w"
proof (rule ServeHTTP_wp)
  fix rt vs assume *: "cleanPath r" "rt \<in> set (registerRoutes L S)" "methodMatches (Method r) (RouteMethod rt)"
    "matchPath (Pattern rt) (pathSegments r) = Some vs"
  have "rt \<notin> set (internalRoutes L S)" using internalRoutes_path[OF _ *(4)] assms by blast
  then have "rt \<in> set (authRoutes L S)" using *(2) by (auto simp: registerRoutes_def)
  then have "guarded S ev hi rt" using authRoutes_guarded by (simp add: list_all_iff)
  then show "wp (RouteHandler rt (withPathValues vs r)) (\<lambda>resp w'.
      (\<exists>u. authorised S r w u) \<and> emitted ev hi (covered r) w w' \<or> refusal resp \<and> trace ev hi w [] w') w"
    using * unfolding guarded_def by blast
qed simp

text \<open>The status transitions of every route.\<close>

lemma AuthMiddleware_okay:
  assumes "\<And>r w. wp (h r) (\<lambda>_. okay ev hi w) w"
  shows "wp (AuthMiddleware (Clientset S) h r) (\<lambda>_. okay ev hi w) w"
proof (rule AuthMiddleware_wp)
  fix u v assume t: "trace ev hi w [] v"
  have "okay ev hi w v" using okay_trace[OF okay_refl t] by simp
  then show "wp (h (r\<lparr>ContextUser := Some u\<rparr>)) (\<lambda>_. okay ev hi w) v"
    by (intro wp_conseq[OF assms]) (rule okay_trans)
next
  fix resp v assume t: "trace ev hi w [] v"
  show "okay ev hi w v" using okay_trace[OF okay_refl t] by simp
qed

lemma quiet_okay: "quiet ev hi m \<Longrightarrow> wp m (\<lambda>_. okay ev hi w) w"
  by (rule okay_quiet_wp) auto

lemma ServeHTTP_okay: "wp (ServeHTTP L S r) (\<lambda>_. okay ev hi w) w"
proof (rule ServeHTTP_wp)
  fix rt vs assume "rt \<in> set (registerRoutes L S)"
  then show "wp (RouteHandler rt (withPathValues vs r)) (\<lambda>_. okay ev hi w) w"
    unfolding registerRoutes_def authRoutes_def internalRoutes_def
    by (auto simp: apiRoute_def internalRoute_def intro!: AuthMiddleware_okay readers_quiet[THEN quiet_okay] handleApply_okay
        handleRevert_okay handleReject_okay patches_okay handleOverview_okay handleUpdatePolicy_okay
        handleOwnerApprove_okay handleOwnerReject_okay)
qed simp

lemma AuthMiddleware_emitted:
  assumes "\<And>r w. wp (h r) (\<lambda>_. emitted ev hi P w) w"
  shows "wp (AuthMiddleware (Clientset S) h r) (\<lambda>_. emitted ev hi P w) w"
proof (rule AuthMiddleware_wp)
  fix u v assume t: "trace ev hi w [] v"
  then show "wp (h (r\<lparr>ContextUser := Some u\<rparr>)) (\<lambda>_. emitted ev hi P w) v"
    by (intro wp_conseq[OF assms]) (rule emitted_after)
next
  fix resp v assume t: "trace ev hi w [] v"
  then show "emitted ev hi P w v" by (rule emitted_after[OF _ emitted_refl])
qed

lemma handleOwnerReject_writes: "wp (handleOwnerReject L S r) (\<lambda>_. emitted ev hi apiWrite w) w"
  using emitted_refl[of ev hi apiWrite w]
  by (auto simp: handleOwnerReject_def intro!: store.getRec_emitted time.Now_emitted statusWrite_emitted
      vm_api.dynPatch_emitted[OF dynamic] split: option.splits) (simp | blast)+

lemmas handler_writes =
  handleApply_status[THEN wp_conseq, OF emitted_mono[OF _ statusOnly_write]]
  handleRevert_status[THEN wp_conseq, OF emitted_mono[OF _ statusOnly_write]]
  handleReject_status[THEN wp_conseq, OF emitted_mono[OF _ statusOnly_write]]
  handleOwnerApprove_status[THEN wp_conseq, OF emitted_mono[OF _ statusOnly_write]]
  patches_exclusion[THEN wp_conseq, OF emitted_mono[OF _ exclusionOnly_write]]
  handleUpdatePolicy_emitted[THEN wp_conseq, OF emitted_mono[OF _ policyUpdate_write]]

lemma ServeHTTP_writes: "wp (ServeHTTP L S r) (\<lambda>_. emitted ev hi apiWrite w) w"
proof (rule ServeHTTP_wp)
  fix rt vs assume "rt \<in> set (registerRoutes L S)"
  then show "wp (RouteHandler rt (withPathValues vs r)) (\<lambda>_. emitted ev hi apiWrite w) w"
    unfolding registerRoutes_def authRoutes_def internalRoutes_def
    by (auto simp: apiRoute_def internalRoute_def intro!: AuthMiddleware_emitted readers_emitted handleOverview_emitted
        handler_writes handleOwnerReject_writes)
qed (rule emitted_refl)

end

section \<open>No panics\<close>

text \<open>A call whose result the handler treats in every case.\<close>

lemmas any_api_call = wp_any[where m = "getRec C a b" for C a b] wp_any[where m = "listRecs C a" for C a]
  wp_any[where m = "updateRecStatus C a" for C a] wp_any[where m = "getPolicy C a" for C a]
  wp_any[where m = "updatePolicy C a" for C a] wp_any[where m = "dynList D" for D]
  wp_any[where m = "dynPatch D a b c d" for D a b c d] wp_any[where m = "Now L" for L]
  wp_any[where m = "tokenReview K a" for K a] wp_any[where m = "subjectAccessReview K a" for K a]
  wp_any[where m = "filterByNamespaceAccess S r i" for S r i] wp_any[where m = "accessLoop S u f c i" for S u f c i]
  wp_any[where m = "ResolveOwner U c n ns" for U c n ns] wp_any[where m = "GenerateToken J n tm a b c d" for J n tm a b c d]
  wp_any[where m = "SendAll d n" for d n]

abbreviation answers :: "('w, 'q Response) state \<Rightarrow> 'w \<Rightarrow> bool" where
  "answers m w \<equiv> wp m (\<lambda>resp _. resp \<noteq> Panicking) w"

lemma awaitApproval_answers: "answers (awaitApproval L S tm r rec owner notify msg) w"
  by (auto simp: awaitApproval_def internalError_def intro!: any_api_call split: sum.splits option.splits)

lemma applyPending_answers: "answers (applyPending L S r req rec) w"
  by (auto simp: applyPending_def applyWithoutOwner_def internalError_def
      intro!: any_api_call awaitApproval_answers split: sum.splits option.splits bool.splits)

lemma handlers_answer:
  "answers (handleListRecommendations S r) w" "answers (handleGetRecommendation S r) w" "answers (handleApply L S r) w"
  "answers (handleRevert S r) w" "answers (handleListVMs L S r) w" "answers (handleExclude S r) w"
  "answers (handleRemoveExclusion S r) w" "answers (handleOverview L S r) w" "answers (handleUpdatePolicy L S r) w"
  "answers (handleOwnerApprove L S r) w" "answers (handleOwnerReject L S r) w"
  by (auto simp: handleListRecommendations_def handleGetRecommendation_def handleApply_def handleRevert_def handleListVMs_def
      handleExclude_def handleRemoveExclusion_def handleOverview_def handleUpdatePolicy_def handleOwnerApprove_def
      handleOwnerReject_def internalError_def Let_def intro!: any_api_call applyPending_answers
      split: sum.splits option.splits)

lemma handleReject_answers: "ContextUser r \<noteq> None \<Longrightarrow> answers (handleReject L S r) w"
  by (auto simp: handleReject_def internalError_def intro!: any_api_call split: sum.splits option.splits)

lemma handleGetPolicy_answers: "DefaultPolicySpec (Quantities L) \<noteq> None \<Longrightarrow> answers (handleGetPolicy L S r) w"
  by (auto simp: handleGetPolicy_def intro!: any_api_call split: sum.splits option.splits)

lemma AuthMiddleware_answers:
  "(\<And>r w. ContextUser r \<noteq> None \<Longrightarrow> answers (h r) w) \<Longrightarrow> answers (AuthMiddleware K h r) w"
  by (auto simp: AuthMiddleware_def Let_def intro!: any_api_call split: sum.splits option.splits)

lemma routes_answer:
  assumes "DefaultPolicySpec (Quantities L) \<noteq> None" and "rt \<in> set (registerRoutes L S)"
  shows "answers (RouteHandler rt r) w"
  using assms(2) unfolding registerRoutes_def authRoutes_def internalRoutes_def
  by (auto simp: apiRoute_def internalRoute_def intro!: AuthMiddleware_answers handlers_answer handleReject_answers
      handleGetPolicy_answers[OF assms(1)])

section \<open>Properties\<close>

text \<open>C4: nothing happens on behalf of a client that was not admitted. A request outside the
  internal endpoints is either refused (an error text and no write at all), or its bearer token
  belongs to a user whom the cluster allows what the request does: every write is to the resource
  and the namespace that were reviewed, for \<open>update\<close> or \<open>delete\<close>. (A namespace with a slash, which
  no object has, is the exception: there the path value and the reviewed namespace differ.)\<close>

theorem external_requests_authorised:
  assumes "server_env L S ev hi" and "\<not> internalRequest r" and "run_state (ServeHTTP L S r) w = (resp, w')"
  shows "(\<exists>u es. authorised S r w u \<and> trace ev hi w es w' \<and> list_all (covered r) es) \<or>
    refusal resp \<and> trace ev hi w [] w'"
  using wpD[OF server_env.ServeHTTP_external[OF assms(1,2)] assms(3)] by (auto simp: emitted_def)

definition revertRequest :: Request where
  "revertRequest = (sampleRequest JNull)\<lparr>EscapedPath := ''/api/v1/recommendations/prod/vm-web/revert'', ContextUser := None\<rparr>"

definition adminWorld :: memWorld where
  "adminWorld = (sampleWorld appliedSample)\<lparr>wTokens := [(''t'', \<lparr>Username = ''ops'', UID = ''1'', Groups = []\<rparr>)],
     wAllowed := [(''ops'', ''update'', ''rightsizingrecommendations'', ''prod'')]\<rparr>"

lemma revertRequest_path: "pathSegments revertRequest = [''api'', ''v1'', ''recommendations'', ''prod'', ''vm-web'', ''revert'']"
  by (simp add: pathSegments_def revertRequest_def TrimPrefix_def)

lemma revertRequest_url: "urlParts revertRequest = [''api'', ''v1'', ''recommendations'', ''prod'', ''vm-web'', ''revert'']"
  by (simp add: revertRequest_def TrimPrefix_def)

lemma revertRequest_clean: "cleanPath revertRequest"
  by (simp add: cleanPath_def revertRequest_path) (simp add: revertRequest_def)

lemma ToLower_bearer: "ToLower ''Bearer'' = ''bearer''"
  by code_simp

lemma revertRequest_fields: "Method revertRequest = ''POST''" "extractBearerToken revertRequest = ''t''"
  by (simp_all add: revertRequest_def sampleRequest_def extractBearerToken_def ToLower_bearer Let_def)

lemma revertRequest_route:
  "findHandler (registerRoutes L S) revertRequest =
    Some (apiRoute S ''POST'' (named [''api'', ''v1'', ''recommendations''] [''revert'']) (handleRevert S), [''prod'', ''vm-web''])"
  by (simp add: registerRoutes_def authRoutes_def apiRoute_def revertRequest_path revertRequest_fields methodMatches_def)

lemma revertRequest_review: "resourceFromPath (URLPath revertRequest) = ''rightsizingrecommendations''"
  "extractNamespaceFromPath (URLPath revertRequest) = ''prod''"
  by (simp_all add: resourceFromPath_def extractNamespaceFromPath_def revertRequest_url Let_def)

lemma extractBearerToken_path [simp]: "extractBearerToken (r\<lparr>PathNamespace := ns, PathName := n\<rparr>) = extractBearerToken r"
  by (simp add: extractBearerToken_def)

lemma revertRequest_run: "\<exists>x w'. run_state (ServeHTTP memLib (memServer False) revertRequest) adminWorld = (Response 200 (RecJSON x), w') \<and>
    wEvents adminWorld = [] \<and> wEvents w' \<noteq> []"
  by (simp add: ServeHTTP_def revertRequest_clean revertRequest_route apiRoute_def AuthMiddleware_def revertRequest_fields
      revertRequest_review httpMethodToVerb_def sarSpec_def handleRevert_def adminWorld_def appliedSample_def mem_run)

theorem external_requests_authorised_witness:
  "\<exists>u es w'. authorised (memServer False) revertRequest adminWorld u \<and> trace wEvents memHist adminWorld es w' \<and>
    list_all (covered revertRequest) es"
proof -
  obtain x w' where run: "run_state (ServeHTTP memLib (memServer False) revertRequest) adminWorld = (Response 200 (RecJSON x), w')"
    using revertRequest_run by blast
  have "\<not> internalRequest revertRequest" by (simp add: internalRequest_def revertRequest_path)
  from external_requests_authorised[OF mem.server_env_axioms this run] show ?thesis by (auto simp: refusal_def)
qed

text \<open>Routing is unambiguous and complete: a request whose method and path fit a registered route
  is served by that route, with the path values of its wildcards, wherever the route stands in the
  table.\<close>

theorem route_selected:
  assumes "rt \<in> set (registerRoutes L S)" and "methodMatches (Method r) (RouteMethod rt)"
    and "matchPath (Pattern rt) (pathSegments r) = Some vs" and "cleanPath r"
  shows "ServeHTTP L S r = RouteHandler rt (withPathValues vs r)"
  by (rule ServeHTTP_route[OF assms])

theorem route_selected_witness:
  "ServeHTTP memLib (memServer False) revertRequest =
    AuthMiddleware (Some memClientset) (handleRevert (memServer False)) (revertRequest\<lparr>PathNamespace := ''prod'', PathName := ''vm-web''\<rparr>)"
  using route_selected[of "apiRoute (memServer False) ''POST'' (named [''api'', ''v1'', ''recommendations''] [''revert'']) (handleRevert (memServer False))"
      memLib "memServer False" revertRequest "[''prod'', ''vm-web'']"]
  by (simp add: registerRoutes_def authRoutes_def apiRoute_def revertRequest_path revertRequest_fields revertRequest_clean methodMatches_def)

text \<open>C35: every request to the API server, internal endpoints included, makes only writes that the
  life of a recommendation allows: a status changes only along a transition of \<open>status_step\<close> from the
  version that was read. No request creates or deletes a recommendation or changes its spec, and nothing of a VM is
  patched but its exclusion annotation.\<close>

theorem serve_writes_allowed:
  assumes "server_env L S ev hi" and "run_state (ServeHTTP L S r) w = (resp, w')"
  shows "\<exists>es. trace ev hi w es w' \<and> allAllowed es \<and> list_all apiWrite es"
proof -
  obtain es where es: "trace ev hi w es w'" "allAllowed es"
    using wpD[OF server_env.ServeHTTP_okay[OF assms(1)] assms(2)] by (auto simp: okay_def)
  obtain es' where es': "trace ev hi w es' w'" "list_all apiWrite es'"
    using wpD[OF server_env.ServeHTTP_writes[OF assms(1)] assms(2)] by (auto simp: emitted_def)
  have "es' = es" using es(1) es'(1) by (simp add: trace_def)
  then show ?thesis using es es'(2) by blast
qed

theorem serve_writes_allowed_witness:
  "\<exists>es w'. trace wEvents memHist adminWorld es w' \<and> allAllowed es \<and> list_all apiWrite es \<and> es \<noteq> []"
proof -
  obtain x w' where run: "run_state (ServeHTTP memLib (memServer False) revertRequest) adminWorld = (Response 200 (RecJSON x), w')"
    and ev: "wEvents adminWorld = []" "wEvents w' \<noteq> []"
    using revertRequest_run by blast
  from serve_writes_allowed[OF mem.server_env_axioms run] show ?thesis using ev by (auto simp: trace_def)
qed

text \<open>C31: no request makes the API server panic. The one handler that reads the user without a
  check, \<open>handleReject\<close>, is only reached through the middleware, which always sets it.\<close>

theorem serve_never_panics:
  assumes "quantities (Quantities L)" and "run_state (ServeHTTP L S r) w = (resp, w')"
  shows "resp \<noteq> Panicking"
proof -
  have "answers (ServeHTTP L S r) w"
    using routes_answer[OF quantities.DefaultPolicySpec_total[OF assms(1)]]
    by (auto simp: ServeHTTP_def dest: findHandler_Some split: option.splits)
  then show ?thesis using assms(2) by (auto simp: wp_def)
qed

theorem serve_never_panics_witness:
  "fst (run_state (ServeHTTP memLib (memServer False) revertRequest) adminWorld) \<noteq> Panicking"
  using serve_never_panics[where L = memLib, OF _ prod.collapse[symmetric]] mem.quantities_axioms by simp

end
