(* ===== verification/Approval_Proxy.thy ===== *)
theory Approval_Proxy
  imports API_Middleware
begin

text \<open>
  The approval proxy (\<open>internal/approvalproxy/proxy.go\<close>): the page behind the approval link, which
  validates the token of the link and passes the owner's decision to the internal endpoints of
  the API server.

  \<^item> The HTTP client is a parameter: a function from the backend request to an error or the
    status code and the JSON body of the answer. A request carries the method, the escaped path,
    the headers and the body; the backend's address is fixed by the configuration.
  \<^item> A page is the data that its template is executed with.
\<close>

section \<open>State and data\<close>

record BackendRequest =
  BackendMethod :: string
  BackendPath :: string
  BackendHeader :: "(string \<times> string) list"
  BackendBody :: "json option"

type_synonym 'w http_client = "BackendRequest \<Rightarrow> ('w, string + (nat \<times> json option)) state"

record 'w ApprovalProxy =
  tokenManager :: TokenManager
  backendURL :: string
  httpClient :: "'w http_client"

record backendRecommendation =
  BkVMName :: string
  BkVMNamespace :: string
  BkDirection :: string
  BkCurrentCores :: int
  BkCurrentMemory :: string
  BkRecommendedCores :: int
  BkRecommendedMemory :: string
  BkSavingsCPU :: int
  BkSavingsMemory :: string
  BkLookbackDays :: int
  BkCPUP95Percent :: float64
  BkMemoryP95Percent :: float64
  BkCPUMaxPercent :: float64
  BkMemoryMaxPercent :: float64
  BkHotplugCapable :: bool

record ApprovalPageData =
  PageVMName :: string
  PageNamespace :: string
  PageDirection :: string
  PageCurrentCPU :: int
  PageCurrentMemory :: string
  PageRecommendedCPU :: int
  PageRecommendedMemory :: string
  PageCPUSavings :: int
  PageMemorySavings :: string
  PageCPUP95 :: float64
  PageMemP95 :: float64
  PageCPUMax :: float64
  PageMemMax :: float64
  PageLookbackDays :: int
  PageToken :: string
  PageOwner :: string
  PageHotplugCapable :: bool

datatype page =
    ApprovalPage ApprovalPageData
  | ResultPage string string
  | ErrorPage string string
  | PlainText string

type_synonym proxy_response = "nat \<times> page"

abbreviation renderError :: "nat \<Rightarrow> string \<Rightarrow> string \<Rightarrow> ('w, proxy_response) state" where
  "renderError statusCode title message \<equiv> ret (statusCode, ErrorPage title message)"

abbreviation renderResult :: "string \<Rightarrow> string \<Rightarrow> ('w, proxy_response) state" where
  "renderResult title message \<equiv> ret (200, ResultPage title message)"

section \<open>Reading a recommendation from the backend\<close>

definition decodeFloat :: "json \<Rightarrow> float64 \<Rightarrow> float64 option" where
  "decodeFloat j cur = (case j of JNull \<Rightarrow> Some cur | JNum n \<Rightarrow> Some (f_of_int n) | JReal l f \<Rightarrow> Some f | _ \<Rightarrow> None)"

text \<open>One setter per nested struct of \<open>backendRecommendation\<close>; \<open>decodeNested\<close> runs it on an object.\<close>

abbreviation decodeNested :: "(string \<Rightarrow> json \<Rightarrow> backendRecommendation \<Rightarrow> backendRecommendation option) \<Rightarrow>
    json \<Rightarrow> backendRecommendation \<Rightarrow> backendRecommendation option" where
  "decodeNested \<equiv> decodeObject"

definition setRef :: "string \<Rightarrow> json \<Rightarrow> backendRecommendation \<Rightarrow> backendRecommendation option" where
  "setRef k v b =
    (if k = ''name'' then map_option (\<lambda>s. b\<lparr>BkVMName := s\<rparr>) (decodeString v (BkVMName b))
     else if k = ''namespace'' then map_option (\<lambda>s. b\<lparr>BkVMNamespace := s\<rparr>) (decodeString v (BkVMNamespace b))
     else Some b)"

definition setCores :: "(backendRecommendation \<Rightarrow> int) \<Rightarrow> (int \<Rightarrow> backendRecommendation \<Rightarrow> backendRecommendation) \<Rightarrow>
    string \<Rightarrow> json \<Rightarrow> backendRecommendation \<Rightarrow> backendRecommendation option" where
  "setCores get upd k v b =
    (if k = ''cores'' then map_option (\<lambda>n. upd n b) (decodeInt is_i32 v (get b)) else Some b)"

definition setCurrent :: "string \<Rightarrow> json \<Rightarrow> backendRecommendation \<Rightarrow> backendRecommendation option" where
  "setCurrent k v b =
    (if k = ''cpu'' then decodeNested (setCores BkCurrentCores (\<lambda>n b. b\<lparr>BkCurrentCores := n\<rparr>)) v b
     else if k = ''memory'' then map_option (\<lambda>s. b\<lparr>BkCurrentMemory := s\<rparr>) (decodeString v (BkCurrentMemory b))
     else Some b)"

definition setRecommended :: "string \<Rightarrow> json \<Rightarrow> backendRecommendation \<Rightarrow> backendRecommendation option" where
  "setRecommended k v b =
    (if k = ''cpu'' then decodeNested (setCores BkRecommendedCores (\<lambda>n b. b\<lparr>BkRecommendedCores := n\<rparr>)) v b
     else if k = ''memory'' then map_option (\<lambda>s. b\<lparr>BkRecommendedMemory := s\<rparr>) (decodeString v (BkRecommendedMemory b))
     else Some b)"

definition setSavings :: "string \<Rightarrow> json \<Rightarrow> backendRecommendation \<Rightarrow> backendRecommendation option" where
  "setSavings k v b =
    (if k = ''cpu'' then map_option (\<lambda>n. b\<lparr>BkSavingsCPU := n\<rparr>) (decodeInt is_i32 v (BkSavingsCPU b))
     else if k = ''memory'' then map_option (\<lambda>s. b\<lparr>BkSavingsMemory := s\<rparr>) (decodeString v (BkSavingsMemory b))
     else Some b)"

definition setMetrics :: "string \<Rightarrow> json \<Rightarrow> backendRecommendation \<Rightarrow> backendRecommendation option" where
  "setMetrics k v b =
    (if k = ''lookbackdays'' then map_option (\<lambda>n. b\<lparr>BkLookbackDays := n\<rparr>) (decodeInt is_i64 v (BkLookbackDays b))
     else if k = ''cpup95percent'' then map_option (\<lambda>f. b\<lparr>BkCPUP95Percent := f\<rparr>) (decodeFloat v (BkCPUP95Percent b))
     else if k = ''memoryp95percent'' then map_option (\<lambda>f. b\<lparr>BkMemoryP95Percent := f\<rparr>) (decodeFloat v (BkMemoryP95Percent b))
     else if k = ''cpumaxpercent'' then map_option (\<lambda>f. b\<lparr>BkCPUMaxPercent := f\<rparr>) (decodeFloat v (BkCPUMaxPercent b))
     else if k = ''memorymaxpercent'' then map_option (\<lambda>f. b\<lparr>BkMemoryMaxPercent := f\<rparr>) (decodeFloat v (BkMemoryMaxPercent b))
     else Some b)"

definition setBackendSpec :: "string \<Rightarrow> json \<Rightarrow> backendRecommendation \<Rightarrow> backendRecommendation option" where
  "setBackendSpec k v b =
    (if k = ''virtualmachineref'' then decodeNested setRef v b
     else if k = ''direction'' then map_option (\<lambda>s. b\<lparr>BkDirection := s\<rparr>) (decodeString v (BkDirection b))
     else if k = ''current'' then decodeNested setCurrent v b
     else if k = ''recommended'' then decodeNested setRecommended v b
     else if k = ''savings'' then decodeNested setSavings v b
     else if k = ''metrics'' then decodeNested setMetrics v b
     else if k = ''hotplugcapable'' then map_option (\<lambda>x. b\<lparr>BkHotplugCapable := x\<rparr>) (decodeBool v (BkHotplugCapable b))
     else Some b)"

definition zeroBackend :: backendRecommendation where
  "zeroBackend = \<lparr>BkVMName = [], BkVMNamespace = [], BkDirection = [], BkCurrentCores = 0, BkCurrentMemory = [],
     BkRecommendedCores = 0, BkRecommendedMemory = [], BkSavingsCPU = 0, BkSavingsMemory = [], BkLookbackDays = 0,
     BkCPUP95Percent = Fin 0, BkMemoryP95Percent = Fin 0, BkCPUMaxPercent = Fin 0, BkMemoryMaxPercent = Fin 0,
     BkHotplugCapable = False\<rparr>"

definition decodeBackend :: "json option \<Rightarrow> backendRecommendation option" where
  "decodeBackend body = (case body of
      None \<Rightarrow> None
    | Some j \<Rightarrow> decodeObject (\<lambda>k v b. if k = ''spec'' then decodeNested setBackendSpec v b else Some b) j zeroBackend)"

definition internalPath :: "string \<Rightarrow> string \<Rightarrow> string" where
  "internalPath namespace name = ''/api/v1/internal/recommendations/'' @ namespace @ ''/'' @ name"

definition fetchRecommendation :: "'w ApprovalProxy \<Rightarrow> string \<Rightarrow> string \<Rightarrow> ('w, backendRecommendation option) state" where
  "fetchRecommendation p namespace name = (case NewRequestPath (backendURL p @ internalPath namespace name) of
      None \<Rightarrow> ret None
    | Some path \<Rightarrow> do {
        resp \<leftarrow> httpClient p \<lparr>BackendMethod = ''GET'', BackendPath = path, BackendHeader = [], BackendBody = None\<rparr>;
        ret (case resp of
          Inl err \<Rightarrow> None
        | Inr (status, body) \<Rightarrow> if status \<noteq> 200 then None else decodeBackend body)
      })"

section \<open>Handlers\<close>

definition handleHealthz :: "Request \<Rightarrow> ('w, proxy_response) state" where
  "handleHealthz r = ret (200, PlainText ''ok'')"

definition pageData :: "backendRecommendation \<Rightarrow> string \<Rightarrow> string \<Rightarrow> ApprovalPageData" where
  "pageData rec tokenStr owner =
    \<lparr>PageVMName = BkVMName rec, PageNamespace = BkVMNamespace rec, PageDirection = BkDirection rec,
     PageCurrentCPU = BkCurrentCores rec, PageCurrentMemory = BkCurrentMemory rec,
     PageRecommendedCPU = BkRecommendedCores rec, PageRecommendedMemory = BkRecommendedMemory rec,
     PageCPUSavings = BkSavingsCPU rec, PageMemorySavings = BkSavingsMemory rec,
     PageCPUP95 = BkCPUP95Percent rec, PageMemP95 = BkMemoryP95Percent rec,
     PageCPUMax = BkCPUMaxPercent rec, PageMemMax = BkMemoryMaxPercent rec,
     PageLookbackDays = BkLookbackDays rec, PageToken = tokenStr, PageOwner = owner,
     PageHotplugCapable = BkHotplugCapable rec\<rparr>"

definition handleGetApprove :: "jwt_lib \<Rightarrow> ('w, time) state \<Rightarrow> 'w ApprovalProxy \<Rightarrow> Request \<Rightarrow> ('w, proxy_response) state" where
  "handleGetApprove J clk p r =
    (let tokenStr = Query r ''token'' in
     if tokenStr = [] then renderError 400 ''Missing Token'' ''No approval token was provided in the request.''
     else do {
       v \<leftarrow> ValidateToken J clk (tokenManager p) tokenStr;
       case v of
         Inl err \<Rightarrow> renderError 401 ''Invalid or Expired Token''
           ''The approval link is invalid or has expired. Please request a new approval link.''
       | Inr claims \<Rightarrow> do {
           f \<leftarrow> fetchRecommendation p (ClmNamespace claims) (RecName claims);
           case f of
             None \<Rightarrow> renderError 502 ''Unable to Load Recommendation''
               ''Could not retrieve the recommendation details. Please try again later.''
           | Some rec \<Rightarrow> ret (200, ApprovalPage (pageData rec tokenStr (ClmOwner claims)))
         }
     })"

text \<open>A \<open>datetime-local\<close> value of the form becomes an RFC 3339 time; anything else is passed on.\<close>

definition normaliseScheduledAt :: "string \<Rightarrow> string" where
  "normaliseScheduledAt s = (case ParseRFC3339 s of
      Some t \<Rightarrow> s
    | None \<Rightarrow> (case ParseMinute s of
          Some mt \<Rightarrow> FormatRFC3339 mt
        | None \<Rightarrow> s))"

text \<open>The path and the body (a map, whose keys the encoder sorts) for each action.\<close>

definition backendCall :: "ApprovalClaims \<Rightarrow> (string \<Rightarrow> string) \<Rightarrow> (string \<times> json) option" where
  "backendCall claims FormValue =
    (let act' = FormValue ''action''; scheduledAt = FormValue ''scheduledAt'';
         base = internalPath (ClmNamespace claims) (RecName claims)
     in if act' = ''approve'' then Some (base @ ''/owner-approve'',
          JObj ((''restartOption'', JStr (FormValue ''restartOption'')) #
            (if scheduledAt \<noteq> [] then [(''scheduledAt'', JStr (normaliseScheduledAt scheduledAt))] else [])))
        else if act' = ''reject'' then Some (base @ ''/owner-reject'', JObj [(''reason'', JStr (FormValue ''reason''))])
        else if act' = ''exclude'' then Some (base @ ''/owner-reject'',
          JObj [(''exclude'', JStr ''true''), (''reason'', JStr (FormValue ''reason''))])
        else None)"

definition resultFor :: "(string \<Rightarrow> string) \<Rightarrow> ('w, proxy_response) state" where
  "resultFor FormValue =
    (let act' = FormValue ''action''; restartOption = FormValue ''restartOption'';
         scheduledAt = (if FormValue ''scheduledAt'' = [] then [] else normaliseScheduledAt (FormValue ''scheduledAt''))
     in if act' = ''approve'' then renderResult ''Recommendation Approved''
          (''The rightsizing recommendation has been approved and will be applied.'' @
           (if restartOption = ''schedule'' \<and> scheduledAt \<noteq> []
            then '' The VM restart is scheduled for '' @ scheduledAt @ ''.''
            else if restartOption = ''later''
            then '' The VM will need to be restarted manually to apply the changes.'' else []))
        else if act' = ''reject'' then renderResult ''Recommendation Rejected''
          ''The rightsizing recommendation has been rejected.''
        else renderResult ''VM Excluded from Rightsizing''
          ''The VM has been excluded from future rightsizing recommendations.'')"

definition handlePostApprove :: "jwt_lib \<Rightarrow> ('w, time) state \<Rightarrow> 'w ApprovalProxy \<Rightarrow> Request \<Rightarrow> ('w, proxy_response) state" where
  "handlePostApprove J clk p r = (case Form r of
      None \<Rightarrow> renderError 400 ''Invalid Form'' ''The submitted form data could not be parsed.''
    | Some FormValue \<Rightarrow>
        (let tokenStr = FormValue ''token'' in
         if tokenStr = [] then renderError 400 ''Missing Token'' ''No approval token was provided.''
         else do {
           v \<leftarrow> ValidateToken J clk (tokenManager p) tokenStr;
           case v of
             Inl err \<Rightarrow> renderError 401 ''Invalid or Expired Token''
               ''The approval link is invalid or has expired. Please request a new approval link.''
           | Inr claims \<Rightarrow> (case backendCall claims FormValue of
                 None \<Rightarrow> renderError 400 ''Invalid Action''
                   ''The selected action is not valid. Please go back and try again.''
               | Some (backendPath, body) \<Rightarrow> (case NewRequestPath (backendURL p @ backendPath) of
                     None \<Rightarrow> renderError 500 ''Internal Error'' ''An unexpected error occurred. Please try again later.''
                   | Some path \<Rightarrow> do {
                       resp \<leftarrow> httpClient p \<lparr>BackendMethod = ''POST'', BackendPath = path,
                         BackendHeader = [(''Content-Type'', ''application/json''), (''X-Approval-Owner'', ClmOwner claims)],
                         BackendBody = Some body\<rparr>;
                       case resp of
                         Inl err \<Rightarrow> renderError 502 ''Backend Unavailable''
                           ''Could not reach the backend service. Please try again later.''
                       | Inr (status, _) \<Rightarrow>
                           if 400 \<le> status then renderError 502 ''Action Failed''
                             (''The backend returned an error (HTTP '' @ show_nat status @
                              ''). Please try again or contact your administrator.'')
                           else resultFor FormValue
                     }))
         }))"

definition proxyRoutes :: "jwt_lib \<Rightarrow> ('w, time) state \<Rightarrow> 'w ApprovalProxy \<Rightarrow>
    (Request \<Rightarrow> ('w, proxy_response) state) route list" where
  "proxyRoutes J clk p = [
     \<lparr>RouteMethod = ''GET'', Pattern = [Lit ''approve''], RouteHandler = handleGetApprove J clk p\<rparr>,
     \<lparr>RouteMethod = ''POST'', Pattern = [Lit ''approve''], RouteHandler = handlePostApprove J clk p\<rparr>,
     \<lparr>RouteMethod = ''GET'', Pattern = [Lit ''healthz''], RouteHandler = handleHealthz\<rparr>]"

definition proxyServeHTTP :: "jwt_lib \<Rightarrow> ('w, time) state \<Rightarrow> 'w ApprovalProxy \<Rightarrow> Request \<Rightarrow> ('w, proxy_response) state" where
  "proxyServeHTTP J clk p r =
    (if Method r \<noteq> ''CONNECT'' \<and> \<not> cleanPath r then ret (301, PlainText ''Moved Permanently'')
     else (case findHandler (proxyRoutes J clk p) r of
         Some (rt, vs) \<Rightarrow> RouteHandler rt (withPathValues vs r)
       | None \<Rightarrow>
           if list_ex (\<lambda>rt. matchPath (Pattern rt) (pathSegments r) \<noteq> None) (proxyRoutes J clk p)
           then ret (405, PlainText ''Method Not Allowed'')
           else ret (404, PlainText ''404 page not found'')))"

end
