(* ===== verification/Approval_Flow.thy ===== *)
theory Approval_Flow
  imports Approval_Proxy
begin

text \<open>
  The approval link end to end: the approval proxy with the API server as its backend. The HTTP
  connection between them is written out as far as it matters: header values with control
  characters are refused by the client, surrounding blanks are trimmed, and a handler that panics
  drops the connection.
\<close>

section \<open>The connection\<close>

definition trimHeader :: "string \<Rightarrow> string" where
  "trimHeader s = (let blank = (\<lambda>c. c \<in> set '' '' \<or> (of_char c :: nat) \<in> {9, 10, 13}) in
     rev (dropWhile blank (rev (dropWhile blank s))))"

definition validHeaderValue :: "string \<Rightarrow> bool" where
  "validHeaderValue s \<longleftrightarrow> list_all (\<lambda>c. \<not> isControl c \<or> (of_char c :: nat) = 9) s"

definition backendRequest :: "BackendRequest \<Rightarrow> Request" where
  "backendRequest b = \<lparr>Method = BackendMethod b, EscapedPath = BackendPath b, Query = (\<lambda>_. []),
     Header = (\<lambda>h. case map_of (BackendHeader b) h of None \<Rightarrow> [] | Some v \<Rightarrow> trimHeader v),
     Body = BackendBody b, Form = None, PathNamespace = [], PathName = [], ContextUser = None\<rparr>"

text \<open>The HTTP client of the proxy with the API server at the other end. A redirect, the
  answer to a path that is not clean, is passed on instead of being followed; the paths made of the names
  that Kubernetes has are clean.\<close>

definition apiBackend :: "('q content \<Rightarrow> json option) \<Rightarrow> ('w, 'o, 'q) lib \<Rightarrow> ('w, 'o, 'q) Server \<Rightarrow> 'w http_client" where
  "apiBackend enc L S b =
    (if \<not> list_all (\<lambda>h. validHeaderValue (snd h)) (BackendHeader b) then ret (Inl ''invalid header field value'')
     else do {
       resp \<leftarrow> ServeHTTP L S (backendRequest b);
       ret (case resp of Panicking \<Rightarrow> Inl ''EOF'' | Response c body \<Rightarrow> Inr (c, enc body))
     })"

section \<open>Paths of plain names\<close>

text \<open>Names as Kubernetes allows them.\<close>

definition plainName :: "string \<Rightarrow> bool" where
  "plainName s \<longleftrightarrow> s \<noteq> [] \<and> s \<noteq> ''.'' \<and> s \<noteq> ''..'' \<and> list_all (\<lambda>c. isAlnum c \<or> c = CHR ''-'' \<or> c = CHR ''.'') s"

lemma plainName_bytes: "plainName s \<Longrightarrow> list_all pathByte s"
  by (auto simp: plainName_def pathByte_def list_all_iff)

lemma plainName_id: assumes "plainName s" shows "PathUnescape s = s" "plain s" "s \<noteq> []" "s \<noteq> ''/''"
proof -
  have "list_all pathByte s" using plainName_bytes[OF assms] .
  then have "CHR ''%'' \<notin> set s" using pathByte_not by (auto simp: list_all_iff)
  then show "PathUnescape s = s" by (rule PathUnescape_id)
  show "plain s" "s \<noteq> []" using assms by (auto simp: plainName_def list_all_iff isAlnum_def Let_def)
  then show "s \<noteq> ''/''" by auto
qed

abbreviation ownerPath :: "string \<Rightarrow> string \<Rightarrow> string \<Rightarrow> string" where
  "ownerPath ns n a \<equiv> internalPath ns n @ CHR ''/'' # a"

lemma ownerPath_request:
  assumes "plainBackend url" and "plainName ns" "plainName n" "plainName a"
  shows "NewRequestPath (url @ ownerPath ns n a) = Some (ownerPath ns n a)"
    and "NewRequestPath (url @ internalPath ns n) = Some (internalPath ns n)"
proof -
  have b: "list_all pathByte (ownerPath ns n a)" "list_all pathByte (internalPath ns n)"
    using assms(2-4)[THEN plainName_bytes]
    by (simp_all add: internalPath_def) (simp_all add: pathByte_def isAlnum_def Let_def)
  obtain p q where "ownerPath ns n a = CHR ''/'' # p" "internalPath ns n = CHR ''/'' # q" by (simp add: internalPath_def)
  then show "NewRequestPath (url @ ownerPath ns n a) = Some (ownerPath ns n a)"
    "NewRequestPath (url @ internalPath ns n) = Some (internalPath ns n)"
    using NewRequestPath_plain[OF assms(1)] b by simp_all
qed

lemma ownerPath_segments:
  assumes "plainName ns" "plainName n" "plainName a" and "EscapedPath r = ownerPath ns n a"
  shows "pathSegments r = [''api'', ''v1'', ''internal'', ''recommendations'', ns, n, a]" and "cleanPath r"
proof -
  show p: "pathSegments r = [''api'', ''v1'', ''internal'', ''recommendations'', ns, n, a]"
    using assms plainName_id(2)[OF assms(1)] plainName_id(2)[OF assms(2)] plainName_id(2)[OF assms(3)]
    by (simp add: pathSegments_def internalPath_def TrimPrefix_def Split_append Split_no_sep)
  show "cleanPath r" unfolding cleanPath_def p using assms by (auto simp: plainName_def internalPath_def)
qed

lemma internalPath_segments:
  assumes "plainName ns" "plainName n" and "EscapedPath r = internalPath ns n"
  shows "pathSegments r = [''api'', ''v1'', ''internal'', ''recommendations'', ns, n]" and "cleanPath r"
proof -
  show p: "pathSegments r = [''api'', ''v1'', ''internal'', ''recommendations'', ns, n]"
    using assms plainName_id(2)[OF assms(1)] plainName_id(2)[OF assms(2)]
    by (simp add: pathSegments_def internalPath_def TrimPrefix_def Split_append Split_no_sep)
  show "cleanPath r" unfolding cleanPath_def p using assms by (auto simp: plainName_def internalPath_def)
qed

text \<open>The internal endpoints serve the proxy's requests.\<close>

lemmas plainName_match = plainName_id(1,3,4)

lemma serve_internal:
  assumes "internalRoute m (named [''api'', ''v1'', ''internal'', ''recommendations''] post) h \<in> set (registerRoutes L S)"
    and "matchPath (named [''api'', ''v1'', ''internal'', ''recommendations''] post) (pathSegments r) = Some [ns, n]"
    and "cleanPath r" and "Method r = m"
  shows "ServeHTTP L S r = h (r\<lparr>PathNamespace := ns, PathName := n\<rparr>)"
  using ServeHTTP_route[OF assms(1)] assms(2-4) by (simp add: internalRoute_def methodMatches_def)

lemma backendRequest_simps [simp]: "EscapedPath (backendRequest b) = BackendPath b" "Method (backendRequest b) = BackendMethod b"
  "Body (backendRequest b) = BackendBody b"
  by (simp_all add: backendRequest_def)

lemma serve_owner:
  assumes "plainName ns" "plainName n" and "BackendMethod b = ''POST''"
  shows "BackendPath b = ownerPath ns n ''owner-approve'' \<Longrightarrow> ServeHTTP L S (backendRequest b) =
      handleOwnerApprove L S ((backendRequest b)\<lparr>PathNamespace := ns, PathName := n\<rparr>)"
    and "BackendPath b = ownerPath ns n ''owner-reject'' \<Longrightarrow> ServeHTTP L S (backendRequest b) =
      handleOwnerReject L S ((backendRequest b)\<lparr>PathNamespace := ns, PathName := n\<rparr>)"
proof -
  have pl: "plainName ''owner-approve''" "plainName ''owner-reject''" by (simp_all add: plainName_def isAlnum_def Let_def)
  note seg = ownerPath_segments[OF assms(1,2) pl(1)] ownerPath_segments[OF assms(1,2) pl(2)]
  note id = plainName_match[OF assms(1)] plainName_match[OF assms(2)]
  show "BackendPath b = ownerPath ns n ''owner-approve'' \<Longrightarrow> ServeHTTP L S (backendRequest b) =
      handleOwnerApprove L S ((backendRequest b)\<lparr>PathNamespace := ns, PathName := n\<rparr>)"
    using assms(3)
    by (intro serve_internal[where post = "[''owner-approve'']"]) (simp_all add: registerRoutes_def internalRoutes_def seg id)
  show "BackendPath b = ownerPath ns n ''owner-reject'' \<Longrightarrow> ServeHTTP L S (backendRequest b) =
      handleOwnerReject L S ((backendRequest b)\<lparr>PathNamespace := ns, PathName := n\<rparr>)"
    using assms(3)
    by (intro serve_internal[where post = "[''owner-reject'']"]) (simp_all add: registerRoutes_def internalRoutes_def seg id)
qed

lemma serve_get:
  assumes "plainName ns" "plainName n" and "BackendMethod b = ''GET''" and "BackendPath b = internalPath ns n"
  shows "ServeHTTP L S (backendRequest b) = handleGetRecommendation S ((backendRequest b)\<lparr>PathNamespace := ns, PathName := n\<rparr>)"
  using assms(3,4)
  by (intro serve_internal[where post = "[]"])
     (simp_all add: registerRoutes_def internalRoutes_def internalPath_segments[OF assms(1,2)]
        plainName_match[OF assms(1)] plainName_match[OF assms(2)])

section \<open>What a token reaches\<close>

fun isClock :: "'q event \<Rightarrow> bool" where
  "isClock (ClockRead t) = True"
| "isClock e = False"

text \<open>The token of a request to the proxy.\<close>

definition requestToken :: "Request \<Rightarrow> string \<Rightarrow> bool" where
  "requestToken r tok \<longleftrightarrow> tok = Query r ''token'' \<or> (\<exists>f. Form r = Some f \<and> tok = f ''token'')"

definition withinToken :: "('w, 'o, 'q) lib \<Rightarrow> 'w ApprovalProxy \<Rightarrow> ('w \<Rightarrow> 'q event list) \<Rightarrow> ('w \<Rightarrow> 'q recommendation set) \<Rightarrow>
    Request \<Rightarrow> 'w \<Rightarrow> 'w \<Rightarrow> bool" where
  "withinToken L p ev hi r w w' \<longleftrightarrow> emitted ev hi isClock w w' \<or>
    (\<exists>tok c w1. requestToken r tok \<and> run_state (ValidateToken (Jwt L) (Now L) (tokenManager p) tok) w = (Inr c, w1) \<and>
       okay ev hi w w' \<and> (plainName (ClmNamespace c) \<and> plainName (RecName c) \<longrightarrow>
         emitted ev hi (statusOnly (ClmNamespace c) (RecName c)) w w'))"

lemma emitted_trans: "emitted ev hi P w w1 \<Longrightarrow> emitted ev hi P w1 w2 \<Longrightarrow> emitted ev hi P w w2"
  unfolding emitted_def by (metis trace_trans list_all_append)

lemma backendCall_path:
  "backendCall c f = Some (path, body) \<Longrightarrow>
    path = ownerPath (ClmNamespace c) (RecName c) ''owner-approve'' \<or> path = ownerPath (ClmNamespace c) (RecName c) ''owner-reject''"
  by (auto simp: backendCall_def Let_def split: if_splits)

lemma backendCall_request:
  assumes "backendCall c f = Some (path, body)" and "plainBackend url" and "plainName (ClmNamespace c)" "plainName (RecName c)"
  shows "NewRequestPath (url @ path) = Some path"
proof -
  have "plainName ''owner-approve''" "plainName ''owner-reject''" by (simp_all add: plainName_def isAlnum_def Let_def)
  then show ?thesis using backendCall_path[OF assms(1)] ownerPath_request(1)[OF assms(2-4)] by metis
qed

text \<open>The body of a rejection never asks the backend for the exclusion of the VM.\<close>

lemma lower_keys: "ToLower ''restartOption'' = ''restartoption''" "ToLower ''scheduledAt'' = ''scheduledat''"
  "ToLower ''exclude'' = ''exclude''" "ToLower ''reason'' = ''reason''"
  by code_simp+

lemma reject_body:
  "decodeRejectRequest True (Some (JObj [(''exclude'', JStr a), (''reason'', JStr b)])) = Some \<lparr>RejReason = b, RejAction = []\<rparr>"
  "decodeRejectRequest True (Some (JObj [(''reason'', JStr b)])) = Some \<lparr>RejReason = b, RejAction = []\<rparr>"
  by (simp_all add: decodeRejectRequest_def decodeObject_def setRejectRequest_def decodeString_def lower_keys)

definition plainRejection :: "json option \<Rightarrow> bool" where
  "plainRejection body \<longleftrightarrow> (\<exists>req. decodeRejectRequest True body = Some req \<and> RejAction req \<noteq> ''exclude'')"

lemma backendCall_plain:
  "backendCall c f = Some (path, body) \<Longrightarrow> path = ownerPath (ClmNamespace c) (RecName c) ''owner-approve'' \<or>
    path = ownerPath (ClmNamespace c) (RecName c) ''owner-reject'' \<and> plainRejection (Some body)"
  by (auto simp: backendCall_def plainRejection_def reject_body Let_def split: if_splits)

context server_env
begin

lemma ValidateToken_trace:
  assumes "run_state (ValidateToken (Jwt L) (Now L) tm tok) w = (v, w1)"
  shows "\<exists>t. trace ev hi w [ClockRead t] w1"
proof -
  have "wp (ValidateToken (Jwt L) (Now L) tm tok) (\<lambda>_ w'. \<exists>t. trace ev hi w [ClockRead t] w') w"
    unfolding ValidateToken_def wp_bind wp_return by (rule time.Now_wp[OF trace_refl]) auto
  then show ?thesis using assms by (auto simp: wp_def)
qed

lemma apiBackend_okay: "okay ev hi w0 w \<Longrightarrow> wp (apiBackend enc L S b) (\<lambda>_. okay ev hi w0) w"
  by (simp add: apiBackend_def) (blast intro: wp_conseq[OF ServeHTTP_okay] okay_trans)

lemma ownerReject_plain:
  assumes "plainRejection (Body r)"
  shows "wp (handleOwnerReject L S r) (\<lambda>_. emitted ev hi (statusOnly (PathNamespace r) (PathName r)) w) w"
  using emitted_refl[of ev hi "statusOnly (PathNamespace r) (PathName r)" w] assms
  by (auto simp: handleOwnerReject_def plainRejection_def intro!: store.getRec_emitted time.Now_emitted statusWrite_emitted
      split: option.splits)

lemma apiBackend_owner:
  assumes "plainName ns" "plainName n" and "BackendMethod b = ''POST''"
    and "BackendPath b = ownerPath ns n ''owner-approve'' \<or>
      BackendPath b = ownerPath ns n ''owner-reject'' \<and> plainRejection (BackendBody b)"
  shows "wp (apiBackend enc L S b) (\<lambda>_. emitted ev hi (statusOnly ns n) w) w"
proof -
  have "wp (ServeHTTP L S (backendRequest b)) (\<lambda>_. emitted ev hi (statusOnly ns n) w) w"
    using assms(4)
  proof
    assume "BackendPath b = ownerPath ns n ''owner-approve''"
    note serve = serve_owner(1)[OF assms(1-3) this]
    show ?thesis unfolding serve by (rule wp_conseq[OF handleOwnerApprove_status]) simp
  next
    assume rej: "BackendPath b = ownerPath ns n ''owner-reject'' \<and> plainRejection (BackendBody b)"
    note serve = serve_owner(2)[OF assms(1-3) conjunct1[OF rej]]
    show ?thesis unfolding serve by (rule wp_conseq[OF ownerReject_plain]) (use rej in simp_all)
  qed
  then show ?thesis by (auto simp: apiBackend_def emitted_refl elim: wp_conseq)
qed

lemma apiBackend_get:
  assumes "plainName ns" "plainName n" and "BackendMethod b = ''GET''" and "BackendPath b = internalPath ns n"
  shows "quiet ev hi (apiBackend enc L S b)"
  by (auto simp: apiBackend_def serve_get[OF assms] intro!: quiet_bind readers_quiet)

lemma handlePost_within:
  assumes "httpClient p = apiBackend enc L S" and "plainBackend (backendURL p)"
  shows "wp (handlePostApprove (Jwt L) (Now L) p r) (\<lambda>_. withinToken L p ev hi r w) w"
proof (cases "\<exists>f. Form r = Some f \<and> f ''token'' \<noteq> []")
  case False
  then show ?thesis by (auto simp: handlePostApprove_def Let_def withinToken_def emitted_refl split: option.splits)
next
  case True
  then obtain f where f: "Form r = Some f" "f ''token'' \<noteq> []" by blast
  obtain v w1 where v: "run_state (ValidateToken (Jwt L) (Now L) (tokenManager p) (f ''token'')) w = (v, w1)" by fastforce
  have t: "\<exists>t. trace ev hi w [ClockRead t] w1" using ValidateToken_trace[OF v] .
  have clock: "withinToken L p ev hi r w w1" using t by (auto simp: withinToken_def emitted_def)
  show ?thesis
  proof (cases "\<exists>c path body req. v = Inr c \<and> backendCall c f = Some (path, body) \<and> NewRequestPath (backendURL p @ path) = Some req")
    case False
    then show ?thesis using f v clock
      by (auto simp: handlePostApprove_def wp_def Let_def split: sum.splits option.splits)
  next
    case True
    then obtain c path body req where c: "v = Inr c" "backendCall c f = Some (path, body)"
        "NewRequestPath (backendURL p @ path) = Some req" by blast
    let ?b = "\<lparr>BackendMethod = ''POST'', BackendPath = req, BackendHeader = [(''Content-Type'', ''application/json''),
       (''X-Approval-Owner'', ClmOwner c)], BackendBody = Some body\<rparr>"
    have o1: "okay ev hi w w1" using t okay_trace[OF okay_refl] by (metis allowed.simps(8) list.pred_inject)
    let ?P = "statusOnly (ClmNamespace c) (RecName c)"
    have e1: "emitted ev hi ?P w w1" using t by (auto simp: emitted_def)
    have own: "wp (apiBackend enc L S ?b) (\<lambda>_. emitted ev hi ?P w1) w1" if "plainName (ClmNamespace c)" "plainName (RecName c)"
      using backendCall_plain[OF c(2)] backendCall_request[OF c(2) assms(2) that] c(3) that
      by (intro apiBackend_owner) auto
    have "wp (apiBackend enc L S ?b) (\<lambda>_ w'. okay ev hi w w' \<and>
        (plainName (ClmNamespace c) \<and> plainName (RecName c) \<longrightarrow> emitted ev hi ?P w w')) w1"
    proof (cases "plainName (ClmNamespace c) \<and> plainName (RecName c)")
      case True
      show ?thesis
        by (rule wp_conseq[OF wp_conj[OF apiBackend_okay[OF o1] own]]) (use True emitted_trans[OF e1] in auto)
    next
      case False
      then show ?thesis by (intro wp_conseq[OF apiBackend_okay[OF o1]]) auto
    qed
    then have "wp (apiBackend enc L S ?b) (\<lambda>_. withinToken L p ev hi r w) w1"
      by (rule wp_conseq) (use f v c(1) in \<open>auto simp: withinToken_def requestToken_def\<close>)
    then show ?thesis using f v c assms(1) 
      by (auto simp: handlePostApprove_def wp_def Let_def resultFor_def split: sum.splits option.splits prod.splits)
  qed
qed

lemma handleGet_within:
  assumes "httpClient p = apiBackend enc L S" and "plainBackend (backendURL p)"
  shows "wp (handleGetApprove (Jwt L) (Now L) p r) (\<lambda>_. withinToken L p ev hi r w) w"
proof (cases "Query r ''token'' = []")
  case True
  then show ?thesis by (auto simp: handleGetApprove_def Let_def withinToken_def emitted_refl)
next
  case False
  obtain v w1 where v: "run_state (ValidateToken (Jwt L) (Now L) (tokenManager p) (Query r ''token'')) w = (v, w1)" by fastforce
  have t: "\<exists>t. trace ev hi w [ClockRead t] w1" using ValidateToken_trace[OF v] .
  show ?thesis
  proof (cases v)
    case (Inl e)
    then show ?thesis using False v t by (auto simp: handleGetApprove_def wp_def Let_def withinToken_def emitted_def)
  next
    case (Inr c)
    let ?P = "statusOnly (ClmNamespace c) (RecName c)" and ?f = "fetchRecommendation p (ClmNamespace c) (RecName c)"
    have o1: "okay ev hi w w1" using t okay_trace[OF okay_refl] by (metis allowed.simps(8) list.pred_inject)
    have e1: "emitted ev hi ?P w w1" using t by (auto simp: emitted_def)
    have all: "wp ?f (\<lambda>_. okay ev hi w) w1"
      using apiBackend_okay[OF o1] o1 unfolding fetchRecommendation_def assms(1) by (auto split: option.splits)
    have "wp ?f (\<lambda>_. emitted ev hi ?P w) w1" if "plainName (ClmNamespace c)" "plainName (RecName c)"
    proof -
      have "quiet ev hi ?f"
        using ownerPath_request(2)[OF assms(2) that that(1)] apiBackend_get[OF that]
        unfolding fetchRecommendation_def assms(1) by (auto intro!: quiet_bind)
      then show ?thesis by (rule emitted_quiet_wp[OF _ e1])
    qed
    then have "wp ?f (\<lambda>_ w'. okay ev hi w w' \<and>
        (plainName (ClmNamespace c) \<and> plainName (RecName c) \<longrightarrow> emitted ev hi ?P w w')) w1"
      using all wp_conj[OF all] by (cases "plainName (ClmNamespace c) \<and> plainName (RecName c)") auto
    then have "wp ?f (\<lambda>_. withinToken L p ev hi r w) w1"
      by (rule wp_conseq) (use v Inr in \<open>auto simp: withinToken_def requestToken_def\<close>)
    then show ?thesis using False v Inr
      by (auto simp: handleGetApprove_def wp_def Let_def split: option.splits prod.splits)
  qed
qed

lemma proxy_within:
  assumes "httpClient p = apiBackend enc L S" and "plainBackend (backendURL p)"
  shows "wp (proxyServeHTTP (Jwt L) (Now L) p r) (\<lambda>_. withinToken L p ev hi r w) w"
proof -
  have rt: "requestToken (withPathValues vs r) = requestToken r" for vs
    by (auto simp: requestToken_def withPathValues_def split: list.splits)
  have same: "withinToken L p ev hi (withPathValues vs r) = withinToken L p ev hi r" for vs
    by (simp add: withinToken_def fun_eq_iff rt)
  have "wp (RouteHandler rt (withPathValues vs r)) (\<lambda>_. withinToken L p ev hi r w) w"
    if "rt \<in> set (proxyRoutes (Jwt L) (Now L) p)" for rt vs
    using that handlePost_within[OF assms, of "withPathValues vs r" w] handleGet_within[OF assms, of "withPathValues vs r" w]
    by (auto simp: proxyRoutes_def handleHealthz_def same) (simp add: withinToken_def emitted_refl)
  then show ?thesis
    by (auto simp: proxyServeHTTP_def withinToken_def emitted_refl dest: findHandler_Some split: option.splits)
qed

end

section \<open>Properties\<close>

text \<open>C5: an approval link reaches nothing but its own recommendation. Whatever is sent to the proxy,
  it has no effect unless it carries a token that the token manager accepts; then every write is
  one that the life of a recommendation allows, and, for the names that Kubernetes has, a
  status write of the recommendation named in the token: no other recommendation is written, no spec, no policy and
  no virtual machine.\<close>

theorem proxy_token_scope:
  assumes "server_env L S ev hi" and "httpClient p = apiBackend enc L S" and "plainBackend (backendURL p)"
    and "run_state (proxyServeHTTP (Jwt L) (Now L) p r) w = (resp, w')"
  shows "\<exists>es. trace ev hi w es w' \<and> (list_all isClock es \<or>
    (\<exists>tok c w1. requestToken r tok \<and> run_state (ValidateToken (Jwt L) (Now L) (tokenManager p) tok) w = (Inr c, w1) \<and>
       allAllowed es \<and> (plainName (ClmNamespace c) \<and> plainName (RecName c) \<longrightarrow>
         list_all (statusOnly (ClmNamespace c) (RecName c)) es)))"
proof -
  have same: "es = es'" if "trace ev hi w es w'" "trace ev hi w es' w'" for es es'
    using that by (simp add: trace_def)
  have "withinToken L p ev hi r w w'" using wpD[OF server_env.proxy_within[OF assms(1-3)] assms(4)] .
  then show ?thesis unfolding withinToken_def emitted_def okay_def by (metis same)
qed

section \<open>The owner's decision\<close>

text \<open>A value of the form's \<open>datetime-local\<close> field is no RFC 3339 time, and becomes the one of that
  minute in UTC.\<close>

lemma ParseMinute_normalise:
  assumes "ParseMinute s = Some mt"
  shows "ParseRFC3339 (normaliseScheduledAt s) = Some (unixNano mt 0 0 0)" and "normaliseScheduledAt s = FormatRFC3339 mt"
proof -
  have "dateToMinute s = Some (mt, [])"
    using assms by (auto simp: ParseMinute_def split: option.splits bind_splits if_splits)
  then have "ParseRFC3339 s = None" by (auto simp: ParseRFC3339_def lit_def split: bind_splits)
  then show n: "normaliseScheduledAt s = FormatRFC3339 mt" using assms by (simp add: normaliseScheduledAt_def)
  show "ParseRFC3339 (normaliseScheduledAt s) = Some (unixNano mt 0 0 0)"
    using Parse_Format[OF assms] n by simp
qed

lemma approve_body:
  "decodeApplyRequest (Some (JObj [(''restartOption'', JStr a), (''scheduledAt'', JStr b)])) = Some \<lparr>RestartOption = a, ScheduledAt = b\<rparr>"
  "decodeApplyRequest (Some (JObj [(''restartOption'', JStr a)])) = Some \<lparr>RestartOption = a, ScheduledAt = []\<rparr>"
  by (simp_all add: decodeApplyRequest_def decodeObject_def setApplyRequest_def decodeString_def lower_keys)

context server_env
begin

lemma ownerApprove_stored:
  assumes "run_state (getRec (K8sClient S) (PathNamespace r) (PathName r)) w = (Inr rec, w1)"
    and "recState rec = StateAwaitingApproval" and "decodeApplyRequest (Body r) = Some req"
  shows "wp (handleOwnerApprove L S r) (\<lambda>resp w'. (\<exists>c b. resp = Response c b \<and> c < 400) \<longrightarrow>
    (\<exists>t new st. trace ev hi w [ClockRead t, RecStatusUpdated rec new] w' \<and> recKey new = recKey rec \<and> Spec new = Spec rec \<and>
       Status new = serStatus st \<and> appliedStatus (HotplugCapable (Spec rec)) req t
         ((Status rec)\<lparr>ApprovedBy := Header r ''X-Approval-Owner'', ApprovedAt := Some t, ApprovalToken := []\<rparr>) = Some st)) w"
    (is "wp _ ?Q w")
proof -
  have t1: "trace ev hi w [] w1" using store.getRec_quiet assms(1) unfolding quiet_def by (metis snd_conv)
  have rec: "rec \<in> hi w1" using store.getRec_stored[OF assms(1)] by simp
  let ?st = "\<lambda>t. appliedStatus (HotplugCapable (Spec rec)) req t
    ((Status rec)\<lparr>ApprovedBy := Header r ''X-Approval-Owner'', ApprovedAt := Some t, ApprovalToken := []\<rparr>)"
  have "wp (do { now \<leftarrow> Now L; case ?st now of None \<Rightarrow> httpError 400 ''invalid scheduledAt format''
      | Some st \<Rightarrow> do { u \<leftarrow> updateRecStatus (K8sClient S) (rec\<lparr>Status := st\<rparr>);
          case u of Inl err \<Rightarrow> internalError | Inr rec2 \<Rightarrow> writeJSON (RecJSON rec2) } }) ?Q w1"
    unfolding wp_bind
  proof (rule time.Now_wp[OF t1], goal_cases)
    case (1 t w2)
    show ?case
    proof (cases "?st t")
      case (Some st)
      have r2: "rec \<in> hi w2" using rec 1 by blast
      show ?thesis unfolding Some option.case wp_bind
      proof (rule store.updateRecStatus_wp[where old = rec, OF 1(1) r2], goal_cases)
        case (4 new u w')
        then show ?case using Some by (cases u) (auto simp: internalError_def)
      qed (auto simp: internalError_def)
    qed simp
  qed
  then show ?thesis using assms(2)
    unfolding handleOwnerApprove_def assms(3) option.case wp_run_bind[OF assms(1)] sum.case by simp
qed

end

text \<open>The run of a form submission with a valid token, up to the backend's answer.\<close>

abbreviation postRequest :: "ApprovalClaims \<Rightarrow> string \<Rightarrow> json \<Rightarrow> BackendRequest" where
  "postRequest c path body \<equiv> \<lparr>BackendMethod = ''POST'', BackendPath = path,
     BackendHeader = [(''Content-Type'', ''application/json''), (''X-Approval-Owner'', ClmOwner c)], BackendBody = Some body\<rparr>"

lemma post_run:
  assumes "Form r = Some f" and "f ''token'' \<noteq> []" and "backendCall c f = Some (path, body)"
    and "run_state (ValidateToken J clk (tokenManager p) (f ''token'')) w = (Inr c, w1)"
    and "plainBackend (backendURL p)" and "plainName (ClmNamespace c)" "plainName (RecName c)"
    and "httpClient p = apiBackend enc L S" and "validHeaderValue (ClmOwner c)"
    and "run_state (ServeHTTP L S (backendRequest (postRequest c path body))) w1 = (resp, w')"
  shows "run_state (handlePostApprove J clk p r) w =
    (case resp of
       Panicking \<Rightarrow> (502, ErrorPage ''Backend Unavailable'' ''Could not reach the backend service. Please try again later.'')
     | Response s b \<Rightarrow> if 400 \<le> s then (502, ErrorPage ''Action Failed''
           (''The backend returned an error (HTTP '' @ show_nat s @ ''). Please try again or contact your administrator.''))
         else fst (run_state (resultFor f) w'), w')"
proof -
  have "validHeaderValue ''application/json''" by code_simp
  then have b: "run_state (httpClient p (postRequest c path body)) w1 =
      (case resp of Panicking \<Rightarrow> Inl ''EOF'' | Response s b \<Rightarrow> Inr (s, enc b), w')"
    using assms(9,10) by (simp add: assms(8) apiBackend_def)
  show ?thesis
    using assms(1-4) backendCall_request[OF assms(3,5-7)] b
    by (cases resp) (simp_all add: handlePostApprove_def Let_def resultFor_def)
qed

text \<open>An approval is what the owner asked for. When the success page is shown for a scheduled
  restart, the recommendation that the token names has been stored as approved by the token's
  owner and waiting for a restart at the minute that was entered, in UTC, and the token is cleared.\<close>

lemma scheduled_approval_stored:
  assumes "server_env L S ev hi" and "httpClient p = apiBackend enc L S" and "plainBackend (backendURL p)"
    and "Form r = Some f" and "f ''token'' \<noteq> []" and "f ''action'' = ''approve''" and "f ''restartOption'' = ''schedule''"
    and "ParseMinute (f ''scheduledAt'') = Some mt"
    and "run_state (ValidateToken (Jwt L) (Now L) (tokenManager p) (f ''token'')) w = (Inr c, w1)"
    and "plainName (ClmNamespace c)" "plainName (RecName c)" and "validHeaderValue (ClmOwner c)" "trimHeader (ClmOwner c) = ClmOwner c"
    and "run_state (getRec (K8sClient S) (ClmNamespace c) (RecName c)) w1 = (Inr rec, w2)"
    and "recState rec = StateAwaitingApproval" and "\<not> HotplugCapable (Spec rec)"
    and "run_state (handlePostApprove (Jwt L) (Now L) p r) w = ((200, pg), w')"
  shows "\<exists>t t' new. trace ev hi w [ClockRead t, ClockRead t', RecStatusUpdated rec new] w' \<and>
    recState new = StateAppliedPendingRestart \<and> ApprovedBy (Status new) = ClmOwner c \<and> ApprovalToken (Status new) = [] \<and>
    ScheduledRestartAt (Status new) = Some (unixNano mt 0 0 0)"
proof -
  have sched: "f ''scheduledAt'' \<noteq> []" using assms(8) by (auto simp: ParseMinute_def dateToMinute_def year4_def getnum_def)
  let ?path = "ownerPath (ClmNamespace c) (RecName c) ''owner-approve''"
  let ?body = "JObj [(''restartOption'', JStr ''schedule''), (''scheduledAt'', JStr (normaliseScheduledAt (f ''scheduledAt'')))]"
  let ?r = "(backendRequest (postRequest c ?path ?body))\<lparr>PathNamespace := ClmNamespace c, PathName := RecName c\<rparr>"
  have call: "backendCall c f = Some (?path, ?body)" using assms(6,7) sched by (simp add: backendCall_def)
  have serve: "ServeHTTP L S (backendRequest (postRequest c ?path ?body)) = handleOwnerApprove L S ?r"
    by (rule serve_owner(1)[OF assms(10,11)]) simp_all
  obtain resp v where run: "run_state (handleOwnerApprove L S ?r) w1 = (resp, v)" by fastforce
  note post = post_run[OF assms(4,5) call assms(9,3,10,11,2,12), unfolded serve, OF run]
  have ok: "\<exists>s b. resp = Response s b \<and> s < 400" and v: "v = w'"
    using post assms(17) by (auto split: Response.splits if_splits)
  have getRec: "run_state (getRec (K8sClient S) (PathNamespace ?r) (PathName ?r)) w1 = (Inr rec, w2)" using assms(14) by simp
  have body: "decodeApplyRequest (Body ?r) = Some \<lparr>RestartOption = ''schedule'', ScheduledAt = normaliseScheduledAt (f ''scheduledAt'')\<rparr>"
    by (simp add: approve_body)
  obtain t' new st where new: "trace ev hi w1 [ClockRead t', RecStatusUpdated rec new] w'" "Status new = serStatus st"
      "appliedStatus (HotplugCapable (Spec rec)) \<lparr>RestartOption = ''schedule'', ScheduledAt = normaliseScheduledAt (f ''scheduledAt'')\<rparr> t'
         ((Status rec)\<lparr>ApprovedBy := Header ?r ''X-Approval-Owner'', ApprovedAt := Some t', ApprovalToken := []\<rparr>) = Some st"
    using wpD[OF server_env.ownerApprove_stored[OF assms(1) getRec assms(15) body] run] ok v by blast
  obtain t where t: "trace ev hi w [ClockRead t] w1" using server_env.ValidateToken_trace[OF assms(1,9)] by blast
  have "Header ?r ''X-Approval-Owner'' = ClmOwner c" by (simp add: backendRequest_def assms(13))
  then have st: "st = (Status rec)\<lparr>ApprovedBy := ClmOwner c, ApprovedAt := Some t', ApprovalToken := [],
      State := StateAppliedPendingRestart, ScheduledRestartAt := Some (unixNano mt 0 0 0)\<rparr>"
    using new(3) assms(16) ParseMinute_normalise(1)[OF assms(8)] by (simp add: appliedStatus_def)
  have "truncSecond (unixNano mt 0 0 0) = unixNano mt 0 0 0"
    by (cases mt) (simp add: truncSecond_def unixNano_def)
  then show ?thesis using trace_trans[OF t new(1)] new(2) st by (intro exI[of _ t] exI[of _ t'] exI[of _ new]) simp
qed

text \<open>C39: choosing to exclude the VM on the approval page rejects the recommendation and does not exclude the VM. The
  proxy sends the member \<open>exclude\<close> where the backend reads \<open>action\<close>, so the decision is handled as a plain
  rejection: the recommendation goes back to pending, with the token's owner and the reason of the form, unless the API server
  refuses, and no virtual machine is patched; yet the success page says that the VM is excluded.\<close>

theorem exclude_patches_nothing:
  assumes "server_env L S ev hi" and "httpClient p = apiBackend enc L S" and "plainBackend (backendURL p)"
    and "Form r = Some f" and "f ''token'' \<noteq> []" and "f ''action'' = ''exclude''"
    and "run_state (ValidateToken (Jwt L) (Now L) (tokenManager p) (f ''token'')) w = (Inr c, w1)"
    and "plainName (ClmNamespace c)" "plainName (RecName c)" and "validHeaderValue (ClmOwner c)"
    and "run_state (getRec (K8sClient S) (ClmNamespace c) (RecName c)) w1 = (Inr rec, w2)"
    and "recState rec = StateAwaitingApproval"
    and "run_state (handlePostApprove (Jwt L) (Now L) p r) w = (resp, w')"
  shows "\<exists>t now upd (u :: 'q recommendation result). trace ev hi w (ClockRead t # ClockRead now # upd) w' \<and>
    stores (K8sClient S) rec ((Status rec)\<lparr>State := StatePending, RejectedBy := trimHeader (ClmOwner c), RejectedAt := Some now,
      RejectionReason := f ''reason'', Owner := [], ApprovalToken := [], NotifiedAt := None\<rparr>) u upd w' \<and>
    (if isl u then fst resp = 502 else resp = (200, ResultPage ''VM Excluded from Rightsizing''
      ''The VM has been excluded from future rightsizing recommendations.''))"
proof -
  let ?path = "ownerPath (ClmNamespace c) (RecName c) ''owner-reject''"
  let ?body = "JObj [(''exclude'', JStr ''true''), (''reason'', JStr (f ''reason''))]"
  let ?r = "(backendRequest (postRequest c ?path ?body))\<lparr>PathNamespace := ClmNamespace c, PathName := RecName c\<rparr>"
  have call: "backendCall c f = Some (?path, ?body)" using assms(6) by (simp add: backendCall_def)
  have serve: "ServeHTTP L S (backendRequest (postRequest c ?path ?body)) = handleOwnerReject L S ?r"
    by (rule serve_owner(2)[OF assms(8,9)]) simp_all
  obtain b v where run: "run_state (handleOwnerReject L S ?r) w1 = (b, v)" by fastforce
  note post = post_run[OF assms(4,5) call assms(7,3,8,9,2,10), unfolded serve, OF run]
  have v: "v = w'" using post assms(13) by simp
  have body: "decodeRejectRequest True (Body ?r) = Some \<lparr>RejReason = f ''reason'', RejAction = []\<rparr>" by (simp add: reject_body)
  have get: "run_state (getRec (K8sClient S) (PathNamespace ?r) (PathName ?r)) w1 = (Inr rec, w2)" using assms(11) by simp
  have owner: "Header ?r ''X-Approval-Owner'' = trimHeader (ClmOwner c)" by (simp add: backendRequest_def)
  obtain es where es: "trace ev hi w1 es w'"
      "owner_rejection S (trimHeader (ClmOwner c)) \<lparr>RejReason = f ''reason'', RejAction = []\<rparr> rec b es w'"
    using wpD[OF server_env.handleOwnerReject_outcome[OF assms(1) body get] run] unfolding v owner by blast
  then obtain now upd u where o: "es = ClockRead now # upd"
      "stores (K8sClient S) rec ((Status rec)\<lparr>State := StatePending, RejectedBy := trimHeader (ClmOwner c), RejectedAt := Some now,
         RejectionReason := f ''reason'', Owner := [], ApprovalToken := [], NotifiedAt := None\<rparr>) u upd w'"
      "case u of Inl (err :: api_error) \<Rightarrow> b = Response 500 (Text ''internal server error'') | Inr rec2 \<Rightarrow> b = Response 200 (RecJSON rec2)"
    using assms(12) by (auto simp: owner_rejection_def exclusion_tried_def)
  obtain t where t: "trace ev hi w [ClockRead t] w1" using server_env.ValidateToken_trace[OF assms(1,7)] by blast
  have "if isl u then fst resp = 502 else resp = (200, ResultPage ''VM Excluded from Rightsizing''
      ''The VM has been excluded from future rightsizing recommendations.'')"
    using post assms(6,13) o(3) by (cases u) (auto simp: resultFor_def)
  then show ?thesis using trace_trans[OF t es(1)] o(1,2)
    by (intro exI[of _ t] exI[of _ now], intro exI[of _ upd], intro exI[of _ u]) simp
qed

section \<open>A concrete link\<close>

definition linkClaims :: ApprovalClaims where
  "linkClaims = \<lparr>Subject = ''alice'', ExpiresAt = Some (2000 * Second), IssuedAt = None, Issuer = ''ovro'',
     ClmNamespace = ''prod'', RecName = ''vm-web'', ClmOwner = ''alice''\<rparr>"

definition memProxy :: "memWorld ApprovalProxy" where
  "memProxy = \<lparr>tokenManager = \<lparr>signingKey = ''k''\<rparr>, backendURL = ''https://ovro-api:8443'',
     httpClient = apiBackend (\<lambda>_. None) memLib (memServer False)\<rparr>"

definition linkForm :: "string \<Rightarrow> (string \<times> string) list \<Rightarrow> string \<Rightarrow> string" where
  "linkForm tok kvs k = (if k = ''token'' then tok else (case map_of kvs k of None \<Rightarrow> [] | Some v \<Rightarrow> v))"

definition linkRequest :: "string \<Rightarrow> (string \<times> string) list \<Rightarrow> Request" where
  "linkRequest tok kvs = (sampleRequest JNull)\<lparr>EscapedPath := ''/approve'', Form := Some (linkForm tok kvs)\<rparr>"

lemma memProxy_simps [simp]: "tokenManager memProxy = \<lparr>signingKey = ''k''\<rparr>"
  "httpClient memProxy = apiBackend (\<lambda>_. None) memLib (memServer False)" "Form (linkRequest tok kvs) = Some (linkForm tok kvs)"
  by (simp_all add: memProxy_def linkRequest_def)

lemma memProxy_plain: "plainBackend (backendURL memProxy)"
  unfolding plainBackend_def memProxy_def
  by (rule exI[of _ "''https''"], rule exI[of _ "''ovro-api:8443''"]) (simp add: isAlnum_def Let_def)

lemma linkClaims_plain: "plainName (ClmNamespace linkClaims)" "plainName (RecName linkClaims)"
  "validHeaderValue (ClmOwner linkClaims)" "trimHeader (ClmOwner linkClaims) = ClmOwner linkClaims"
  by (simp_all add: linkClaims_def plainName_def validHeaderValue_def trimHeader_def isAlnum_def isControl_def Let_def)

text \<open>A token for these claims, and its validation in a world before it expires.\<close>

lemma linkToken:
  obtains tok where "tok \<noteq> []" "\<And>w. wNow w = 1000 * Second \<Longrightarrow>
    run_state (ValidateToken memJwt memNow \<lparr>signingKey = ''k''\<rparr> tok) w = (Inr linkClaims, w\<lparr>wEvents := wEvents w @ [ClockRead (1000 * Second)]\<rparr>)"
proof -
  obtain tok where t: "memSign ''HS256'' ''k'' linkClaims = Inr tok" by (simp add: memSign_def)
  have "memParse (1000 * Second) (keyFunc memJwt \<lparr>signingKey = ''k''\<rparr>) tok = Inr (linkClaims, True)"
    by (rule memParse_sign[OF t]) (simp_all add: keyFunc_def memJwt_def linkClaims_def)
  moreover have "tok \<noteq> []" using t by (auto simp: memSign_def netstring_def)
  ultimately show ?thesis using that
    by (simp add: ValidateToken_def memNow_def memJwt_def)
qed

definition awaitingSample :: "int RightsizingRecommendationStatus" where
  "awaitingSample = emptyStatus\<lparr>State := StateAwaitingApproval, Owner := ''alice'', ApprovalToken := ''t'',
     NotifiedAt := Some 0, RevertConfig := Some (Current sampleSpec)\<rparr>"

definition scheduleForm :: "(string \<times> string) list" where
  "scheduleForm = [(''action'', ''approve''), (''restartOption'', ''schedule''), (''scheduledAt'', ''2026-03-02T05:04'')]"

lemma schedule_minute: "ParseMinute ''2026-03-02T05:04'' = Some (2026, 3, 2, 5, 4)"
  by code_simp

abbreviation linkWorld :: memWorld where
  "linkWorld \<equiv> sampleWorld awaitingSample"

abbreviation linkWorld' :: memWorld where
  "linkWorld' \<equiv> linkWorld\<lparr>wEvents := wEvents linkWorld @ [ClockRead (1000 * Second)]\<rparr>"

lemma linkWorld_get: "run_state (getRec (K8sClient (memServer False)) ''prod'' ''vm-web'') linkWorld' = (Inr (sampleRec awaitingSample), linkWorld')"
  by (simp add: mem_run)

lemma linkClaims_names: "ClmNamespace linkClaims = ''prod''" "RecName linkClaims = ''vm-web''" "ClmOwner linkClaims = ''alice''"
  by (simp_all add: linkClaims_def)

lemma awaiting_facts: "recState (memRec k rv sampleSpec awaitingSample) = StateAwaitingApproval"
  "\<not> HotplugCapable (Spec (memRec k rv sampleSpec awaitingSample))"
  by (simp_all add: memRec_def awaitingSample_def sampleSpec_def)

lemma linkWorld_now: "wNow linkWorld = 1000 * Second"
  by (simp add: sampleWorld_def)

text \<open>The scheduled approval of the sample, run.\<close>

lemma schedule_run:
  assumes "tok \<noteq> []" and "run_state (ValidateToken memJwt memNow \<lparr>signingKey = ''k''\<rparr> tok) linkWorld = (Inr linkClaims, linkWorld')"
  shows "\<exists>pg w'. run_state (handlePostApprove memJwt memNow memProxy (linkRequest tok scheduleForm)) linkWorld = ((200, pg), w')"
proof -
  let ?f = "linkForm tok scheduleForm"
  let ?path = "ownerPath (ClmNamespace linkClaims) (RecName linkClaims) ''owner-approve''"
  let ?body = "JObj [(''restartOption'', JStr ''schedule''), (''scheduledAt'', JStr (FormatRFC3339 (2026, 3, 2, 5, 4)))]"
  let ?b = "postRequest linkClaims ?path ?body"
  have norm: "normaliseScheduledAt ''2026-03-02T05:04'' = FormatRFC3339 (2026, 3, 2, 5, 4)"
    using ParseMinute_normalise(2)[OF schedule_minute] .
  have call: "backendCall linkClaims ?f = Some (?path, ?body)"
    by (simp add: backendCall_def linkForm_def scheduleForm_def norm)
  have serve: "ServeHTTP memLib (memServer False) (backendRequest ?b) =
      handleOwnerApprove memLib (memServer False) ((backendRequest ?b)\<lparr>PathNamespace := ''prod'', PathName := ''vm-web''\<rparr>)"
    using serve_owner(1)[OF linkClaims_plain(1,2), of ?b] by (simp add: linkClaims_def)
  have parse: "ParseRFC3339 (FormatRFC3339 (2026, 3, 2, 5, 4)) = Some (unixNano (2026, 3, 2, 5, 4) 0 0 0)"
    by (rule Parse_Format[OF schedule_minute])
  have "\<exists>x w'. run_state (handleOwnerApprove memLib (memServer False)
      ((backendRequest ?b)\<lparr>PathNamespace := ''prod'', PathName := ''vm-web''\<rparr>)) linkWorld' = (Response 200 x, w')"
    by (simp add: handleOwnerApprove_def approve_body parse appliedStatus_def awaitingSample_def sampleSpec_def mem_run)
  then obtain x w' where run: "run_state (ServeHTTP memLib (memServer False) (backendRequest ?b)) linkWorld' = (Response 200 x, w')"
    unfolding serve by blast
  have "run_state (ValidateToken memJwt memNow (tokenManager memProxy) (?f ''token'')) linkWorld = (Inr linkClaims, linkWorld')"
    using assms(2) by (simp add: linkForm_def)
  from post_run[OF memProxy_simps(3) _ call this memProxy_plain linkClaims_plain(1,2) memProxy_simps(2) linkClaims_plain(3) run] assms(1)
  show ?thesis by (simp add: linkForm_def resultFor_def scheduleForm_def Let_def)
qed

theorem exclude_patches_nothing_witness:
  "\<exists>tok t now upd (u :: int recommendation result) w'.
    snd (run_state (handlePostApprove memJwt memNow memProxy (linkRequest tok [(''action'', ''exclude''), (''reason'', ''no'')])) linkWorld) = w' \<and>
    trace wEvents memHist linkWorld ([ClockRead t, ClockRead now] @ upd) w' \<and>
    stores memClient (sampleRec awaitingSample) (awaitingSample\<lparr>State := StatePending, RejectedBy := ''alice'', RejectedAt := Some now,
      RejectionReason := ''no'', Owner := [], ApprovalToken := [], NotifiedAt := None\<rparr>) u upd w'"
proof -
  obtain tok where tok: "tok \<noteq> []" "run_state (ValidateToken memJwt memNow \<lparr>signingKey = ''k''\<rparr> tok) linkWorld = (Inr linkClaims, linkWorld')"
    using linkToken linkWorld_now by metis
  let ?form = "[(''action'', ''exclude''), (''reason'', ''no'')]"
  let ?run = "run_state (handlePostApprove memJwt memNow memProxy (linkRequest tok ?form)) linkWorld"
  have status: "Status (memRec k rv sampleSpec awaitingSample) = awaitingSample" for k rv by (simp add: memRec_def)
  from exclude_patches_nothing[OF mem.server_env_axioms[of False] memProxy_simps(2) memProxy_plain memProxy_simps(3)[of tok ?form],
      where c = linkClaims and ?w1.0 = linkWorld' and ?w2.0 = linkWorld' and w = linkWorld and rec = "sampleRec awaitingSample"
        and w' = "snd ?run" and resp = "fst ?run"]
  have "\<exists>t now upd (u :: int recommendation result). trace wEvents memHist linkWorld (ClockRead t # ClockRead now # upd) (snd ?run) \<and>
    stores memClient (sampleRec awaitingSample) (awaitingSample\<lparr>State := StatePending, RejectedBy := ''alice'', RejectedAt := Some now,
      RejectionReason := ''no'', Owner := [], ApprovalToken := [], NotifiedAt := None\<rparr>) u upd (snd ?run)"
    using tok linkWorld_get awaiting_facts(1) linkClaims_plain
    by (simp add: linkForm_def status linkClaims_plain[unfolded linkClaims_names] linkClaims_names) blast
  then show ?thesis by (intro exI[of _ tok]) simp
qed

lemma schedule_stored:
  assumes "tok \<noteq> []" "run_state (ValidateToken memJwt memNow \<lparr>signingKey = ''k''\<rparr> tok) linkWorld = (Inr linkClaims, linkWorld')"
    and "run_state (handlePostApprove memJwt memNow memProxy (linkRequest tok scheduleForm)) linkWorld = ((200, pg), w')"
  shows "\<exists>t t' new. trace wEvents memHist linkWorld [ClockRead t, ClockRead t', RecStatusUpdated (sampleRec awaitingSample) new] w'"
  using scheduled_approval_stored[OF mem.server_env_axioms[of False] memProxy_simps(2) memProxy_plain
      memProxy_simps(3)[of tok scheduleForm], where c = linkClaims and ?w1.0 = linkWorld' and ?w2.0 = linkWorld' and mt = "(2026, 3, 2, 5, 4)" and pg = pg and w' = w' and w = linkWorld and rec = "sampleRec awaitingSample"]
    assms linkWorld_get
  by (simp add: linkForm_def scheduleForm_def schedule_minute linkClaims_plain
        linkClaims_plain[unfolded linkClaims_names] linkClaims_names awaiting_facts) blast

lemma linkRequest_served:
  "proxyServeHTTP memJwt memNow memProxy (linkRequest tok kvs) = handlePostApprove memJwt memNow memProxy (linkRequest tok kvs)"
proof -
  have "pathSegments (linkRequest tok kvs) = [''approve'']"
    by (simp add: pathSegments_def linkRequest_def TrimPrefix_def Split_no_sep)
  moreover have "cleanPath (linkRequest tok kvs)" unfolding cleanPath_def calculation by (simp add: linkRequest_def)
  moreover have "handlePostApprove memJwt memNow memProxy (withPathValues vs r) = handlePostApprove memJwt memNow memProxy r" for vs r
    by (auto simp: handlePostApprove_def withPathValues_def split: list.splits)
  moreover have "Method (linkRequest tok kvs) = ''POST''" by (simp add: linkRequest_def sampleRequest_def)
  ultimately show ?thesis
    by (simp add: proxyServeHTTP_def proxyRoutes_def methodMatches_def)
qed

theorem proxy_token_scope_witness:
  "\<exists>tok es new w'. snd (run_state (proxyServeHTTP memJwt memNow memProxy (linkRequest tok scheduleForm)) linkWorld) = w' \<and>
    trace wEvents memHist linkWorld es w' \<and> RecStatusUpdated (sampleRec awaitingSample) new \<in> set es \<and>
    list_all (statusOnly ''prod'' ''vm-web'') es"
proof -
  obtain tok where tok: "tok \<noteq> []" "run_state (ValidateToken memJwt memNow \<lparr>signingKey = ''k''\<rparr> tok) linkWorld = (Inr linkClaims, linkWorld')"
    using linkToken linkWorld_now by metis
  obtain pg w' where run: "run_state (handlePostApprove memJwt memNow memProxy (linkRequest tok scheduleForm)) linkWorld = ((200, pg), w')"
    using schedule_run[OF tok] by blast
  then obtain t t' new where new: "trace wEvents memHist linkWorld [ClockRead t, ClockRead t', RecStatusUpdated (sampleRec awaitingSample) new] w'"
    using schedule_stored[OF tok] by blast
  have empty: "\<not> (\<exists>c w1. run_state (ValidateToken memJwt memNow \<lparr>signingKey = ''k''\<rparr> []) linkWorld = (Inr c, w1))"
    by (simp add: ValidateToken_def memNow_def memJwt_def memParse_def eval_nat_numeral)
  have serve: "run_state (proxyServeHTTP (Jwt memLib) (Now memLib) memProxy (linkRequest tok scheduleForm)) linkWorld = ((200, pg), w')"
    using run linkRequest_served by simp
  obtain es where es: "trace wEvents memHist linkWorld es w'" and scope: "list_all isClock es \<or>
     (\<exists>tok' c w1. requestToken (linkRequest tok scheduleForm) tok' \<and>
        run_state (ValidateToken memJwt memNow \<lparr>signingKey = ''k''\<rparr> tok') linkWorld = (Inr c, w1) \<and> allAllowed es \<and>
        (plainName (ClmNamespace c) \<and> plainName (RecName c) \<longrightarrow> list_all (statusOnly (ClmNamespace c) (RecName c)) es))"
    using proxy_token_scope[OF mem.server_env_axioms[of False] memProxy_simps(2) memProxy_plain serve]
    unfolding memLib_simps memProxy_simps by blast
  have list: "es = [ClockRead t, ClockRead t', RecStatusUpdated (sampleRec awaitingSample) new]"
    using es new by (simp add: trace_def)
  have "requestToken (linkRequest tok scheduleForm) tok' \<Longrightarrow> tok' = [] \<or> tok' = tok" for tok'
    by (auto simp: requestToken_def linkRequest_def linkForm_def sampleRequest_def)
  then have "list_all (statusOnly ''prod'' ''vm-web'') es"
    using scope list empty tok linkClaims_plain(1,2) linkClaims_names by fastforce
  then show ?thesis using es list run linkRequest_served by (intro exI[of _ tok] exI[of _ es]) auto
qed

section \<open>The approval page\<close>

text \<open>\<open>json.Encode\<close> of a recommendation as far as the proxy reads it: the whole spec, between the
  other members of the object (\<open>metadata\<close>, \<open>status\<close>). \<open>num\<close> is how the encoder writes a float.\<close>

definition encodeResource :: "'q quantity_lib \<Rightarrow> 'q ResourceSpec \<Rightarrow> json" where
  "encodeResource Q rs = JObj [
     (''cpu'', JObj [(''cores'', JNum (Cores (CPU rs))), (''sockets'', JNum (Sockets (CPU rs))), (''threads'', JNum (Threads (CPU rs)))]),
     (''memory'', JStr (QString Q (Memory rs)))]"

definition encodeMetrics :: "(float64 \<Rightarrow> json) \<Rightarrow> MetricsSnapshot \<Rightarrow> json" where
  "encodeMetrics num m = JObj [
     (''lookbackDays'', JNum (SnapLookbackDays m)), (''cpuP95Percent'', num (CPUP95Percent m)),
     (''memoryP95Percent'', num (MemoryP95Percent m)), (''cpuMaxPercent'', num (CPUMaxPercent m)),
     (''memoryMaxPercent'', num (MemoryMaxPercent m))]"

definition encodeSpec :: "(float64 \<Rightarrow> json) \<Rightarrow> 'q quantity_lib \<Rightarrow> 'q RightsizingRecommendationSpec \<Rightarrow> json" where
  "encodeSpec num Q sp = JObj ([
     (''virtualMachineRef'', JObj [(''name'', JStr (RefName (VirtualMachineRef sp))),
        (''namespace'', JStr (RefNamespace (VirtualMachineRef sp)))]),
     (''direction'', JStr (Direction sp)),
     (''current'', encodeResource Q (Current sp)),
     (''recommended'', encodeResource Q (Recommended sp)),
     (''savings'', JObj [(''cpu'', JNum (SavingsCPU (Savings sp))), (''memory'', JStr (QString Q (SavingsMemory (Savings sp))))]),
     (''metrics'', encodeMetrics num (Metrics sp)),
     (''hotplugCapable'', JBool (HotplugCapable sp))] @
     (if Reason sp = [] then [] else [(''reason'', JStr (Reason sp))]))"

definition encodeRec :: "(string \<times> json) list \<Rightarrow> (string \<times> json) list \<Rightarrow> (float64 \<Rightarrow> json) \<Rightarrow> 'q quantity_lib \<Rightarrow>
    'q recommendation \<Rightarrow> json" where
  "encodeRec before after num Q rec = JObj (before @ [(''spec'', encodeSpec num Q (Spec rec))] @ after)"

definition otherMembers :: "(string \<times> json) list \<Rightarrow> bool" where
  "otherMembers kvs \<longleftrightarrow> list_all (\<lambda>kv. ToLower (fst kv) \<noteq> ''spec'') kvs"

text \<open>The recommendation as the page shows it.\<close>

definition shownSpec :: "'q quantity_lib \<Rightarrow> 'q RightsizingRecommendationSpec \<Rightarrow> backendRecommendation" where
  "shownSpec Q sp = \<lparr>BkVMName = RefName (VirtualMachineRef sp), BkVMNamespace = RefNamespace (VirtualMachineRef sp),
     BkDirection = Direction sp,
     BkCurrentCores = Cores (CPU (Current sp)), BkCurrentMemory = QString Q (Memory (Current sp)),
     BkRecommendedCores = Cores (CPU (Recommended sp)), BkRecommendedMemory = QString Q (Memory (Recommended sp)),
     BkSavingsCPU = SavingsCPU (Savings sp), BkSavingsMemory = QString Q (SavingsMemory (Savings sp)),
     BkLookbackDays = SnapLookbackDays (Metrics sp),
     BkCPUP95Percent = CPUP95Percent (Metrics sp), BkMemoryP95Percent = MemoryP95Percent (Metrics sp),
     BkCPUMaxPercent = CPUMaxPercent (Metrics sp), BkMemoryMaxPercent = MemoryMaxPercent (Metrics sp),
     BkHotplugCapable = HotplugCapable sp\<rparr>"

text \<open>The integers of a spec are within their Go types.\<close>

definition typedSpec :: "'q RightsizingRecommendationSpec \<Rightarrow> bool" where
  "typedSpec sp \<longleftrightarrow> is_i32 (Cores (CPU (Current sp))) \<and> is_i32 (Cores (CPU (Recommended sp))) \<and>
     is_i32 (SavingsCPU (Savings sp)) \<and> is_i64 (SnapLookbackDays (Metrics sp))"

text \<open>The encoder writes each of these floats as a number that reads back as the same float.\<close>

definition exactNumbers :: "(float64 \<Rightarrow> json) \<Rightarrow> MetricsSnapshot \<Rightarrow> bool" where
  "exactNumbers num m \<longleftrightarrow> (\<forall>f \<in> {CPUP95Percent m, MemoryP95Percent m, CPUMaxPercent m, MemoryMaxPercent m}.
     \<forall>cur. decodeFloat (num f) cur = Some f)"

lemma spec_keys:
  "ToLower ''virtualMachineRef'' = ''virtualmachineref''" "ToLower ''name'' = ''name''" "ToLower ''namespace'' = ''namespace''"
  "ToLower ''direction'' = ''direction''" "ToLower ''current'' = ''current''" "ToLower ''recommended'' = ''recommended''"
  "ToLower ''savings'' = ''savings''" "ToLower ''metrics'' = ''metrics''" "ToLower ''hotplugCapable'' = ''hotplugcapable''"
  "ToLower ''cpu'' = ''cpu''" "ToLower ''cores'' = ''cores''" "ToLower ''sockets'' = ''sockets''" "ToLower ''threads'' = ''threads''"
  "ToLower ''memory'' = ''memory''" "ToLower ''lookbackDays'' = ''lookbackdays''" "ToLower ''cpuP95Percent'' = ''cpup95percent''"
  "ToLower ''memoryP95Percent'' = ''memoryp95percent''" "ToLower ''cpuMaxPercent'' = ''cpumaxpercent''"
  "ToLower ''memoryMaxPercent'' = ''memorymaxpercent''" "ToLower ''spec'' = ''spec''"
  by code_simp+

lemma decodeMembers_append:
  "decodeMembers upd (xs @ ys) acc = (case decodeMembers upd xs acc of None \<Rightarrow> None | Some a \<Rightarrow> decodeMembers upd ys a)"
  by (induction upd xs acc rule: decodeMembers.induct) (auto split: option.splits)

lemma decodeMembers_other:
  "otherMembers kvs \<Longrightarrow> decodeMembers (\<lambda>k v b. if k = ''spec'' then f v b else Some b) kvs acc = Some acc"
  by (induction kvs arbitrary: acc) (auto simp: otherMembers_def)

lemma decode_resource:
  assumes "is_i32 (Cores (CPU rs))"
  shows "decodeObject setCurrent (encodeResource Q rs) b = Some (b\<lparr>BkCurrentCores := Cores (CPU rs), BkCurrentMemory := QString Q (Memory rs)\<rparr>)"
    and "decodeObject setRecommended (encodeResource Q rs) b = Some (b\<lparr>BkRecommendedCores := Cores (CPU rs), BkRecommendedMemory := QString Q (Memory rs)\<rparr>)"
  using assms
  by (simp_all add: encodeResource_def decodeObject_def setCurrent_def setRecommended_def setCores_def decodeInt_def decodeString_def
      spec_keys lower_keys)

lemma decode_metrics:
  assumes "is_i64 (SnapLookbackDays m)" and "exactNumbers num m"
  shows "decodeObject setMetrics (encodeMetrics num m) b = Some (b\<lparr>BkLookbackDays := SnapLookbackDays m,
    BkCPUP95Percent := CPUP95Percent m, BkMemoryP95Percent := MemoryP95Percent m, BkCPUMaxPercent := CPUMaxPercent m,
    BkMemoryMaxPercent := MemoryMaxPercent m\<rparr>)"
  using assms by (simp add: exactNumbers_def encodeMetrics_def decodeObject_def setMetrics_def decodeInt_def spec_keys)

lemma decode_spec:
  assumes "typedSpec sp" and "exactNumbers num (Metrics sp)"
  shows "decodeObject setBackendSpec (encodeSpec num Q sp) zeroBackend = Some (shownSpec Q sp)"
  using assms
  by (simp add: typedSpec_def encodeSpec_def decodeObject_def[of setBackendSpec] setBackendSpec_def spec_keys lower_keys
      decode_resource decode_metrics decodeString_def decodeBool_def decodeInt_def setRef_def setSavings_def zeroBackend_def shownSpec_def
      decodeObject_def[of setRef] decodeObject_def[of setSavings])

lemma decodeBackend_encodeRec:
  assumes "typedSpec (Spec rec)" and "exactNumbers num (Metrics (Spec rec))" and "otherMembers before" "otherMembers after"
  shows "decodeBackend (Some (encodeRec before after num Q rec)) = Some (shownSpec Q (Spec rec))"
  using assms
  by (simp add: decodeBackend_def encodeRec_def decodeObject_def[where j = "JObj kvs" for kvs] decodeMembers_append
      decodeMembers_other spec_keys decode_spec)

lemma approval_page_data:
  assumes "httpClient p = apiBackend enc L S" and "plainBackend (backendURL p)"
    and "Query r ''token'' \<noteq> []"
    and "run_state (ValidateToken (Jwt L) (Now L) (tokenManager p) (Query r ''token'')) w = (Inr c, w1)"
    and "plainName (ClmNamespace c)" "plainName (RecName c)"
    and "run_state (getRec (K8sClient S) (ClmNamespace c) (RecName c)) w1 = (Inr rec, w2)"
    and "enc (RecJSON rec) = Some (encodeRec before after num (Quantities L) rec)"
    and "otherMembers before" "otherMembers after" "typedSpec (Spec rec)" "exactNumbers num (Metrics (Spec rec))"
  shows "run_state (handleGetApprove (Jwt L) (Now L) p r) w =
    ((200, ApprovalPage (pageData (shownSpec (Quantities L) (Spec rec)) (Query r ''token'') (ClmOwner c))), w2)"
proof -
  let ?b = "\<lparr>BackendMethod = ''GET'', BackendPath = internalPath (ClmNamespace c) (RecName c), BackendHeader = [], BackendBody = None\<rparr>"
  have path: "NewRequestPath (backendURL p @ internalPath (ClmNamespace c) (RecName c)) = Some (internalPath (ClmNamespace c) (RecName c))"
    using ownerPath_request(2)[OF assms(2,5,6,5)] .
  have "ServeHTTP L S (backendRequest ?b) = handleGetRecommendation S
      ((backendRequest ?b)\<lparr>PathNamespace := ClmNamespace c, PathName := RecName c\<rparr>)"
    by (rule serve_get[OF assms(5,6)]) simp_all
  then have "run_state (ServeHTTP L S (backendRequest ?b)) w1 = (Response 200 (RecJSON rec), w2)"
    using assms(7) by (simp add: handleGetRecommendation_def)
  then have "run_state (httpClient p ?b) w1 = (Inr (200, Some (encodeRec before after num (Quantities L) rec)), w2)"
    using assms(8) by (simp add: assms(1) apiBackend_def)
  then have "run_state (fetchRecommendation p (ClmNamespace c) (RecName c)) w1 = (Some (shownSpec (Quantities L) (Spec rec)), w2)"
    using decodeBackend_encodeRec[OF assms(11,12,9,10)] by (simp add: fetchRecommendation_def path)
  then show ?thesis using assms(3,4) by (simp add: handleGetApprove_def Let_def)
qed

text \<open>C16: the approval page shows the recommendation that the token names: each of its fields is the
  field of that name of the stored spec, with quantities as the text of the quantity, across the encoding by the API server and the
  decoding by the proxy; the token is the one of the link and the owner the one the token was made for.\<close>

theorem approval_page_faithful:
  assumes "httpClient p = apiBackend enc L S" and "plainBackend (backendURL p)"
    and "Query r ''token'' \<noteq> []"
    and "run_state (ValidateToken (Jwt L) (Now L) (tokenManager p) (Query r ''token'')) w = (Inr c, w1)"
    and "plainName (ClmNamespace c)" "plainName (RecName c)"
    and "run_state (getRec (K8sClient S) (ClmNamespace c) (RecName c)) w1 = (Inr rec, w2)"
    and "enc (RecJSON rec) = Some (encodeRec before after num (Quantities L) rec)"
    and "otherMembers before" "otherMembers after" "typedSpec (Spec rec)" "exactNumbers num (Metrics (Spec rec))"
  shows "\<exists>d. run_state (handleGetApprove (Jwt L) (Now L) p r) w = ((200, ApprovalPage d), w2) \<and>
    PageVMName d = RefName (VirtualMachineRef (Spec rec)) \<and> PageNamespace d = RefNamespace (VirtualMachineRef (Spec rec)) \<and>
    PageDirection d = Direction (Spec rec) \<and>
    PageCurrentCPU d = Cores (CPU (Current (Spec rec))) \<and> PageRecommendedCPU d = Cores (CPU (Recommended (Spec rec))) \<and>
    PageCurrentMemory d = QString (Quantities L) (Memory (Current (Spec rec))) \<and>
    PageRecommendedMemory d = QString (Quantities L) (Memory (Recommended (Spec rec))) \<and>
    PageCPUSavings d = SavingsCPU (Savings (Spec rec)) \<and>
    PageMemorySavings d = QString (Quantities L) (SavingsMemory (Savings (Spec rec))) \<and>
    PageCPUP95 d = CPUP95Percent (Metrics (Spec rec)) \<and> PageMemP95 d = MemoryP95Percent (Metrics (Spec rec)) \<and>
    PageCPUMax d = CPUMaxPercent (Metrics (Spec rec)) \<and> PageMemMax d = MemoryMaxPercent (Metrics (Spec rec)) \<and>
    PageLookbackDays d = SnapLookbackDays (Metrics (Spec rec)) \<and> PageHotplugCapable d = HotplugCapable (Spec rec) \<and>
    PageToken d = Query r ''token'' \<and> PageOwner d = ClmOwner c"
  unfolding approval_page_data[OF assms] by (simp add: pageData_def shownSpec_def)

fun pageEncoder :: "int content \<Rightarrow> json option" where
  "pageEncoder (RecJSON rec) = Some (encodeRec [] [] (JReal []) memQuantities rec)" |
  "pageEncoder _ = None"

definition pageProxy :: "memWorld ApprovalProxy" where
  "pageProxy = memProxy\<lparr>httpClient := apiBackend pageEncoder memLib (memServer False)\<rparr>"

lemma sampleSpec_typed: "typedSpec sampleSpec" "exactNumbers (JReal []) (Metrics sampleSpec)" "otherMembers []"
  by (simp_all add: typedSpec_def exactNumbers_def sampleSpec_def is_i32_def is_i64_def decodeFloat_def otherMembers_def)

theorem approval_page_faithful_witness:
  "\<exists>tok d. fst (run_state (handleGetApprove memJwt memNow pageProxy ((sampleRequest JNull)\<lparr>Query := (\<lambda>_. tok)\<rparr>)) linkWorld) =
      (200, ApprovalPage d) \<and>
    PageVMName d = ''web'' \<and> PageCurrentCPU d = Cores (CPU (Current sampleSpec)) \<and> PageRecommendedCPU d = Cores (CPU (Recommended sampleSpec)) \<and>
    PageCPUP95 d = CPUP95Percent (Metrics sampleSpec) \<and> PageToken d = tok \<and> PageOwner d = ''alice''"
proof -
  obtain tok where tok: "tok \<noteq> []" "run_state (ValidateToken memJwt memNow \<lparr>signingKey = ''k''\<rparr> tok) linkWorld = (Inr linkClaims, linkWorld')"
    using linkToken linkWorld_now by metis
  let ?r = "(sampleRequest JNull)\<lparr>Query := (\<lambda>_. tok)\<rparr>"
  have spec: "Spec (sampleRec awaitingSample) = sampleSpec" by (simp add: memRec_def)
  have get: "run_state (getRec (K8sClient (memServer False)) (ClmNamespace linkClaims) (RecName linkClaims)) linkWorld' =
      (Inr (sampleRec awaitingSample), linkWorld')"
    unfolding linkClaims_names by (rule linkWorld_get)
  have "\<exists>d. run_state (handleGetApprove (Jwt memLib) (Now memLib) pageProxy ?r) linkWorld = ((200, ApprovalPage d), linkWorld') \<and>
      PageVMName d = RefName (VirtualMachineRef (Spec (sampleRec awaitingSample))) \<and>
      PageCurrentCPU d = Cores (CPU (Current (Spec (sampleRec awaitingSample)))) \<and>
      PageRecommendedCPU d = Cores (CPU (Recommended (Spec (sampleRec awaitingSample)))) \<and>
      PageCPUP95 d = CPUP95Percent (Metrics (Spec (sampleRec awaitingSample))) \<and> PageToken d = Query ?r ''token'' \<and> PageOwner d = ClmOwner linkClaims"
    using approval_page_faithful[where p = pageProxy and r = ?r and w = linkWorld and c = linkClaims and L = memLib and rec = "sampleRec awaitingSample"
        and enc = pageEncoder and S = "memServer False" and ?w1.0 = linkWorld' and ?w2.0 = linkWorld' and before = "[]" and after = "[]" and num = "JReal []",
        OF _ _ _ _ _ _ get] tok memProxy_plain
    by (simp add: pageProxy_def linkClaims_plain sampleSpec_typed memRec_def) blast
  then obtain d where "run_state (handleGetApprove memJwt memNow pageProxy ?r) linkWorld = ((200, ApprovalPage d), linkWorld')"
      "PageVMName d = ''web''" "PageCurrentCPU d = Cores (CPU (Current sampleSpec))" "PageRecommendedCPU d = Cores (CPU (Recommended sampleSpec))"
      "PageCPUP95 d = CPUP95Percent (Metrics sampleSpec)" "PageToken d = tok" "PageOwner d = ''alice''"
    unfolding spec linkClaims_names by (auto simp: sampleSpec_def)
  then show ?thesis by (intro exI[of _ tok] exI[of _ d]) simp
qed

end
