(* ===== verification/Forwarders.thy ===== *)
theory Forwarders
  imports Notifier Http "HOL-Library.Sublist"
begin

text \<open>
  The notification channels (\<open>internal/notifier/*.go\<close>) and the construction of the dispatcher from
  its configuration.

  \<^item> The HTTP client is a parameter: a function from the request to an error or an answer, whose
    body is kept as text and as the JSON value in it (\<open>None\<close>: not JSON). The mail server is the
    parameter \<open>smtp_lib\<close>: what the commands of \<open>net/smtp\<close> do on a connection.
  \<^item> The secrets are read once, at start-up: \<open>GetSecretData\<close> is a function of name and namespace.
  \<^item> \<open>json.Marshal\<close> of a payload is its JSON value, with the members in the order of the
    source. Error texts quote strings without escapes.
\<close>

section \<open>Configuration\<close>

record ForwarderConfig =
  CfgType :: string
  CfgEnabled :: bool
  CfgChannel :: string
  CfgSecretRef :: string
  CfgFrom :: string
  CfgTo :: string
  CfgSMTPServer :: string
  CfgSMTPPort :: int
  CfgSMTPTLS :: string
  CfgSMTPTLSSkipVerify :: bool
  CfgHost :: string
  CfgPort :: int
  CfgCommunity :: string
  CfgServerURL :: string
  CfgInstanceURL :: string
  CfgAssignmentGroup :: string
  CfgCategory :: string

record NotifierConfig =
  CfgForwarders :: "ForwarderConfig list"

type_synonym secret_getter = "string \<Rightarrow> string \<Rightarrow> string + string strmap"

section \<open>HTTP\<close>

datatype payload = NoBody | JSONBody json | FormBody string

record OutRequest =
  OutMethod :: string
  OutURL :: string
  OutHeader :: "(string \<times> string) list"
  OutBody :: payload

record OutResponse =
  OutStatus :: nat
  OutText :: string
  OutJSON :: "json option"

type_synonym 'w default_client = "OutRequest \<Rightarrow> ('w, string + OutResponse) state"

definition NewRequest :: "string \<Rightarrow> string \<Rightarrow> (string \<times> string) list \<Rightarrow> payload \<Rightarrow> OutRequest option" where
  "NewRequest m url hdr b = (if NewRequestPath url = None then None
     else Some \<lparr>OutMethod = m, OutURL = url, OutHeader = hdr, OutBody = b\<rparr>)"

abbreviation jsonHeader :: "string \<times> string" where
  "jsonHeader \<equiv> (''Content-Type'', ''application/json'')"

abbreviation bearer :: "string \<Rightarrow> string \<times> string" where
  "bearer token \<equiv> (''Authorization'', ''Bearer '' @ token)"

text \<open>A request whose answer counts by its status code alone.\<close>

definition postExpecting :: "'w default_client \<Rightarrow> OutRequest option \<Rightarrow> nat set \<Rightarrow> string \<Rightarrow> string \<Rightarrow>
    ('w, string option) state" where
  "postExpecting http req accepted creating sending = (case req of
      None \<Rightarrow> ret (Some creating)
    | Some r \<Rightarrow> do {
        resp \<leftarrow> http r;
        ret (case resp of
          Inl err \<Rightarrow> Some (sending @ '': '' @ err)
        | Inr a \<Rightarrow> if OutStatus a \<in> accepted then None
            else Some (''unexpected status code: '' @ show_nat (OutStatus a)))
      })"

text \<open>The text that the channels share: one line per fact.\<close>

abbreviation nl :: string where "nl \<equiv> [CHR 10]"

definition facts :: "string \<Rightarrow> string \<Rightarrow> string \<Rightarrow> string \<Rightarrow> Notification \<Rightarrow> string" where
  "facts open' close' eol memUnit n =
    open' @ ''VM:'' @ close' @ '' '' @ VMName n @ eol @
    open' @ ''Namespace:'' @ close' @ '' '' @ NtfNamespace n @ eol @
    open' @ ''Owner:'' @ close' @ '' '' @ NtfOwner n @ eol @
    open' @ ''Direction:'' @ close' @ '' '' @ NtfDirection n @ eol @
    open' @ ''Current:'' @ close' @ '' '' @ show_int (CurrentCPU n) @ '' CPU, '' @ show_int (CurrentMemory n) @ '' '' @
      memUnit @ '' Memory'' @ eol @
    open' @ ''Recommended:'' @ close' @ '' '' @ show_int (RecCPU n) @ '' CPU, '' @ show_int (RecMemory n) @ '' '' @
      memUnit @ '' Memory'' @ eol"

section \<open>Slack\<close>

record SlackForwarder =
  botToken :: string
  slackFallback :: string

definition NewSlackForwarder :: "secret_getter \<Rightarrow> ForwarderConfig \<Rightarrow> string + SlackForwarder" where
  "NewSlackForwarder G cfg =
    (if CfgSecretRef cfg = [] then Inl ''slack forwarder requires secretRef''
     else (case G (CfgSecretRef cfg) ''ovro-system'' of
         Inl err \<Rightarrow> Inl (''failed to get secret: '' @ err)
       | Inr data \<Rightarrow> (case data ''botToken'' of
           None \<Rightarrow> Inl ''secret missing botToken key''
         | Some t \<Rightarrow> Inr \<lparr>botToken = t, slackFallback = CfgChannel cfg\<rparr>)))"

record SlackResult =
  SlackOK :: bool
  SlackError :: string
  SlackUserID :: string

definition setSlackUser :: "string \<Rightarrow> json \<Rightarrow> SlackResult \<Rightarrow> SlackResult option" where
  "setSlackUser k v r = (if k = ''id'' then map_option (\<lambda>s. r\<lparr>SlackUserID := s\<rparr>) (decodeString v (SlackUserID r)) else Some r)"

definition setSlackResult :: "bool \<Rightarrow> string \<Rightarrow> json \<Rightarrow> SlackResult \<Rightarrow> SlackResult option" where
  "setSlackResult withUser k v r =
    (if k = ''ok'' then map_option (\<lambda>b. r\<lparr>SlackOK := b\<rparr>) (decodeBool v (SlackOK r))
     else if k = ''error'' then map_option (\<lambda>s. r\<lparr>SlackError := s\<rparr>) (decodeString v (SlackError r))
     else if withUser \<and> k = ''user'' then decodeObject setSlackUser v r
     else Some r)"

definition decodeSlack :: "bool \<Rightarrow> json option \<Rightarrow> SlackResult option" where
  "decodeSlack withUser b = (case b of
      None \<Rightarrow> None
    | Some j \<Rightarrow> decodeObject (setSlackResult withUser) j \<lparr>SlackOK = False, SlackError = [], SlackUserID = []\<rparr>)"

definition lookupUserByEmail :: "'w default_client \<Rightarrow> SlackForwarder \<Rightarrow> string \<Rightarrow> ('w, string + string) state" where
  "lookupUserByEmail http s email =
    (case NewRequest ''GET'' (''https://slack.com/api/users.lookupByEmail?email='' @ QueryEscape email) [bearer (botToken s)] NoBody of
       None \<Rightarrow> ret (Inl ''parse'')
     | Some req \<Rightarrow> do {
         resp \<leftarrow> http req;
         ret (case resp of
           Inl err \<Rightarrow> Inl err
         | Inr a \<Rightarrow> (case decodeSlack True (OutJSON a) of
             None \<Rightarrow> Inl ''unmarshal''
           | Some r \<Rightarrow> if \<not> SlackOK r then Inl (''users.lookupByEmail: '' @ SlackError r) else Inr (SlackUserID r)))
       })"

text \<open>\<open>owner[:strings.Index(owner, "@")]\<close>, for an owner with an \<open>@\<close>.\<close>

definition beforeAt :: "string \<Rightarrow> string" where
  "beforeAt owner = takeWhile (\<lambda>c. c \<noteq> CHR ''@'') owner"

definition fallbackOr :: "SlackForwarder \<Rightarrow> string \<Rightarrow> string + string" where
  "fallbackOr s owner = (if slackFallback s \<noteq> [] then Inr (slackFallback s)
     else Inl (''no channel resolved: owner '' @ owner @ '' is not a channel or known email, and no fallback channel configured''))"

definition resolveChannel :: "'w default_client \<Rightarrow> SlackForwarder \<Rightarrow> string \<Rightarrow> ('w, string + string) state" where
  "resolveChannel http s owner =
    (if HasPrefix owner ''#'' \<or> HasPrefix owner ''C'' then ret (Inr owner)
     else if CHR ''@'' \<in> set owner then do {
       r \<leftarrow> lookupUserByEmail http s (beforeAt owner);
       case r of
         Inr (c # cs) \<Rightarrow> ret (Inr (c # cs))
       | _ \<Rightarrow> do {
           r' \<leftarrow> lookupUserByEmail http s owner;
           ret (case r' of Inr (c # cs) \<Rightarrow> Inr (c # cs) | _ \<Rightarrow> fallbackOr s owner)
         }
     }
     else ret (fallbackOr s owner))"

definition slackMessage :: "Notification \<Rightarrow> string" where
  "slackMessage n = ''*VM Rightsizing Recommendation*'' @ nl @ nl @ facts ''*'' ''*'' nl ''GiB'' n @ nl @
     ''<'' @ ApprovalURL n @ ''|Approve/Reject>''"

definition slackSend :: "'w default_client \<Rightarrow> SlackForwarder \<Rightarrow> Notification \<Rightarrow> ('w, string option) state" where
  "slackSend http s n = do {
     ch \<leftarrow> resolveChannel http s (NtfOwner n);
     case ch of
       Inl err \<Rightarrow> ret (Some (''resolving slack channel for owner '' @ NtfOwner n @ '': '' @ err))
     | Inr channel \<Rightarrow>
         (case NewRequest ''POST'' ''https://slack.com/api/chat.postMessage'' [jsonHeader, bearer (botToken s)]
             (JSONBody (JObj [(''channel'', JStr channel), (''text'', JStr (slackMessage n))])) of
            None \<Rightarrow> ret (Some ''creating request'')
          | Some req \<Rightarrow> do {
              resp \<leftarrow> http req;
              ret (case resp of
                Inl err \<Rightarrow> Some (''sending request: '' @ err)
              | Inr a \<Rightarrow> (case decodeSlack False (OutJSON a) of
                  None \<Rightarrow> Some ''parsing slack response''
                | Some r \<Rightarrow> if \<not> SlackOK r then Some (''slack API error: '' @ SlackError r) else None))
            })
   }"

section \<open>Teams\<close>

record TeamsForwarder =
  tenantID :: string
  clientID :: string
  clientSecret :: string
  teamsFallback :: string

definition orEmpty :: "string option \<Rightarrow> string" where
  "orEmpty s = (case s of None \<Rightarrow> [] | Some t \<Rightarrow> t)"

definition NewTeamsForwarder :: "secret_getter \<Rightarrow> ForwarderConfig \<Rightarrow> string + TeamsForwarder" where
  "NewTeamsForwarder G cfg =
    (if CfgSecretRef cfg = [] then Inl ''teams forwarder requires secretRef''
     else (case G (CfgSecretRef cfg) ''ovro-system'' of
         Inl err \<Rightarrow> Inl (''failed to get secret: '' @ err)
       | Inr data \<Rightarrow>
           (let tenant = orEmpty (data ''tenantId''); client = orEmpty (data ''clientId''); secret = orEmpty (data ''clientSecret'')
            in if tenant = [] \<or> client = [] \<or> secret = [] then Inl ''secret must contain tenantId, clientId, and clientSecret''
               else Inr \<lparr>tenantID = tenant, clientID = client, clientSecret = secret, teamsFallback = CfgChannel cfg\<rparr>)))"

text \<open>An answer with the one or two string members that the forwarder reads.\<close>

definition setPair :: "string \<Rightarrow> string \<Rightarrow> string \<Rightarrow> json \<Rightarrow> string \<times> string \<Rightarrow> (string \<times> string) option" where
  "setPair a b k v p =
    (if k = a then map_option (\<lambda>s. (s, snd p)) (decodeString v (fst p))
     else if k = b then map_option (\<lambda>s. (fst p, s)) (decodeString v (snd p))
     else Some p)"

definition decodePair :: "string \<Rightarrow> string \<Rightarrow> json option \<Rightarrow> (string \<times> string) option" where
  "decodePair a b j = (case j of None \<Rightarrow> None | Some v \<Rightarrow> decodeObject (setPair a b) v ([], []))"

definition getAccessToken :: "'w default_client \<Rightarrow> TeamsForwarder \<Rightarrow> ('w, string + string) state" where
  "getAccessToken http t =
    (case NewRequest ''POST'' (''https://login.microsoftonline.com/'' @ tenantID t @ ''/oauth2/v2.0/token'')
        [(''Content-Type'', ''application/x-www-form-urlencoded'')]
        (FormBody (''grant_type=client_credentials&client_id='' @ clientID t @ ''&client_secret='' @ clientSecret t @
          ''&scope=https://graph.microsoft.com/.default'')) of
       None \<Rightarrow> ret (Inl ''parse'')
     | Some req \<Rightarrow> do {
         resp \<leftarrow> http req;
         ret (case resp of
           Inl err \<Rightarrow> Inl err
         | Inr a \<Rightarrow> (case decodePair ''access_token'' ''error'' (OutJSON a) of
             None \<Rightarrow> Inl ''unmarshal''
           | Some (tok, err) \<Rightarrow> if tok = [] then Inl (''failed to get token: '' @ err) else Inr tok))
       })"

definition lookupUser :: "'w default_client \<Rightarrow> string \<Rightarrow> string \<Rightarrow> ('w, string + string) state" where
  "lookupUser http token identifier =
    (case NewRequest ''GET'' (''https://graph.microsoft.com/v1.0/users/'' @ identifier) [bearer token] NoBody of
       None \<Rightarrow> ret (Inl ''parse'')
     | Some req \<Rightarrow> do {
         resp \<leftarrow> http req;
         ret (case resp of
           Inl err \<Rightarrow> Inl err
         | Inr a \<Rightarrow>
             if OutStatus a \<noteq> 200 then Inl (''user lookup returned '' @ show_nat (OutStatus a))
             else (case decodePair ''id'' ''id'' (OutJSON a) of
                 None \<Rightarrow> Inl ''unmarshal''
               | Some (uid, _) \<Rightarrow> if uid = [] then Inl ''user not found'' else Inr uid))
       })"

definition chatPayload :: "string \<Rightarrow> json" where
  "chatPayload uid = JObj [(''chatType'', JStr ''oneOnOne''),
     (''members'', JArr [JObj [(''@odata.type'', JStr ''#microsoft.graph.aadUserConversationMember''),
       (''roles'', JArr [JStr ''owner'']),
       (''user@odata.bind'', JStr (''https://graph.microsoft.com/v1.0/users('' @ CHR 0x27 # uid @ [CHR 0x27] @ '')''))]])]"

definition teamsMessage :: "Notification \<Rightarrow> string" where
  "teamsMessage n = ''<h2>VM Rightsizing Recommendation</h2>'' @ facts ''<b>'' ''</b>'' ''<br/>'' ''GiB'' n @
     ''<br/><a href='' @ CHR 0x22 # ApprovalURL n @ [CHR 0x22] @ ''>Approve/Reject</a>''"

definition postChat :: "'w default_client \<Rightarrow> string \<Rightarrow> string \<Rightarrow> Notification \<Rightarrow> ('w, string option) state" where
  "postChat http token chat n =
    (case NewRequest ''POST'' (''https://graph.microsoft.com/v1.0/chats/'' @ chat @ ''/messages'') [bearer token, jsonHeader]
        (JSONBody (JObj [(''body'', JObj [(''contentType'', JStr ''html''), (''content'', JStr (teamsMessage n))])])) of
       None \<Rightarrow> ret (Some ''parse'')
     | Some req \<Rightarrow> do {
         resp \<leftarrow> http req;
         ret (case resp of
           Inl err \<Rightarrow> Some (''sending message: '' @ err)
         | Inr a \<Rightarrow> if OutStatus a \<noteq> 201
             then Some (''send message returned '' @ show_nat (OutStatus a) @ '': '' @ OutText a) else None)
       })"

definition sendChatMessage :: "'w default_client \<Rightarrow> string \<Rightarrow> string \<Rightarrow> Notification \<Rightarrow> ('w, string option) state" where
  "sendChatMessage http token uid n =
    (case NewRequest ''POST'' ''https://graph.microsoft.com/v1.0/chats'' [bearer token, jsonHeader] (JSONBody (chatPayload uid)) of
       None \<Rightarrow> ret (Some ''parse'')
     | Some req \<Rightarrow> do {
         resp \<leftarrow> http req;
         case resp of
           Inl err \<Rightarrow> ret (Some (''creating chat: '' @ err))
         | Inr a \<Rightarrow> (case decodePair ''id'' ''id'' (OutJSON a) of
             None \<Rightarrow> ret (Some ''unmarshal'')
           | Some (chat, _) \<Rightarrow>
               if chat = [] then ret (Some (''failed to create chat, response: '' @ OutText a))
               else postChat http token chat n)
       })"

definition cardFact :: "string \<Rightarrow> string \<Rightarrow> json" where
  "cardFact title v = JObj [(''title'', JStr title), (''value'', JStr v)]"

definition adaptiveCard :: "Notification \<Rightarrow> json" where
  "adaptiveCard n = JObj [(''type'', JStr ''message''), (''attachments'', JArr [JObj [
     (''contentType'', JStr ''application/vnd.microsoft.card.adaptive''),
     (''content'', JObj [
       (''type'', JStr ''AdaptiveCard''),
       (''$schema'', JStr ''http://adaptivecards.io/schemas/adaptive-card.json''),
       (''version'', JStr ''1.2''),
       (''body'', JArr [
         JObj [(''type'', JStr ''TextBlock''), (''text'', JStr ''VM Rightsizing Recommendation''),
           (''weight'', JStr ''Bolder''), (''size'', JStr ''Medium'')],
         JObj [(''type'', JStr ''FactSet''), (''facts'', JArr [
           cardFact ''VM'' (VMName n), cardFact ''Namespace'' (NtfNamespace n), cardFact ''Owner'' (NtfOwner n),
           cardFact ''Direction'' (NtfDirection n), cardFact ''Current CPU'' (show_int (CurrentCPU n)),
           cardFact ''Current Memory'' (show_int (CurrentMemory n) @ '' GiB''),
           cardFact ''Recommended CPU'' (show_int (RecCPU n)),
           cardFact ''Recommended Memory'' (show_int (RecMemory n) @ '' GiB'')])]]),
       (''actions'', JArr [JObj [(''type'', JStr ''Action.OpenUrl''), (''title'', JStr ''Approve/Reject''),
         (''url'', JStr (ApprovalURL n))]])])]])]"

definition sendViaWebhook :: "'w default_client \<Rightarrow> TeamsForwarder \<Rightarrow> Notification \<Rightarrow> ('w, string option) state" where
  "sendViaWebhook http t n = postExpecting http
     (NewRequest ''POST'' (teamsFallback t) [jsonHeader] (JSONBody (adaptiveCard n))) {200, 202}
     ''creating request'' ''sending request''"

definition webhookOr :: "'w default_client \<Rightarrow> TeamsForwarder \<Rightarrow> Notification \<Rightarrow> string \<Rightarrow> ('w, string option) state" where
  "webhookOr http t n err = (if teamsFallback t \<noteq> [] then sendViaWebhook http t n else ret (Some err))"

definition teamsSend :: "'w default_client \<Rightarrow> TeamsForwarder \<Rightarrow> Notification \<Rightarrow> ('w, string option) state" where
  "teamsSend http t n = do {
     r \<leftarrow> getAccessToken http t;
     case r of
       Inl err \<Rightarrow> ret (Some (''getting access token: '' @ err))
     | Inr token \<Rightarrow>
         (let owner = NtfOwner n in
          if CHR ''@'' \<in> set owner then do {
            u \<leftarrow> lookupUser http token owner;
            case u of
              Inr uid \<Rightarrow> sendChatMessage http token uid n
            | Inl _ \<Rightarrow> do {
                u' \<leftarrow> lookupUser http token (beforeAt owner);
                case u' of
                  Inr uid \<Rightarrow> sendChatMessage http token uid n
                | Inl err \<Rightarrow> webhookOr http t n
                    (''could not find Teams user '' @ owner @ '' and no fallback channel configured: '' @ err)
              }
          }
          else if HasPrefix owner ''#''
          then webhookOr http t n ''channel routing requires a webhook URL in the channel config field''
          else do {
            u \<leftarrow> lookupUser http token owner;
            case u of
              Inr uid \<Rightarrow> sendChatMessage http token uid n
            | Inl err \<Rightarrow> webhookOr http t n (''could not resolve Teams user '' @ owner @ '': '' @ err)
          })
   }"

section \<open>PagerDuty\<close>

record PagerDutyForwarder =
  routingKey :: string

definition NewPagerDutyForwarder :: "secret_getter \<Rightarrow> ForwarderConfig \<Rightarrow> string + PagerDutyForwarder" where
  "NewPagerDutyForwarder G cfg =
    (if CfgSecretRef cfg = [] then Inl ''pagerduty forwarder requires secretRef''
     else (case G (CfgSecretRef cfg) ''default'' of
         Inl err \<Rightarrow> Inl (''failed to get secret: '' @ err)
       | Inr data \<Rightarrow> (case data ''routingKey'' of
           None \<Rightarrow> Inl ''secret missing routingKey key''
         | Some k \<Rightarrow> Inr \<lparr>routingKey = k\<rparr>)))"

definition summary :: "Notification \<Rightarrow> string" where
  "summary n = ''VM Rightsizing: '' @ NtfNamespace n @ ''/'' @ VMName n @ '' ('' @ NtfDirection n @ '')''"

definition pagerDutyPayload :: "PagerDutyForwarder \<Rightarrow> Notification \<Rightarrow> json" where
  "pagerDutyPayload p n = JObj [
     (''routing_key'', JStr (routingKey p)), (''event_action'', JStr ''trigger''),
     (''payload'', JObj [
       (''summary'', JStr (summary n)), (''severity'', JStr ''info''), (''source'', JStr ''ovro''),
       (''custom_details'', JObj [
         (''vm'', JStr (VMName n)), (''namespace'', JStr (NtfNamespace n)), (''owner'', JStr (NtfOwner n)),
         (''direction'', JStr (NtfDirection n)), (''current_cpu'', JNum (CurrentCPU n)),
         (''current_memory'', JNum (CurrentMemory n)), (''recommended_cpu'', JNum (RecCPU n)),
         (''recommended_memory'', JNum (RecMemory n)), (''approval_url'', JStr (ApprovalURL n))])]),
     (''links'', JArr [JObj [(''href'', JStr (ApprovalURL n)), (''text'', JStr ''Approve/Reject'')]])]"

definition pagerDutySend :: "'w default_client \<Rightarrow> PagerDutyForwarder \<Rightarrow> Notification \<Rightarrow> ('w, string option) state" where
  "pagerDutySend http p n = postExpecting http
     (NewRequest ''POST'' ''https://events.pagerduty.com/v2/enqueue'' [jsonHeader] (JSONBody (pagerDutyPayload p n))) {202}
     ''failed to create request'' ''failed to send request''"

section \<open>Rocket.Chat\<close>

record RocketChatForwarder =
  rocketServerURL :: string
  rocketChannel :: string
  rocketAuthToken :: string
  rocketUserID :: string

definition NewRocketChatForwarder :: "secret_getter \<Rightarrow> ForwarderConfig \<Rightarrow> string + RocketChatForwarder" where
  "NewRocketChatForwarder G cfg =
    (if CfgServerURL cfg = [] then Inl ''rocketchat forwarder requires serverUrl''
     else if CfgChannel cfg = [] then Inl ''rocketchat forwarder requires channel''
     else if CfgSecretRef cfg = [] then Inl ''rocketchat forwarder requires secretRef''
     else (case G (CfgSecretRef cfg) ''default'' of
         Inl err \<Rightarrow> Inl (''failed to get secret: '' @ err)
       | Inr data \<Rightarrow> (case data ''authToken'' of
           None \<Rightarrow> Inl ''secret missing authToken key''
         | Some tok \<Rightarrow> (case data ''userId'' of
             None \<Rightarrow> Inl ''secret missing userId key''
           | Some uid \<Rightarrow> Inr \<lparr>rocketServerURL = CfgServerURL cfg, rocketChannel = CfgChannel cfg,
               rocketAuthToken = tok, rocketUserID = uid\<rparr>))))"

definition rocketMessage :: "Notification \<Rightarrow> string" where
  "rocketMessage n = ''**VM Rightsizing Recommendation**'' @ nl @ nl @ facts ''**'' ''**'' nl ''MB'' n @ nl @
     ''[Approve/Reject]('' @ ApprovalURL n @ '')''"

definition rocketChatSend :: "'w default_client \<Rightarrow> RocketChatForwarder \<Rightarrow> Notification \<Rightarrow> ('w, string option) state" where
  "rocketChatSend http r n =
    postExpecting http
       (NewRequest ''POST'' (rocketServerURL r @ ''/api/v1/chat.postMessage'')
         [jsonHeader, (''X-Auth-Token'', rocketAuthToken r), (''X-User-Id'', rocketUserID r)]
         (JSONBody (JObj [(''channel'', JStr (rocketChannel r)), (''text'', JStr (rocketMessage n))]))) {200}
       ''failed to create request'' ''failed to send request''"

section \<open>ServiceNow\<close>

record ServiceNowForwarder =
  instanceURL :: string
  snUsername :: string
  snPassword :: string
  assignmentGroup :: string
  category :: string

definition NewServiceNowForwarder :: "secret_getter \<Rightarrow> ForwarderConfig \<Rightarrow> string + ServiceNowForwarder" where
  "NewServiceNowForwarder G cfg =
    (if CfgInstanceURL cfg = [] then Inl ''servicenow forwarder requires instanceUrl''
     else if CfgSecretRef cfg = [] then Inl ''servicenow forwarder requires secretRef''
     else (case G (CfgSecretRef cfg) ''default'' of
         Inl err \<Rightarrow> Inl (''failed to get secret: '' @ err)
       | Inr data \<Rightarrow> (case data ''username'' of
           None \<Rightarrow> Inl ''secret missing username key''
         | Some user \<Rightarrow> (case data ''password'' of
             None \<Rightarrow> Inl ''secret missing password key''
           | Some pass \<Rightarrow> Inr \<lparr>instanceURL = CfgInstanceURL cfg, snUsername = user, snPassword = pass,
               assignmentGroup = CfgAssignmentGroup cfg, category = CfgCategory cfg\<rparr>))))"

definition description :: "Notification \<Rightarrow> string" where
  "description n = ''VM Rightsizing Recommendation'' @ nl @ nl @ facts [] [] nl ''MB'' n @ nl @
     ''Approval URL: '' @ ApprovalURL n"

definition incident :: "ServiceNowForwarder \<Rightarrow> Notification \<Rightarrow> json" where
  "incident s n = JObj ([
     (''short_description'', JStr (summary n)),
     (''description'', JStr (description n)),
     (''urgency'', JStr ''3''), (''impact'', JStr ''3'')] @
     (if assignmentGroup s \<noteq> [] then [(''assignment_group'', JStr (assignmentGroup s))] else []) @
     (if category s \<noteq> [] then [(''category'', JStr (category s))] else []))"

text \<open>\<open>basicAuth\<close> stands for the header of \<open>SetBasicAuth\<close>: user name and password, base64-encoded.\<close>

definition serviceNowSend :: "(string \<Rightarrow> string \<Rightarrow> string) \<Rightarrow> 'w default_client \<Rightarrow> ServiceNowForwarder \<Rightarrow> Notification \<Rightarrow>
    ('w, string option) state" where
  "serviceNowSend basicAuth http s n =
    (case NewRequest ''POST'' (instanceURL s @ ''/api/now/table/incident'')
        [jsonHeader, (''Accept'', ''application/json''), (''Authorization'', basicAuth (snUsername s) (snPassword s))]
        (JSONBody (incident s n)) of
       None \<Rightarrow> ret (Some ''failed to create request'')
     | Some req \<Rightarrow> do {
         resp \<leftarrow> http req;
         ret (case resp of
           Inl err \<Rightarrow> Some (''failed to send request: '' @ err)
         | Inr a \<Rightarrow>
             if OutStatus a \<noteq> 201 then Some (''unexpected status code: '' @ show_nat (OutStatus a))
             else (case OutJSON a of
                 Some (JObj kvs) \<Rightarrow> None
               | Some JNull \<Rightarrow> None
               | _ \<Rightarrow> Some ''failed to decode response''))
       })"

section \<open>SNMP\<close>

record SNMPForwarder =
  snmpHost :: string
  snmpPort :: int
  snmpCommunity :: string

definition NewSNMPForwarder :: "ForwarderConfig \<Rightarrow> string + SNMPForwarder" where
  "NewSNMPForwarder cfg =
    (if CfgHost cfg = [] then Inl ''snmp forwarder requires host''
     else Inr \<lparr>snmpHost = CfgHost cfg, snmpPort = (if CfgPort cfg = 0 then 162 else CfgPort cfg),
       snmpCommunity = CfgCommunity cfg\<rparr>)"

text \<open>The message goes to a logger that discards it.\<close>

definition snmpSend :: "SNMPForwarder \<Rightarrow> Notification \<Rightarrow> ('w, string option) state" where
  "snmpSend s n = ret None"

section \<open>Mail\<close>

text \<open>\<open>strings.ReplaceAll\<close> with a non-empty pattern.\<close>

fun ReplaceAll :: "string \<Rightarrow> string \<Rightarrow> string \<Rightarrow> string" where
  "ReplaceAll old new [] = []"
| "ReplaceAll old new (c # s) =
    (if HasPrefix (c # s) old then new @ ReplaceAll old new (drop (length old - 1) s)
     else c # ReplaceAll old new s)"

record SMTPForwarder =
  smtpFrom :: string
  smtpTo :: string
  smtpServer :: string
  smtpPort :: int
  tlsMode :: string
  tlsSkipVerify :: bool
  smtpUsername :: string
  smtpPassword :: string

definition smtpTLSMode :: "string \<Rightarrow> int \<Rightarrow> string" where
  "smtpTLSMode mode port = (let m = ToLower mode in
     if m = [] then (if port = 465 then ''tls'' else ''starttls'') else m)"

definition NewSMTPForwarder :: "secret_getter \<Rightarrow> ForwarderConfig \<Rightarrow> string + SMTPForwarder" where
  "NewSMTPForwarder G cfg =
    (if CfgFrom cfg = [] \<or> CfgTo cfg = [] then Inl ''smtp forwarder requires from and to addresses''
     else if CfgSMTPServer cfg = [] then Inl ''smtp forwarder requires smtpServer''
     else
       (let port = (if CfgSMTPPort cfg = 0 then 587 else CfgSMTPPort cfg);
            mk = (\<lambda>u p. \<lparr>smtpFrom = CfgFrom cfg, smtpTo = CfgTo cfg, smtpServer = CfgSMTPServer cfg, smtpPort = port,
              tlsMode = smtpTLSMode (CfgSMTPTLS cfg) port, tlsSkipVerify = CfgSMTPTLSSkipVerify cfg,
              smtpUsername = u, smtpPassword = p\<rparr>)
        in if CfgSecretRef cfg \<noteq> []
           then (case G (CfgSecretRef cfg) ''ovro-system'' of
               Inl err \<Rightarrow> Inl (''failed to get secret: '' @ err)
             | Inr data \<Rightarrow> Inr (mk (orEmpty (data ''username'')) (orEmpty (data ''password''))))
           else Inr (mk [] [])))"

text \<open>\<open>smtp.Client\<close>: the connection with the name of its server and whether it is encrypted.\<close>

record 'c smtpClient =
  smtpConn :: 'c
  serverName :: string
  smtpTLS :: bool

text \<open>The network side of \<open>crypto/tls\<close> and \<open>net/smtp\<close>: every function does one exchange on a
  connection. The flag of the TLS functions is \<open>InsecureSkipVerify\<close>.\<close>

record ('w, 'c) smtp_lib =
  SmtpDial :: "string \<Rightarrow> ('w, string + 'c) state"
  TLSDial :: "string \<Rightarrow> string \<Rightarrow> bool \<Rightarrow> ('w, string + 'c) state"
  SmtpGreeting :: "'c \<Rightarrow> ('w, string option) state"
  SmtpHello :: "'c \<Rightarrow> ('w, string option) state"
  SmtpStartTLS :: "'c \<Rightarrow> string \<Rightarrow> bool \<Rightarrow> ('w, string option) state"
  SmtpAuth :: "'c smtpClient \<Rightarrow> string \<Rightarrow> string \<Rightarrow> ('w, string option) state"
  SmtpMail :: "'c \<Rightarrow> string \<Rightarrow> ('w, string option) state"
  SmtpRcpt :: "'c \<Rightarrow> string \<Rightarrow> ('w, string option) state"
  SmtpData :: "'c \<Rightarrow> ('w, string option) state"
  SmtpWrite :: "'c \<Rightarrow> string \<Rightarrow> ('w, string option) state"
  SmtpCloseData :: "'c \<Rightarrow> ('w, string option) state"
  SmtpQuit :: "'c \<Rightarrow> ('w, string option) state"
  SmtpClose :: "'c \<Rightarrow> ('w, unit) state"

definition isLocalhost :: "string \<Rightarrow> bool" where
  "isLocalhost name \<longleftrightarrow> name \<in> {''localhost'', ''127.0.0.1'', ''::1''}"

text \<open>\<open>net.SplitHostPort\<close> of \<open>server:port\<close>, the host only; it is empty where that is malformed.\<close>

definition hostOf :: "string \<Rightarrow> string" where
  "hostOf server = (case server of
      c # s \<Rightarrow> if c = CHR ''['' \<and> s \<noteq> [] \<and> last s = CHR '']'' \<and> set (butlast s) \<inter> set ''[]'' = {} then butlast s
        else if set server \<inter> set '':[]'' = {} then server else []
    | [] \<Rightarrow> [])"

text \<open>\<open>Start\<close> of \<open>smtp.PlainAuth\<close>.\<close>

definition plainAuthStart :: "string \<Rightarrow> 'c smtpClient \<Rightarrow> string option" where
  "plainAuthStart host c =
    (if \<not> smtpTLS c \<and> \<not> isLocalhost (serverName c) then Some ''unencrypted connection''
     else if serverName c \<noteq> host then Some ''wrong host name''
     else None)"

text \<open>\<open>Client.Auth\<close> with \<open>PlainAuth("", username, password, host)\<close>.\<close>

definition clientAuth :: "('w, 'c) smtp_lib \<Rightarrow> 'c smtpClient \<Rightarrow> string \<Rightarrow> string \<Rightarrow> string \<Rightarrow> ('w, string option) state" where
  "clientAuth N c user pass host = do {
     h \<leftarrow> SmtpHello N (smtpConn c);
     case h of
       Some err \<Rightarrow> ret (Some err)
     | None \<Rightarrow> (case plainAuthStart host c of
         Some err \<Rightarrow> do { _ \<leftarrow> SmtpQuit N (smtpConn c); ret (Some err) }
       | None \<Rightarrow> SmtpAuth N c user pass)
   }"

text \<open>One command after another, up to the first error.\<close>

fun inOrder :: "(string \<times> ('w, string option) state) list \<Rightarrow> ('w, string option) state" where
  "inOrder [] = ret None"
| "inOrder ((what, cmd) # cmds) = do {
     r \<leftarrow> cmd;
     case r of Some err \<Rightarrow> ret (Some (what @ err)) | None \<Rightarrow> inOrder cmds
   }"

definition mailCommands :: "('w, 'c) smtp_lib \<Rightarrow> SMTPForwarder \<Rightarrow> 'c \<Rightarrow> string \<Rightarrow> string \<Rightarrow> (string \<times> ('w, string option) state) list" where
  "mailCommands N s conn to msg =
    [(''MAIL FROM: '', SmtpMail N conn (smtpFrom s)), (''RCPT TO: '', SmtpRcpt N conn to),
     (''DATA: '', SmtpData N conn), (''writing message: '', SmtpWrite N conn msg),
     (''closing DATA: '', SmtpCloseData N conn), ([], SmtpQuit N conn)]"

definition deliver :: "('w, 'c) smtp_lib \<Rightarrow> SMTPForwarder \<Rightarrow> 'c smtpClient \<Rightarrow> string \<Rightarrow> string \<Rightarrow> ('w, string option) state" where
  "deliver N s c to msg =
    inOrder (
      (if smtpUsername s \<noteq> [] \<and> smtpPassword s \<noteq> []
       then [(''auth: '', clientAuth N c (smtpUsername s) (smtpPassword s) (smtpServer s))] else []) @
      mailCommands N s (smtpConn c) to msg)"

text \<open>\<open>defer c.Close()\<close>\<close>

definition closing :: "('w, 'c) smtp_lib \<Rightarrow> 'c \<Rightarrow> ('w, 'a) state \<Rightarrow> ('w, 'a) state" where
  "closing N conn body = do { r \<leftarrow> body; _ \<leftarrow> SmtpClose N conn; ret r }"

definition smtpAddr :: "SMTPForwarder \<Rightarrow> string" where
  "smtpAddr s = smtpServer s @ '':'' @ show_int (smtpPort s)"

text \<open>\<open>smtp.Dial\<close>: connect and read the greeting.\<close>

definition smtpDialClient :: "('w, 'c) smtp_lib \<Rightarrow> SMTPForwarder \<Rightarrow> ('w, string + 'c smtpClient) state" where
  "smtpDialClient N s = do {
     r \<leftarrow> SmtpDial N (smtpAddr s);
     case r of
       Inl err \<Rightarrow> ret (Inl err)
     | Inr conn \<Rightarrow> do {
         g \<leftarrow> SmtpGreeting N conn;
         case g of
           Some err \<Rightarrow> do { _ \<leftarrow> SmtpClose N conn; ret (Inl err) }
         | None \<Rightarrow> ret (Inr \<lparr>smtpConn = conn, serverName = hostOf (smtpServer s), smtpTLS = False\<rparr>)
       }
   }"

definition sendSTARTTLS :: "('w, 'c) smtp_lib \<Rightarrow> SMTPForwarder \<Rightarrow> string \<Rightarrow> string \<Rightarrow> ('w, string option) state" where
  "sendSTARTTLS N s to msg = do {
     r \<leftarrow> smtpDialClient N s;
     case r of
       Inl err \<Rightarrow> ret (Some (''dialing '' @ smtpAddr s @ '': '' @ err))
     | Inr c \<Rightarrow> closing N (smtpConn c) (do {
         h \<leftarrow> inOrder [(''STARTTLS: '', SmtpHello N (smtpConn c)),
           (''STARTTLS: '', SmtpStartTLS N (smtpConn c) (smtpServer s) (tlsSkipVerify s))];
         case h of
           Some err \<Rightarrow> ret (Some err)
         | None \<Rightarrow> deliver N s (c\<lparr>smtpTLS := True\<rparr>) to msg
       })
   }"

definition sendImplicitTLS :: "('w, 'c) smtp_lib \<Rightarrow> SMTPForwarder \<Rightarrow> string \<Rightarrow> string \<Rightarrow> ('w, string option) state" where
  "sendImplicitTLS N s to msg = do {
     r \<leftarrow> TLSDial N (smtpAddr s) (smtpServer s) (tlsSkipVerify s);
     case r of
       Inl err \<Rightarrow> ret (Some (''TLS dial '' @ smtpAddr s @ '': '' @ err))
     | Inr conn \<Rightarrow> do {
         g \<leftarrow> SmtpGreeting N conn;
         case g of
           Some err \<Rightarrow> do { _ \<leftarrow> SmtpClose N conn; ret (Some (''creating SMTP client: '' @ err)) }
         | None \<Rightarrow> closing N conn
             (deliver N s \<lparr>smtpConn = conn, serverName = hostOf (smtpServer s), smtpTLS = True\<rparr> to msg)
       }
   }"

definition sendPlain :: "('w, 'c) smtp_lib \<Rightarrow> SMTPForwarder \<Rightarrow> string \<Rightarrow> string \<Rightarrow> ('w, string option) state" where
  "sendPlain N s to msg = do {
     r \<leftarrow> smtpDialClient N s;
     case r of
       Inl err \<Rightarrow> ret (Some (''dialing '' @ smtpAddr s @ '': '' @ err))
     | Inr c \<Rightarrow> closing N (smtpConn c) (deliver N s c to msg)
   }"

abbreviation crlf :: string where "crlf \<equiv> [CHR 13, CHR 10]"

definition mailMessage :: "SMTPForwarder \<Rightarrow> string \<Rightarrow> Notification \<Rightarrow> string" where
  "mailMessage s to n =
    ''From: '' @ smtpFrom s @ crlf @ ''To: '' @ to @ crlf @
    ''Subject: VM Rightsizing Recommendation: '' @ VMName n @ crlf @ ''MIME-Version: 1.0'' @ crlf @
    ''Content-Type: text/plain; charset=UTF-8'' @ crlf @ crlf @
    ''VM Rightsizing Recommendation'' @ nl @ nl @ facts [] [] nl ''GiB'' n @ nl @
    ''Approve or reject this recommendation at:'' @ nl @ ApprovalURL n @ crlf"

definition mailTo :: "SMTPForwarder \<Rightarrow> Notification \<Rightarrow> string" where
  "mailTo s n = ReplaceAll ''{{owner}}'' (NtfOwner n) (smtpTo s)"

definition smtpSend :: "('w, 'c) smtp_lib \<Rightarrow> SMTPForwarder \<Rightarrow> Notification \<Rightarrow> ('w, string option) state" where
  "smtpSend N s n =
    (let to = mailTo s n; message = mailMessage s to n in
     if tlsMode s = ''tls'' then sendImplicitTLS N s to message
     else if tlsMode s = ''none'' then sendPlain N s to message
     else sendSTARTTLS N s to message)"

section \<open>The dispatcher\<close>

text \<open>What the channels use of the outside.\<close>

record ('w, 'c) channel_lib =
  DefaultClient :: "'w default_client"
  MailNet :: "('w, 'c) smtp_lib"
  BasicAuth :: "string \<Rightarrow> string \<Rightarrow> string"

abbreviation forwarder :: "string \<Rightarrow> ('a \<Rightarrow> Notification \<Rightarrow> ('w, string option) state) \<Rightarrow> string + 'a \<Rightarrow> string + 'w Forwarder" where
  "forwarder name send r \<equiv> (case r of Inl err \<Rightarrow> Inl err | Inr s \<Rightarrow> Inr \<lparr>FwdName = name, Send = send s\<rparr>)"

text \<open>The switch on the type; \<open>None\<close> is an unknown type.\<close>

definition newForwarder :: "('w, 'c) channel_lib \<Rightarrow> secret_getter \<Rightarrow> ForwarderConfig \<Rightarrow> (string + 'w Forwarder) option" where
  "newForwarder C G cfg =
    (let http = DefaultClient C; t = CfgType cfg in
     if t = ''slack'' then Some (forwarder ''slack'' (slackSend http) (NewSlackForwarder G cfg))
     else if t = ''teams'' then Some (forwarder ''teams'' (teamsSend http) (NewTeamsForwarder G cfg))
     else if t = ''smtp'' then Some (forwarder ''smtp'' (smtpSend (MailNet C)) (NewSMTPForwarder G cfg))
     else if t = ''snmp'' then Some (forwarder ''snmp'' snmpSend (NewSNMPForwarder cfg))
     else if t = ''pagerduty'' then Some (forwarder ''pagerduty'' (pagerDutySend http) (NewPagerDutyForwarder G cfg))
     else if t = ''rocketchat'' then Some (forwarder ''rocketchat'' (rocketChatSend http) (NewRocketChatForwarder G cfg))
     else if t = ''servicenow'' then Some (forwarder ''servicenow'' (serviceNowSend (BasicAuth C) http) (NewServiceNowForwarder G cfg))
     else None)"

fun newForwarders :: "('w, 'c) channel_lib \<Rightarrow> secret_getter \<Rightarrow> ForwarderConfig list \<Rightarrow> string + 'w Forwarder list" where
  "newForwarders C G [] = Inr []"
| "newForwarders C G (cfg # cfgs) =
    (if \<not> CfgEnabled cfg then newForwarders C G cfgs
     else (case newForwarder C G cfg of
         None \<Rightarrow> newForwarders C G cfgs
       | Some (Inl err) \<Rightarrow> Inl (''failed to create '' @ CfgType cfg @ '' forwarder: '' @ err)
       | Some (Inr fwd) \<Rightarrow> (case newForwarders C G cfgs of Inl err \<Rightarrow> Inl err | Inr fwds \<Rightarrow> Inr (fwd # fwds))))"

definition NewDispatcher :: "('w, 'c) channel_lib \<Rightarrow> secret_getter \<Rightarrow> NotifierConfig \<Rightarrow> string + 'w Dispatcher" where
  "NewDispatcher C G cfg = (case newForwarders C G (CfgForwarders cfg) of
      Inl err \<Rightarrow> Inl err
    | Inr fwds \<Rightarrow> Inr \<lparr>forwarders = fwds\<rparr>)"

definition knownTypes :: "string set" where
  "knownTypes = {''slack'', ''teams'', ''smtp'', ''snmp'', ''pagerduty'', ''rocketchat'', ''servicenow''}"

lemma newForwarder_name: "newForwarder C G cfg = Some (Inr f) \<Longrightarrow> FwdName f = CfgType cfg"
  by (auto simp: newForwarder_def Let_def split: if_splits sum.splits)

lemma newForwarder_None: "newForwarder C G cfg = None \<longleftrightarrow> CfgType cfg \<notin> knownTypes"
  by (auto simp: newForwarder_def knownTypes_def Let_def)

lemma newForwarders_map:
  "newForwarders C G cfgs = Inr fwds \<Longrightarrow>
    map (newForwarder C G) (filter (\<lambda>c. CfgEnabled c \<and> CfgType c \<in> knownTypes) cfgs) = map (Some \<circ> Inr) fwds"
proof (induction cfgs arbitrary: fwds)
  case (Cons cfg cfgs)
  then show ?case
    using newForwarder_None[of C G cfg] by (auto split: if_splits option.splits sum.splits)
qed simp

text \<open>C36: the dispatcher has one forwarder for every enabled entry of a known type, in the order of
  the configuration and under the name of its type; and there is a dispatcher exactly when each of
  these entries can be constructed, so one bad entry or one secret that cannot be read leaves the
  process without any.\<close>

theorem dispatcher_from_config:
  "(case NewDispatcher C G cfg of
      Inr d \<Rightarrow> map FwdName (forwarders d) = map CfgType (filter (\<lambda>c. CfgEnabled c \<and> CfgType c \<in> knownTypes) (CfgForwarders cfg)) \<and>
        map (newForwarder C G) (filter (\<lambda>c. CfgEnabled c \<and> CfgType c \<in> knownTypes) (CfgForwarders cfg)) =
          map (Some \<circ> Inr) (forwarders d)
    | Inl _ \<Rightarrow> \<exists>c err. c \<in> set (CfgForwarders cfg) \<and> CfgEnabled c \<and> newForwarder C G c = Some (Inl err))"
proof -
  have "\<exists>c err. c \<in> set cfgs \<and> CfgEnabled c \<and> newForwarder C G c = Some (Inl err)" if "newForwarders C G cfgs = Inl e" for cfgs e
    using that by (induction cfgs arbitrary: e) (fastforce split: if_splits option.splits sum.splits)+
  moreover have "map FwdName fwds = map CfgType cfgs" if "map (newForwarder C G) cfgs = map (Some \<circ> Inr) fwds" for cfgs fwds
    using that by (induction cfgs arbitrary: fwds) (auto simp: newForwarder_name)
  ultimately show ?thesis by (auto simp: NewDispatcher_def dest!: newForwarders_map split: sum.splits)
qed

lemma sendTo_filter:
  "sendTo fwds n (Some ex) = sendTo (filter (\<lambda>f. \<not> ex (FwdName f)) fwds) n None"
  by (induction fwds) simp_all

definition withoutTypes :: "string list \<Rightarrow> NotifierConfig \<Rightarrow> NotifierConfig" where
  "withoutTypes ts cfg = \<lparr>CfgForwarders = filter (\<lambda>c. CfgType c \<notin> set ts) (CfgForwarders cfg)\<rparr>"

text \<open>C27: sending to all but some types is the same program as sending to all with the dispatcher
  of the configuration without these types: a reminder, which leaves out ServiceNow, cannot open a
  second incident.\<close>

theorem send_except_as_removed:
  assumes "NewDispatcher C G cfg = Inr d"
  shows "\<exists>d'. NewDispatcher C G (withoutTypes ts cfg) = Inr d' \<and> SendAllExcept d n ts = SendAll d' n"
proof -
  have "newForwarders C G (filter (\<lambda>c. CfgType c \<notin> set ts) cfgs) = Inr (filter (\<lambda>f. FwdName f \<notin> set ts) fwds)"
    if "newForwarders C G cfgs = Inr fwds" for cfgs fwds
    using that by (induction cfgs arbitrary: fwds) (auto simp: newForwarder_name split: if_splits option.splits sum.splits)
  then show ?thesis using assms
    by (auto simp: NewDispatcher_def withoutTypes_def SendAllExcept_def SendAll_def sendFiltered_def sendTo_filter split: sum.splits)
qed

section \<open>What the HTTP channels post\<close>

text \<open>A view of the world that records every exchange of the HTTP client.\<close>

locale http_log =
  fixes http :: "'w default_client"
    and log :: "'w \<Rightarrow> (OutRequest \<times> (string + OutResponse)) list"
  assumes http_logs: "log (snd (run_state (http r) w)) = log w @ [(r, fst (run_state (http r) w))]"

fun mentions :: "string \<Rightarrow> json \<Rightarrow> bool" where
  "mentions u (JStr s) = sublist u s"
| "mentions u (JArr js) = list_ex (mentions u) js"
| "mentions u (JObj kvs) = list_ex (\<lambda>kv. mentions u (snd kv)) kvs"
| "mentions u _ = False"

text \<open>The last exchange is a post that carries the text and was answered.\<close>

definition carries :: "string \<Rightarrow> OutRequest \<Rightarrow> bool" where
  "carries u r \<longleftrightarrow> OutMethod r = ''POST'' \<and> (case OutBody r of JSONBody j \<Rightarrow> mentions u j | _ \<Rightarrow> False)"

definition delivered :: "string \<Rightarrow> (OutRequest \<times> (string + OutResponse)) list \<Rightarrow>
    (OutRequest \<times> (string + OutResponse)) list \<Rightarrow> bool" where
  "delivered u l0 l \<longleftrightarrow> l \<noteq> [] \<and> prefix l0 (butlast l) \<and> carries u (fst (last l)) \<and> \<not> isl (snd (last l))"

lemma delivered_snoc [simp]: "delivered u l0 (l @ [x]) \<longleftrightarrow> prefix l0 l \<and> carries u (fst x) \<and> \<not> isl (snd x)"
  by (simp add: delivered_def)

lemma delivered_mono: "prefix l0 l1 \<Longrightarrow> delivered u l1 l \<Longrightarrow> delivered u l0 l"
  unfolding delivered_def by (meson prefix_order.trans)

lemma sublist_here: "sublist u (u @ s)" "sublist u u"
  by (metis append_Nil sublist_appendI) simp

lemma sublist_later: "sublist u t \<Longrightarrow> sublist u (s @ t)" "sublist u t \<Longrightarrow> sublist u (c # t)"
  by (simp_all add: sublist_append sublist_Cons_right)

lemmas sublist_scan = sublist_here sublist_later

lemma messages_mention:
  "sublist (ApprovalURL n) (slackMessage n)" "sublist (ApprovalURL n) (teamsMessage n)"
  "sublist (ApprovalURL n) (rocketMessage n)" "sublist (ApprovalURL n) (description n)"
  unfolding slackMessage_def teamsMessage_def rocketMessage_def description_def by (rule sublist_scan)+

context http_log
begin

lemma http_wp: "(\<And>resp w'. log w' = log w @ [(r, resp)] \<Longrightarrow> Q resp w') \<Longrightarrow> wp (http r) Q w"
  by (simp add: wp_run http_logs)

text \<open>Calls that only look something up extend the record.\<close>

abbreviation extends :: "('w, 'a) state \<Rightarrow> bool" where
  "extends m \<equiv> \<forall>w. wp m (\<lambda>_ w'. prefix (log w) (log w')) w"

lemma extends_wp: "extends m \<Longrightarrow> (\<And>a w'. prefix (log w) (log w') \<Longrightarrow> Q a w') \<Longrightarrow> wp m Q w"
  by (meson wp_conseq)

lemma lookups_extend:
  "extends (lookupUserByEmail http s email)" "extends (resolveChannel http s owner)"
  "extends (getAccessToken http t)" "extends (lookupUser http token identifier)"
proof -
  show email: "extends (lookupUserByEmail http s email)" for email
    by (auto simp: lookupUserByEmail_def split: option.splits intro!: http_wp)
  show "extends (resolveChannel http s owner)"
    by (auto simp: resolveChannel_def split: sum.split list.split intro!: extends_wp[OF email]
        intro: prefix_order.trans)
  show "extends (getAccessToken http t)" "extends (lookupUser http token identifier)"
    by (auto simp: getAccessToken_def lookupUser_def split: option.splits intro!: http_wp)
qed

text \<open>\<open>Send\<close> reports success only after the link has been posted.\<close>

abbreviation posts :: "(Notification \<Rightarrow> ('w, string option) state) \<Rightarrow> bool" where
  "posts send \<equiv> \<forall>n w. wp (send n) (\<lambda>err w'. err = None \<longrightarrow> delivered (ApprovalURL n) (log w) (log w')) w"

lemma postExpecting_wp:
  assumes "mentions u j"
  shows "wp (postExpecting http (NewRequest ''POST'' url hdr (JSONBody j)) ok c d)
    (\<lambda>err w'. err = None \<longrightarrow> delivered u (log w) (log w')) w"
  using assms
  by (auto simp: postExpecting_def NewRequest_def carries_def split: option.splits sum.splits intro!: http_wp)

lemma posts_slack: "posts (slackSend http s)"
  using messages_mention(1)
  by (auto simp: slackSend_def NewRequest_def carries_def split: option.splits sum.splits
      intro!: extends_wp[OF lookups_extend(2)] http_wp)

lemma posts_simple: "posts (pagerDutySend http p)" "posts (rocketChatSend http r)" "posts (sendViaWebhook http t)"
proof -
  show "posts (pagerDutySend http p)"
    unfolding pagerDutySend_def by (intro allI postExpecting_wp) (simp add: pagerDutyPayload_def)
  show "posts (rocketChatSend http r)"
    unfolding rocketChatSend_def by (intro allI postExpecting_wp) (simp add: messages_mention)
  show "posts (sendViaWebhook http t)"
    unfolding sendViaWebhook_def by (intro allI postExpecting_wp) (simp add: adaptiveCard_def)
qed

lemma posts_servicenow: "posts (serviceNowSend ba http s)"
  using messages_mention(4)
  by (auto simp: serviceNowSend_def NewRequest_def carries_def incident_def split: option.splits sum.splits intro!: http_wp)

lemma postChat_wp: "wp (postChat http token chat n) (\<lambda>err w'. err = None \<longrightarrow> delivered (ApprovalURL n) (log w) (log w')) w"
  using messages_mention(2)
  by (auto simp: postChat_def NewRequest_def carries_def split: option.splits sum.splits intro!: http_wp)

text \<open>The same for the program of one notification, after a look-up.\<close>

abbreviation postsFor :: "Notification \<Rightarrow> ('w, string option) state \<Rightarrow> bool" where
  "postsFor n m \<equiv> \<forall>w. wp m (\<lambda>err w'. err = None \<longrightarrow> delivered (ApprovalURL n) (log w) (log w')) w"

lemma postsFor_bind:
  assumes "extends m" and "\<And>a. postsFor n (k a)"
  shows "postsFor n (m \<bind> k)"
proof (rule allI)
  fix w
  have "wp (k a) (\<lambda>err w'. err = None \<longrightarrow> delivered (ApprovalURL n) (log w) (log w')) v" if "prefix (log w) (log v)" for a v
    using that by (intro wp_conseq[OF assms(2)[rule_format]]) (auto intro: delivered_mono)
  then show "wp (m \<bind> k) (\<lambda>err w'. err = None \<longrightarrow> delivered (ApprovalURL n) (log w) (log w')) w"
    by (simp add: extends_wp[OF assms(1)])
qed

lemma http_extends: "extends (http r)"
  by (auto intro!: http_wp)

lemma posts_chat: "posts (sendChatMessage http token uid)"
proof (rule allI)
  fix n
  have "postsFor n (http r \<bind> (\<lambda>resp. case resp of
      Inl err \<Rightarrow> ret (Some (f err))
    | Inr a \<Rightarrow> (case decodePair ''id'' ''id'' (OutJSON a) of
        None \<Rightarrow> ret (Some g)
      | Some (chat, _) \<Rightarrow> if chat = [] then ret (Some (h a)) else postChat http token chat n)))" for r f g h
    by (rule postsFor_bind[OF http_extends]) (auto simp: postChat_wp split: sum.split option.split)
  then show "postsFor n (sendChatMessage http token uid n)"
    unfolding sendChatMessage_def NewRequest_def by (simp del: wp_bind)
qed

lemma posts_webhook: "posts (\<lambda>n. webhookOr http t n (err n))"
  using posts_simple(3) by (simp add: webhookOr_def)

lemma posts_teams: "posts (teamsSend http t)"
proof (rule allI)
  fix n
  have chat: "postsFor n (sendChatMessage http token uid n)" for token uid
    using posts_chat by blast
  have hook: "postsFor n (webhookOr http t n err)" for err
    using posts_webhook[of t "\<lambda>_. err"] by blast
  have single: "postsFor n (lookupUser http token owner \<bind> (\<lambda>u. case u of
      Inr uid \<Rightarrow> sendChatMessage http token uid n | Inl err \<Rightarrow> webhookOr http t n (f err)))" for token owner f
    by (rule postsFor_bind[OF lookups_extend(4)]) (auto simp: chat hook split: sum.split)
  have double: "postsFor n (lookupUser http token owner \<bind> (\<lambda>u. case u of
      Inr uid \<Rightarrow> sendChatMessage http token uid n
    | Inl e \<Rightarrow> lookupUser http token owner' \<bind> (\<lambda>u. case u of
        Inr uid \<Rightarrow> sendChatMessage http token uid n | Inl err \<Rightarrow> webhookOr http t n (f err))))" for token owner owner' f
    using single by (intro postsFor_bind[OF lookups_extend(4)]) (auto simp: chat split: sum.split)
  show "postsFor n (teamsSend http t n)"
    unfolding teamsSend_def
    by (rule postsFor_bind[OF lookups_extend(3)]) (use hook single double in \<open>auto simp: Let_def split: sum.split\<close>)
qed

lemmas posts_all = posts_slack posts_simple(1,2) posts_servicenow posts_teams

end

text \<open>C26: success means delivery: when a chat, incident or paging channel of the dispatcher reports
  no error, its last exchange is an answered post that contains the approval link. (Mail is in
  \<open>smtp_password_protected\<close>; the SNMP channel reports success without sending anything.)\<close>

theorem success_delivers_link:
  assumes "http_log (DefaultClient C) lg" and "NewDispatcher C G cfg = Inr d" and "f \<in> set (forwarders d)"
    and "FwdName f \<notin> {''smtp'', ''snmp''}" and "run_state (Send f n) w = (None, w')"
  shows "delivered (ApprovalURL n) (lg w) (lg w')"
proof -
  obtain c where c: "newForwarder C G c = Some (Inr f)"
    using assms(2,3) by (auto simp: NewDispatcher_def dest!: newForwarders_map split: sum.splits)
       (metis (no_types, lifting) comp_apply imageE image_eqI list.set_map)
  have "\<forall>n w. wp (Send f n) (\<lambda>err w'. err = None \<longrightarrow> delivered (ApprovalURL n) (lg w) (lg w')) w"
    using c assms(4) newForwarder_name[OF c] http_log.posts_all[OF assms(1)]
    by (auto simp: newForwarder_def Let_def split: if_splits sum.splits)
  then show ?thesis using wpD assms(5) by fast
qed

section \<open>Mail\<close>

text \<open>What a mail server sees of a delivery. Opening commands and the end of the dialogue are not
  recorded.\<close>

datatype smtp_event =
    SAuth (authServer: string) (authTLS: bool) string string
  | SMail string
  | SRcpt string
  | SMessage string

locale smtp_log =
  fixes N :: "('w, 'c) smtp_lib"
    and ev :: "'w \<Rightarrow> smtp_event list"
  assumes ev_silent: "ev (snd (run_state (SmtpDial N a) w)) = ev w" "ev (snd (run_state (TLSDial N a h skip) w)) = ev w"
      "ev (snd (run_state (SmtpGreeting N c) w)) = ev w" "ev (snd (run_state (SmtpHello N c) w)) = ev w"
      "ev (snd (run_state (SmtpStartTLS N c h skip) w)) = ev w" "ev (snd (run_state (SmtpData N c) w)) = ev w"
      "ev (snd (run_state (SmtpCloseData N c) w)) = ev w" "ev (snd (run_state (SmtpQuit N c) w)) = ev w"
      "ev (snd (run_state (SmtpClose N c) w)) = ev w"
    and ev_auth: "ev (snd (run_state (SmtpAuth N sc u p) w)) = ev w @ [SAuth (serverName sc) (smtpTLS sc) u p]"
    and ev_mail: "ev (snd (run_state (SmtpMail N c from) w)) = ev w @ [SMail from]"
    and ev_rcpt: "ev (snd (run_state (SmtpRcpt N c to) w)) = ev w @ [SRcpt to]"
    and ev_write: "ev (snd (run_state (SmtpWrite N c msg) w)) = ev w @ [SMessage msg]"

text \<open>The password goes only to the configured server, and only where the connection is encrypted or
  stays on the machine.\<close>

definition authSafe :: "SMTPForwarder \<Rightarrow> smtp_event \<Rightarrow> bool" where
  "authSafe s e = (case e of
      SAuth srv tls u p \<Rightarrow> (tls \<or> isLocalhost srv) \<and> srv = smtpServer s \<and> u = smtpUsername s \<and> p = smtpPassword s
    | _ \<Rightarrow> True)"

definition mailRun :: "SMTPForwarder \<Rightarrow> string \<Rightarrow> string \<Rightarrow> smtp_event list \<Rightarrow> string option \<Rightarrow> smtp_event list \<Rightarrow> bool" where
  "mailRun s to msg l0 err l \<longleftrightarrow> (\<exists>es. l = l0 @ es \<and> list_all (authSafe s) es \<and>
     (err = None \<longrightarrow> filter (\<lambda>e. \<forall>a b c d. e \<noteq> SAuth a b c d) es = [SMail (smtpFrom s), SRcpt to, SMessage msg]))"

context smtp_log
begin

lemma silent_wp: "ev (snd (run_state m w)) = ev w \<Longrightarrow> (\<And>a w'. ev w' = ev w \<Longrightarrow> Q a w') \<Longrightarrow> wp m Q w"
  by (simp add: wp_run)

lemma command_wp: "ev (snd (run_state m w)) = ev w @ [e] \<Longrightarrow> (\<And>a w'. ev w' = ev w @ [e] \<Longrightarrow> Q a w') \<Longrightarrow> wp m Q w"
  by (simp add: wp_run)

lemmas smtp_wp = ev_silent[THEN silent_wp] ev_auth[THEN command_wp] ev_mail[THEN command_wp] ev_rcpt[THEN command_wp]
  ev_write[THEN command_wp]

lemma clientAuth_wp:
  "wp (clientAuth N c u p h) (\<lambda>err w'. (ev w' = ev w \<and> err \<noteq> None) \<or>
    (ev w' = ev w @ [SAuth h (smtpTLS c) u p] \<and> (smtpTLS c \<or> isLocalhost h))) w"
  by (auto simp: clientAuth_def plainAuthStart_def split: option.split intro!: smtp_wp)

lemma deliver_wp: "wp (deliver N s c to msg) (\<lambda>err w'. mailRun s to msg (ev w) err (ev w')) w"
proof -
  have commands: "wp (inOrder (mailCommands N s (smtpConn c) to msg)) (\<lambda>err w'. mailRun s to msg l err (ev w')) v"
    if "ev v = l @ es" "list_all (authSafe s) es" "\<forall>e \<in> set es. \<exists>a b c d. e = SAuth a b c d" for l es v
    using that
    by (auto simp: mailCommands_def mailRun_def authSafe_def filter_empty_conv split: option.split intro!: smtp_wp)
  let ?auth = "SAuth (smtpServer s) (smtpTLS c) (smtpUsername s) (smtpPassword s)"
  have "wp (inOrder (mailCommands N s (smtpConn c) to msg)) (\<lambda>err w'. mailRun s to msg (ev w) err (ev w')) w"
    by (rule commands[of _ _ "[]"]) simp_all
  moreover have "wp (inOrder (mailCommands N s (smtpConn c) to msg)) (\<lambda>err w'. mailRun s to msg (ev w) err (ev w')) v"
    if "ev v = ev w @ [?auth]" "smtpTLS c \<or> isLocalhost (smtpServer s)" for v
    by (rule commands[of _ _ "[?auth]"]) (use that in \<open>simp_all add: authSafe_def\<close>)
  moreover have "mailRun s to msg (ev w) (Some e) (ev w)" "smtpTLS c \<or> isLocalhost (smtpServer s) \<Longrightarrow>
      mailRun s to msg (ev w) (Some e) (ev w @ [?auth])" for e
    by (simp_all add: mailRun_def authSafe_def)
  ultimately show ?thesis
    by (auto simp: deliver_def split: option.split intro!: wp_conseq[OF clientAuth_wp])
qed

lemma closing_wp:
  assumes "wp m (\<lambda>err w'. mailRun s to msg l err (ev w')) w"
  shows "wp (closing N c m) (\<lambda>err w'. mailRun s to msg l err (ev w')) w"
  unfolding closing_def wp_bind
  by (rule wp_conseq[OF assms]) (auto intro!: smtp_wp)

lemma mailRun_failed [simp]: "mailRun s to msg l (Some e) l"
  by (simp add: mailRun_def)

lemma smtpDialClient_wp:
  assumes "\<And>r w'. ev w' = ev w \<Longrightarrow> Q r w'"
  shows "wp (smtpDialClient N s) Q w"
  using assms by (auto simp: smtpDialClient_def split: sum.split option.split intro!: smtp_wp)

lemma deliver_from: "ev v = l \<Longrightarrow> wp (deliver N s c to msg) (\<lambda>err w'. mailRun s to msg l err (ev w')) v"
  using deliver_wp by blast

lemma sendSTARTTLS_wp: "wp (sendSTARTTLS N s to msg) (\<lambda>err w'. mailRun s to msg (ev w) err (ev w')) w"
proof -
  have "wp (closing N (smtpConn c) (inOrder [(a, SmtpHello N (smtpConn c)), (a, SmtpStartTLS N (smtpConn c) h skip)] \<bind>
      (\<lambda>r. case r of Some err \<Rightarrow> ret (Some err) | None \<Rightarrow> deliver N s c' to msg)))
    (\<lambda>err w'. mailRun s to msg (ev w) err (ev w')) v" if "ev v = ev w" for a c c' h skip v
    using that by (intro closing_wp) (auto split: option.split intro!: smtp_wp deliver_from mailRun_failed)
  then show ?thesis
    by (auto simp: sendSTARTTLS_def simp del: inOrder.simps split: sum.split intro!: smtpDialClient_wp)
qed

lemma sendPlain_wp: "wp (sendPlain N s to msg) (\<lambda>err w'. mailRun s to msg (ev w) err (ev w')) w"
  by (auto simp: sendPlain_def split: sum.split intro!: smtpDialClient_wp closing_wp deliver_from)

lemma sendImplicitTLS_wp: "wp (sendImplicitTLS N s to msg) (\<lambda>err w'. mailRun s to msg (ev w) err (ev w')) w"
  by (auto simp: sendImplicitTLS_def split: sum.split option.split intro!: smtp_wp closing_wp deliver_from)

lemma smtpSend_wp: "wp (smtpSend N s n) (\<lambda>err w'. mailRun s (mailTo s n) (mailMessage s (mailTo s n) n) (ev w) err (ev w')) w"
  by (simp add: smtpSend_def Let_def sendSTARTTLS_wp sendPlain_wp sendImplicitTLS_wp)

end

text \<open>C15: the mail channel sends its password only to the configured server and only over an encrypted
  connection or within the machine, whatever the TLS mode says; and when it reports no error, the
  server got one message from the configured sender to the configured recipient with the owner filled
  in, and the message contains the approval link.\<close>

theorem smtp_password_protected:
  assumes "smtp_log N ev" and "run_state (smtpSend N s n) w = (err, w')"
  shows "\<exists>es. ev w' = ev w @ es \<and>
    (\<forall>srv tls u p. SAuth srv tls u p \<in> set es \<longrightarrow> (tls \<or> isLocalhost srv) \<and> srv = smtpServer s) \<and>
    (err = None \<longrightarrow> (\<exists>msg. filter (\<lambda>e. \<forall>a b c d. e \<noteq> SAuth a b c d) es =
        [SMail (smtpFrom s), SRcpt (ReplaceAll ''{{owner}}'' (NtfOwner n) (smtpTo s)), SMessage msg] \<and>
      sublist (ApprovalURL n) msg))"
proof -
  have "sublist (ApprovalURL n) (mailMessage s to n)" for to
    unfolding mailMessage_def by (rule sublist_scan)+
  then show ?thesis
    using wpD[OF smtp_log.smtpSend_wp[OF assms(1)] assms(2)]
    by (fastforce simp: mailRun_def mailTo_def list_all_iff authSafe_def)
qed

section \<open>Channels in memory\<close>

record noteWorld =
  exchanged :: "(OutRequest \<times> (string + OutResponse)) list"
  mailLog :: "smtp_event list"

definition okAnswer :: OutResponse where
  "okAnswer = \<lparr>OutStatus = 200, OutText = [], OutJSON = Some (JObj [(''ok'', JBool True)])\<rparr>"

definition memHTTP :: "noteWorld default_client" where
  "memHTTP r = act (\<lambda>w. (Inr okAnswer, w\<lparr>exchanged := exchanged w @ [(r, Inr okAnswer)]\<rparr>))"

abbreviation mailed :: "smtp_event list \<Rightarrow> (noteWorld, string option) state" where
  "mailed es \<equiv> act (\<lambda>w. (None, w\<lparr>mailLog := mailLog w @ es\<rparr>))"

definition memMail :: "(noteWorld, unit) smtp_lib" where
  "memMail = \<lparr>SmtpDial = (\<lambda>_. ret (Inr ())), TLSDial = (\<lambda>_ _ _. ret (Inr ())), SmtpGreeting = (\<lambda>_. ret None),
     SmtpHello = (\<lambda>_. ret None), SmtpStartTLS = (\<lambda>_ _ _. ret None),
     SmtpAuth = (\<lambda>c u p. mailed [SAuth (serverName c) (smtpTLS c) u p]), SmtpMail = (\<lambda>_ from. mailed [SMail from]),
     SmtpRcpt = (\<lambda>_ to. mailed [SRcpt to]), SmtpData = (\<lambda>_. ret None), SmtpWrite = (\<lambda>_ msg. mailed [SMessage msg]),
     SmtpCloseData = (\<lambda>_. ret None), SmtpQuit = (\<lambda>_. ret None), SmtpClose = (\<lambda>_. ret ())\<rparr>"

interpretation mem_http: http_log memHTTP exchanged
  by unfold_locales (simp add: memHTTP_def)

interpretation mem_mail: smtp_log memMail mailLog
  by unfold_locales (simp_all add: memMail_def)

definition memChannels :: "(noteWorld, unit) channel_lib" where
  "memChannels = \<lparr>DefaultClient = memHTTP, MailNet = memMail, BasicAuth = (\<lambda>u p. u @ '':'' @ p)\<rparr>"

definition memSecrets :: secret_getter where
  "memSecrets name ns = Inr (map_of [(''botToken'', ''xoxb''), (''username'', ''ovro''), (''password'', ''pw'')])"

definition sampleConfig :: "string \<Rightarrow> ForwarderConfig" where
  "sampleConfig t = \<lparr>CfgType = t, CfgEnabled = True, CfgChannel = ''#ops'', CfgSecretRef = ''s'', CfgFrom = ''ovro@x'',
     CfgTo = ''{{owner}}@x'', CfgSMTPServer = ''mail'', CfgSMTPPort = 0, CfgSMTPTLS = [], CfgSMTPTLSSkipVerify = False,
     CfgHost = ''h'', CfgPort = 0, CfgCommunity = [], CfgServerURL = ''https://chat'', CfgInstanceURL = ''https://sn'',
     CfgAssignmentGroup = [], CfgCategory = []\<rparr>"

definition sampleNotification :: Notification where
  "sampleNotification = \<lparr>VMName = ''web'', NtfNamespace = ''prod'', NtfOwner = ''#ops'', NtfDirection = ''downsize'',
     CurrentCPU = 8, CurrentMemory = 16, RecCPU = 4, RecMemory = 8, ApprovalURL = ''https://ovro/approve?token=t''\<rparr>"

definition slackSample :: "noteWorld Forwarder" where
  "slackSample = \<lparr>FwdName = ''slack'', Send = slackSend memHTTP \<lparr>botToken = ''xoxb'', slackFallback = ''#ops''\<rparr>\<rparr>"

lemma sample_dispatcher:
  "NewDispatcher memChannels memSecrets \<lparr>CfgForwarders = [sampleConfig ''slack'']\<rparr> = Inr \<lparr>forwarders = [slackSample]\<rparr>"
  by (simp add: NewDispatcher_def newForwarder_def NewSlackForwarder_def sampleConfig_def memSecrets_def memChannels_def
      slackSample_def)

lemma slack_url: "NewRequestPath ''https://slack.com/api/chat.postMessage'' = Some ''/api/chat.postMessage''"
  by code_simp

lemma slack_ok: "decodeSlack False (OutJSON okAnswer) = Some \<lparr>SlackOK = True, SlackError = [], SlackUserID = []\<rparr>"
  by code_simp

lemma slackSample_sends:
  "\<exists>w'. run_state (Send slackSample sampleNotification) \<lparr>exchanged = [], mailLog = []\<rparr> = (None, w')"
  by (simp add: slackSample_def slackSend_def resolveChannel_def sampleNotification_def NewRequest_def slack_url memHTTP_def slack_ok)

theorem success_delivers_link_witness:
  "delivered ''https://ovro/approve?token=t'' []
    (exchanged (snd (run_state (Send slackSample sampleNotification) \<lparr>exchanged = [], mailLog = []\<rparr>)))"
proof -
  obtain w' where w': "run_state (Send slackSample sampleNotification) \<lparr>exchanged = [], mailLog = []\<rparr> = (None, w')"
    using slackSample_sends by blast
  have "http_log (DefaultClient memChannels) exchanged"
    using mem_http.http_log_axioms by (simp add: memChannels_def)
  from success_delivers_link[OF this sample_dispatcher _ _ w'] show ?thesis
    unfolding w' by (simp add: slackSample_def sampleNotification_def)
qed

theorem send_except_as_removed_witness:
  "\<exists>d'. NewDispatcher memChannels memSecrets (withoutTypes [''slack''] \<lparr>CfgForwarders = [sampleConfig ''slack'']\<rparr>) = Inr d' \<and>
    SendAllExcept \<lparr>forwarders = [slackSample]\<rparr> sampleNotification [''slack''] = SendAll d' sampleNotification"
  by (rule send_except_as_removed[OF sample_dispatcher])

definition mailSample :: SMTPForwarder where
  "mailSample = \<lparr>smtpFrom = ''ovro@x'', smtpTo = ''{{owner}}@x'', smtpServer = ''mail'', smtpPort = 587,
     tlsMode = ''starttls'', tlsSkipVerify = False, smtpUsername = ''ovro'', smtpPassword = ''pw''\<rparr>"

theorem smtp_password_protected_witness:
  "\<exists>es. mailLog (snd (run_state (smtpSend memMail mailSample sampleNotification) \<lparr>exchanged = [], mailLog = []\<rparr>)) = es \<and>
    SAuth ''mail'' True ''ovro'' ''pw'' \<in> set es \<and>
    (\<forall>srv tls u p. SAuth srv tls u p \<in> set es \<longrightarrow> (tls \<or> isLocalhost srv) \<and> srv = ''mail'')"
proof -
  let ?w = "\<lparr>exchanged = [], mailLog = []\<rparr>"
  have host: "hostOf ''mail'' = ''mail''" by code_simp
  have "SAuth ''mail'' True ''ovro'' ''pw'' \<in> set (mailLog (snd (run_state (smtpSend memMail mailSample sampleNotification) ?w)))"
    by (simp add: smtpSend_def mailSample_def Let_def sendSTARTTLS_def smtpDialClient_def closing_def deliver_def clientAuth_def
        plainAuthStart_def host mailCommands_def memMail_def)
  moreover obtain es where "mailLog (snd (run_state (smtpSend memMail mailSample sampleNotification) ?w)) = es"
      "\<forall>srv tls u p. SAuth srv tls u p \<in> set es \<longrightarrow> (tls \<or> isLocalhost srv) \<and> srv = ''mail''"
    using smtp_password_protected[OF mem_mail.smtp_log_axioms prod.collapse[symmetric],
        of mailSample sampleNotification ?w]
    by (auto simp: mailSample_def)
  ultimately show ?thesis by blast
qed

end
