(* ===== verification/Wiring.thy ===== *)
theory Wiring
  imports Prometheus_Client Restart_Controller Approval_Flow Forwarders
begin

text \<open>
  How the two processes are put together: \<open>cmd/main.go\<close> (the operator: both controllers and the API
  server), \<open>cmd/approval-proxy/main.go\<close> and the constructors they call.

  What the processes read from outside is the record \<open>environment\<close>: flags, environment variables and
  files. \<open>Inl\<close> is \<open>os.Exit(1)\<close> with its message. The manager, its leader election, probes, metrics
  and certificates are controller-runtime's and are not modelled.
\<close>

record environment =
  FlagRouteHost :: string
  FlagSigningKeyPath :: string
  FlagPrometheusURL :: string
  FlagBackendURL :: string
  EnvRouteHost :: string
  EnvSigningKeyPath :: string
  EnvDemoMode :: string
  EnvBackendURL :: string
  ReadFile :: "string \<Rightarrow> string + string"
  RandomKey :: "string + string"
  NotificationFile :: "(string + NotifierConfig) option"
  ServiceAccountToken :: "string option"

text \<open>An environment variable that is set and not empty overrides the flag.\<close>

definition override :: "string \<Rightarrow> string \<Rightarrow> string" where
  "override flag env = (if env \<noteq> [] then env else flag)"

text \<open>The secrets of the notification channels, read through the manager's client; \<open>get\<close> is its
  \<open>Get\<close> for a \<open>Secret\<close>.\<close>

record k8s_secret =
  SecretData :: "string strmap"

definition GetSecretData :: "(string \<Rightarrow> string \<Rightarrow> string + k8s_secret) \<Rightarrow> secret_getter" where
  "GetSecretData get name namespace = (case get name namespace of Inl err \<Rightarrow> Inl err | Inr secret \<Rightarrow> Inr (SecretData secret))"

text \<open>What the manager and the Kubernetes configuration provide.\<close>

record ('w, 'o, 'q, 'c) platform =
  PlLib :: "('w, 'o, 'q) lib"
  PlClient :: "('w, 'o, 'q) client"
  PlClientset :: "'w clientset"
  PlDynamic :: "('w, 'o) dynamic"
  PlChannels :: "('w, 'c) channel_lib"
  PlGetSecret :: "string \<Rightarrow> string \<Rightarrow> string + k8s_secret"
  PlMetricsHTTP :: "PromRequest \<Rightarrow> ('w, string + PromResponse) state"
  PlInsecureHTTP :: "PromRequest \<Rightarrow> ('w, string + PromResponse) state"

record ('w, 'o, 'q) operator =
  Recommender :: "('w, 'o, 'q) RightsizingRecommendationReconciler"
  Restarter :: "('w, 'o, 'q) RestartReconciler"
  ApiServer :: "('w, 'o, 'q) Server"

section \<open>The API server and its options\<close>

type_synonym ('w, 'o, 'q) ServerOption = "('w, 'o, 'q) Server \<Rightarrow> ('w, 'o, 'q) Server"

definition WithOwnerResolver :: "('w, 'o, 'q) client \<Rightarrow> ('w, 'o, 'q) ServerOption" where
  "WithOwnerResolver r s = s\<lparr>OwnerResolver := Some r\<rparr>"

definition WithTokenManager :: "TokenManager \<Rightarrow> ('w, 'o, 'q) ServerOption" where
  "WithTokenManager tm s = s\<lparr>SrvTokenManager := Some tm\<rparr>"

definition WithNotifier :: "'w Dispatcher \<Rightarrow> ('w, 'o, 'q) ServerOption" where
  "WithNotifier d s = s\<lparr>SrvNotifier := Some d\<rparr>"

definition WithApprovalRouteHost :: "string \<Rightarrow> ('w, 'o, 'q) ServerOption" where
  "WithApprovalRouteHost host s = s\<lparr>ApprovalRouteHost := host\<rparr>"

definition WithDemoMode :: "bool \<Rightarrow> ('w, 'o, 'q) ServerOption" where
  "WithDemoMode enabled s = s\<lparr>DemoMode := enabled\<rparr>"

definition NewServer :: "('w, 'o, 'q) client \<Rightarrow> 'w clientset \<Rightarrow> ('w, 'o) dynamic \<Rightarrow> ('w, 'o, 'q) ServerOption list \<Rightarrow>
    ('w, 'o, 'q) Server" where
  "NewServer c cs dyn opts = fold (\<lambda>opt s. opt s) opts
    \<lparr>K8sClient = c, Clientset = Some cs, DynamicClient = Some dyn, OwnerResolver = None, SrvTokenManager = None,
     SrvNotifier = None, ApprovalRouteHost = [], DemoMode = False\<rparr>"

lemmas option_defs = WithOwnerResolver_def WithTokenManager_def WithNotifier_def WithApprovalRouteHost_def WithDemoMode_def

section \<open>The operator\<close>

text \<open>The approval workflow as \<open>main\<close> collects it: the server's options, the token manager, the
  dispatcher and the host of the approval route.\<close>

record ('w, 'o, 'q) workflow =
  WfOptions :: "('w, 'o, 'q) ServerOption list"
  WfTokenManager :: "TokenManager option"
  WfDispatcher :: "'w Dispatcher option"
  WfRouteHost :: string

definition demoWorkflow :: "environment \<Rightarrow> bool \<Rightarrow> string \<Rightarrow> string \<Rightarrow> string + ('w, 'o, 'q) workflow" where
  "demoWorkflow E demo keyPath host =
    (let opts = (if demo then [WithDemoMode True] else []) in
     if demo \<and> keyPath = [] then
       (case RandomKey E of
          Inl err \<Rightarrow> Inl ''failed to generate demo signing key''
        | Inr k \<Rightarrow> (let tm = \<lparr>signingKey = k\<rparr>; host' = (if host = [] then ''localhost:8443'' else host) in
            Inr \<lparr>WfOptions = opts @ [WithTokenManager tm, WithApprovalRouteHost host'], WfTokenManager = Some tm,
              WfDispatcher = None, WfRouteHost = host'\<rparr>))
     else Inr \<lparr>WfOptions = opts, WfTokenManager = None, WfDispatcher = None, WfRouteHost = host\<rparr>)"

definition notificationWorkflow :: "environment \<Rightarrow> ('w, 'o, 'q, 'c) platform \<Rightarrow> ('w, 'o, 'q) workflow \<Rightarrow>
    string + ('w, 'o, 'q) workflow" where
  "notificationWorkflow E P flow = (case NotificationFile E of
      None \<Rightarrow> Inr flow
    | Some (Inl err) \<Rightarrow> Inl err
    | Some (Inr cfg) \<Rightarrow> (case NewDispatcher (PlChannels P) (GetSecretData (PlGetSecret P)) cfg of
        Inl err \<Rightarrow> Inl ''failed to create notification dispatcher''
      | Inr d \<Rightarrow> Inr (flow\<lparr>WfDispatcher := Some d, WfOptions := WfOptions flow @ [WithNotifier d]\<rparr>)))"

definition keyWorkflow :: "environment \<Rightarrow> ('w, 'o, 'q, 'c) platform \<Rightarrow> string \<Rightarrow> ('w, 'o, 'q) workflow \<Rightarrow>
    string + ('w, 'o, 'q) workflow" where
  "keyWorkflow E P keyPath flow =
    (if keyPath = [] then Inr flow
     else (case ReadFile E keyPath of
         Inl err \<Rightarrow> Inl ''failed to read signing key''
       | Inr k \<Rightarrow> (let tm = \<lparr>signingKey = k\<rparr> in
           notificationWorkflow E P (flow\<lparr>WfTokenManager := Some tm,
             WfOptions := WfOptions flow @ [WithTokenManager tm, WithOwnerResolver (PlClient P)] @
               (if WfRouteHost flow \<noteq> [] then [WithApprovalRouteHost (WfRouteHost flow)] else [])\<rparr>))))"

definition components :: "environment \<Rightarrow> ('w, 'o, 'q, 'c) platform \<Rightarrow> bool \<Rightarrow> ('w, 'o, 'q) workflow \<Rightarrow> ('w, 'o, 'q) operator" where
  "components E P demo flow =
    (let prom = NewClient (ServiceAccountToken E) (PlMetricsHTTP P) (PlInsecureHTTP P) (FlagPrometheusURL E);
         vmApplier = \<lparr>dynamicClient = PlDynamic P\<rparr>
     in \<lparr>Recommender = \<lparr>RecClient = PlClient P, PromClient = prometheusAdapter (Oor (PlLib P)) prom, RecDemoMode = demo,
           RecApplier = Some vmApplier, RecOwnerResolver = Some (PlClient P), RecTokenManager = WfTokenManager flow,
           RecNotifier = WfDispatcher flow, RecApprovalRouteHost = WfRouteHost flow\<rparr>,
         Restarter = \<lparr>RstClient = PlClient P, RstApplier = vmApplier\<rparr>,
         ApiServer = NewServer (PlClient P) (PlClientset P) (PlDynamic P) (WfOptions flow)\<rparr>)"

definition startOperator :: "environment \<Rightarrow> ('w, 'o, 'q, 'c) platform \<Rightarrow> string + ('w, 'o, 'q) operator" where
  "startOperator E P =
    (let host = override (FlagRouteHost E) (EnvRouteHost E);
         keyPath = override (FlagSigningKeyPath E) (EnvSigningKeyPath E);
         demo = (EnvDemoMode E = ''true'')
     in case demoWorkflow E demo keyPath host of
          Inl err \<Rightarrow> Inl err
        | Inr flow \<Rightarrow> (case keyWorkflow E P keyPath flow of
            Inl err \<Rightarrow> Inl err
          | Inr flow' \<Rightarrow> Inr (components E P demo flow')))"

section \<open>The proxy\<close>

definition TrimRight :: "string \<Rightarrow> char \<Rightarrow> string" where
  "TrimRight s c = rev (dropWhile (\<lambda>d. d = c) (rev s))"

definition NewProxy :: "'w http_client \<Rightarrow> TokenManager \<Rightarrow> string \<Rightarrow> 'w ApprovalProxy" where
  "NewProxy http tm url = \<lparr>tokenManager = tm, backendURL = TrimRight url (CHR ''/''), httpClient = http\<rparr>"

definition startProxy :: "environment \<Rightarrow> 'w http_client \<Rightarrow> string + 'w ApprovalProxy" where
  "startProxy E http =
    (let url = override (FlagBackendURL E) (EnvBackendURL E);
         keyPath = override (FlagSigningKeyPath E) (EnvSigningKeyPath E)
     in if url = [] then Inl ''backend-url is required (flag or BACKEND_URL env var)''
        else if keyPath = [] then Inl ''signing-key-path is required (flag or SIGNING_KEY_PATH env var)''
        else (case ReadFile E keyPath of
            Inl err \<Rightarrow> Inl ''failed to read signing key''
          | Inr k \<Rightarrow> Inr (NewProxy http \<lparr>signingKey = k\<rparr> url)))"

section \<open>What the wiring gives\<close>

lemma startOperator_cases:
  assumes "startOperator E P = Inr sys" and "EnvDemoMode E \<noteq> ''true''"
  defines "keyPath \<equiv> override (FlagSigningKeyPath E) (EnvSigningKeyPath E)"
  obtains (unkeyed) "keyPath = []" "OwnerResolver (ApiServer sys) = None" "RecTokenManager (Recommender sys) = None"
      "SrvNotifier (ApiServer sys) = None" "\<not> DemoMode (ApiServer sys)" "SrvTokenManager (ApiServer sys) = None"
  | (keyed) k where "keyPath \<noteq> []" "ReadFile E keyPath = Inr k"
      "OwnerResolver (ApiServer sys) = Some (PlClient P)" "RecOwnerResolver (Recommender sys) = Some (PlClient P)"
      "SrvTokenManager (ApiServer sys) = Some \<lparr>signingKey = k\<rparr>" "RecTokenManager (Recommender sys) = Some \<lparr>signingKey = k\<rparr>"
      "SrvNotifier (ApiServer sys) = RecNotifier (Recommender sys)" "\<not> DemoMode (ApiServer sys)"
      "SrvNotifier (ApiServer sys) = None \<longleftrightarrow> NotificationFile E = None"
proof (cases "keyPath = []")
  case True
  then have "sys = components E P False \<lparr>WfOptions = [], WfTokenManager = None, WfDispatcher = None,
      WfRouteHost = override (FlagRouteHost E) (EnvRouteHost E)\<rparr>"
    using assms(1,2) by (simp add: startOperator_def demoWorkflow_def keyWorkflow_def keyPath_def Let_def)
  then show ?thesis using True by (intro unkeyed) (simp_all add: components_def NewServer_def Let_def)
next
  case False
  then obtain k where k: "ReadFile E keyPath = Inr k"
    using assms(1,2) by (auto simp: startOperator_def demoWorkflow_def keyWorkflow_def keyPath_def Let_def split: sum.splits)
  then obtain flow where flow: "notificationWorkflow E P \<lparr>WfOptions = [WithTokenManager \<lparr>signingKey = k\<rparr>, WithOwnerResolver (PlClient P)] @
        (if override (FlagRouteHost E) (EnvRouteHost E) \<noteq> [] then [WithApprovalRouteHost (override (FlagRouteHost E) (EnvRouteHost E))] else []),
      WfTokenManager = Some \<lparr>signingKey = k\<rparr>, WfDispatcher = None, WfRouteHost = override (FlagRouteHost E) (EnvRouteHost E)\<rparr> = Inr flow"
      and "sys = components E P False flow"
    using False assms(1,2)
    by (auto simp: startOperator_def demoWorkflow_def keyWorkflow_def keyPath_def Let_def cong: if_cong split: sum.splits)
  then show ?thesis using False k
    by (intro keyed[of k])
       (auto simp: notificationWorkflow_def components_def NewServer_def option_defs Let_def split: option.splits sum.splits if_splits)
qed

text \<open>C13: the two owner gates of the operator, outside demo mode. With a signing key and a
  notification file, applying through the API and automatic application ask the same owner of
  every recommendation. Without a signing key neither asks anyone. With a key but without a
  notification file only automatic application asks; the API applies at once.\<close>

theorem owner_gates_wired:
  assumes "startOperator E P = Inr sys" and "EnvDemoMode E \<noteq> ''true''"
  shows "if override (FlagSigningKeyPath E) (EnvSigningKeyPath E) = []
    then serverOwner L (ApiServer sys) rec w = [] \<and> effectiveOwner L (Recommender sys) rec w = []
    else effectiveOwner L (Recommender sys) rec w = ownerOf (fst (run_state (ResolveOwner (Unstructured L) (PlClient P)
        (RefName (VirtualMachineRef (Spec rec))) (RefNamespace (VirtualMachineRef (Spec rec)))) w)) \<and>
      serverOwner L (ApiServer sys) rec w =
        (if NotificationFile E = None then [] else effectiveOwner L (Recommender sys) rec w)"
  using assms
proof (cases rule: startOperator_cases)
  case unkeyed
  then show ?thesis by (simp add: serverOwner_def effectiveOwner_def split: option.split)
next
  case (keyed k)
  then show ?thesis by (auto simp: serverOwner_def effectiveOwner_def split: option.split)
qed

text \<open>C14: an approval link of the operator opens at the proxy: when both processes read their key from
  the same file, a token that either controller or the API server puts into a link is accepted
  by the proxy until it expires, with the recommendation and the owner it was made for.\<close>

theorem wired_link_opens:
  assumes "jwt (Jwt L) verifies" and "startOperator E P = Inr sys" "EnvDemoMode E \<noteq> ''true''" and "startProxy E http = Inr p"
    and "SrvTokenManager (ApiServer sys) = Some tm \<or> RecTokenManager (Recommender sys) = Some tm"
    and "run_state (GenerateToken (Jwt L) (Now L) tm ns n owner ttl) w = (Inr tok, w1)"
    and "ascii ns" "ascii n" "ascii owner"
    and "fst (run_state (Now L) w2) < truncSecond (fst (run_state (Now L) w) + ttl)"
  shows "\<exists>c. fst (run_state (ValidateToken (Jwt L) (Now L) (tokenManager p) tok) w2) = Inr c \<and>
    ClmNamespace c = ns \<and> RecName c = n \<and> ClmOwner c = owner"
proof -
  have "tokenManager p = tm"
    using assms(2,3)
  proof (cases rule: startOperator_cases)
    case unkeyed
    then show ?thesis using assms(5) by simp
  next
    case (keyed k)
    then show ?thesis using assms(4,5) by (auto simp: startProxy_def NewProxy_def Let_def split: if_splits)
  qed
  then show ?thesis using jwt.Generate_Validate[OF assms(1,6-10)] by (auto simp: newClaims_def)
qed

section \<open>A wired system in memory\<close>

definition offlineMail :: "(memWorld, unit) smtp_lib" where
  "offlineMail = (let e = ret (Some ''offline'') in
    \<lparr>SmtpDial = (\<lambda>_. ret (Inl ''offline'')), TLSDial = (\<lambda>_ _ _. ret (Inl ''offline'')), SmtpGreeting = (\<lambda>_. e), SmtpHello = (\<lambda>_. e),
     SmtpStartTLS = (\<lambda>_ _ _. e), SmtpAuth = (\<lambda>_ _ _. e), SmtpMail = (\<lambda>_ _. e), SmtpRcpt = (\<lambda>_ _. e), SmtpData = (\<lambda>_. e),
     SmtpWrite = (\<lambda>_ _. e), SmtpCloseData = (\<lambda>_. e), SmtpQuit = (\<lambda>_. e), SmtpClose = (\<lambda>_. ret ())\<rparr>)"

definition memGetSecret :: "string \<Rightarrow> string \<Rightarrow> string + k8s_secret" where
  "memGetSecret name ns = Inr \<lparr>SecretData = map_of [(''botToken'', ''xoxb''), (''username'', ''ovro''), (''password'', ''pw'')]\<rparr>"

definition memPlatform :: "(memWorld, json, int, unit) platform" where
  "memPlatform = \<lparr>PlLib = memLib, PlClient = memClient, PlClientset = memClientset, PlDynamic = memDynamic,
     PlChannels = \<lparr>DefaultClient = (\<lambda>_. ret (Inl ''offline'')), MailNet = offlineMail, BasicAuth = (\<lambda>u p. u)\<rparr>,
     PlGetSecret = memGetSecret, PlMetricsHTTP = metricsServer ''1'' 0 0, PlInsecureHTTP = metricsServer ''1'' 0 0\<rparr>"

definition memEnvironment :: environment where
  "memEnvironment = \<lparr>FlagRouteHost = ''ovro.example'', FlagSigningKeyPath = ''/key'', FlagPrometheusURL = ''http://metrics'',
     FlagBackendURL = ''https://ovro-api:8443/'', EnvRouteHost = [], EnvSigningKeyPath = [], EnvDemoMode = [], EnvBackendURL = [],
     ReadFile = (\<lambda>_. Inr ''k''), RandomKey = Inr ''r'', NotificationFile = Some (Inr \<lparr>CfgForwarders = [sampleConfig ''slack'']\<rparr>),
     ServiceAccountToken = None\<rparr>"

lemma memOperator:
  obtains sys where "startOperator memEnvironment memPlatform = Inr sys"
    and "effectiveOwner memLib (Recommender sys) (sampleRec pendingStatus) (ownedWorld pendingStatus) = ''alice''"
    and "RecTokenManager (Recommender sys) = Some \<lparr>signingKey = ''k''\<rparr>"
proof -
  obtain sys where sys: "startOperator memEnvironment memPlatform = Inr sys"
    and R: "RecOwnerResolver (Recommender sys) = Some memClient" "RecTokenManager (Recommender sys) = Some \<lparr>signingKey = ''k''\<rparr>"
    by (simp add: startOperator_def demoWorkflow_def keyWorkflow_def notificationWorkflow_def memEnvironment_def override_def
        NewDispatcher_def newForwarder_def NewSlackForwarder_def sampleConfig_def GetSecretData_def memGetSecret_def memPlatform_def components_def Let_def)
  have "effectiveOwner memLib (Recommender sys) (sampleRec pendingStatus) (ownedWorld pendingStatus) = ''alice''"
    using R by (simp add: effectiveOwner_def ResolveOwner_def ownedWorld_def mem_run sampleSpec_def ownerOf_def)
  with sys R that show ?thesis by blast
qed

theorem owner_gates_wired_witness:
  "\<exists>sys. startOperator memEnvironment memPlatform = Inr sys \<and>
    serverOwner memLib (ApiServer sys) (sampleRec pendingStatus) (ownedWorld pendingStatus) = ''alice''"
proof -
  obtain sys where sys: "startOperator memEnvironment memPlatform = Inr sys"
    "effectiveOwner memLib (Recommender sys) (sampleRec pendingStatus) (ownedWorld pendingStatus) = ''alice''"
    using memOperator by blast
  from owner_gates_wired[OF sys(1), of memLib "sampleRec pendingStatus" "ownedWorld pendingStatus"] sys show ?thesis
    by (auto simp: memEnvironment_def override_def)
qed

theorem wired_link_opens_witness:
  "\<exists>sys p tok c. startOperator memEnvironment memPlatform = Inr sys \<and>
    startProxy memEnvironment (\<lambda>_. ret (Inl [])) = Inr (p :: memWorld ApprovalProxy) \<and>
    fst (run_state (ValidateToken memJwt memNow (tokenManager p) tok) (emptyWorld\<lparr>wNow := Second\<rparr>)) = Inr c \<and>
    ClmNamespace c = ''prod'' \<and> RecName c = ''vm-web'' \<and> ClmOwner c = ''alice''"
proof -
  obtain sys where sys: "startOperator memEnvironment memPlatform = Inr sys"
    "RecTokenManager (Recommender sys) = Some \<lparr>signingKey = ''k''\<rparr>"
    using memOperator by blast
  obtain p :: "memWorld ApprovalProxy" where p: "startProxy memEnvironment (\<lambda>_. ret (Inl [])) = Inr p"
    by (simp add: startProxy_def memEnvironment_def override_def)
  obtain tok w1 where t: "run_state (GenerateToken memJwt memNow \<lparr>signingKey = ''k''\<rparr> ''prod'' ''vm-web'' ''alice'' (10 * Second)) emptyWorld =
      (Inr tok, w1)"
    by (auto simp: GenerateToken_def memNow_def memJwt_def memSign_def)
  have "jwt (Jwt memLib) memVerifies" using mem.jwt_axioms by simp
  from wired_link_opens[OF this sys(1) _ p, where ?w2.0 = "emptyWorld\<lparr>wNow := Second\<rparr>" and w = emptyWorld] sys(2) t
  have "\<exists>c. fst (run_state (ValidateToken memJwt memNow (tokenManager p) tok) (emptyWorld\<lparr>wNow := Second\<rparr>)) = Inr c \<and>
      ClmNamespace c = ''prod'' \<and> RecName c = ''vm-web'' \<and> ClmOwner c = ''alice''"
    by (fastforce simp: ascii_def memNow_def emptyWorld_def truncSecond_def memEnvironment_def)
  with sys p show ?thesis by blast
qed

end
