(* ===== verification/Platform.thy ===== *)
theory Platform
  imports Wiring
begin

text \<open>
  The operator of \<open>cmd/main.go\<close> on a lawful platform. The interfaces of the components are the
  locales \<open>reconciler_env\<close>, \<open>restart_env\<close> and \<open>server_env\<close>; here they are derived for the very components that
  \<open>startOperator\<close> builds, from what the platform promises: the store, the dynamic client, the clock,
  the reviews, and networks for metrics and notifications that do not write to the cluster.

  In particular the dispatcher that \<open>NewDispatcher\<close> makes of a configuration satisfies the contract
  \<open>notifying\<close> that the controllers and the API server rely on, whatever channels it has.
\<close>

section \<open>Notification channels\<close>

locale network =
  fixes C :: "('w, 'c) channel_lib"
    and ev :: "'w \<Rightarrow> 'q event list"
    and hi :: "'w \<Rightarrow> 'q recommendation set"
  assumes http_quiet [intro!]: "quiet ev hi (DefaultClient C r)"
    and mail_quiet [intro!]:
      "quiet ev hi (SmtpDial (MailNet C) a)" "quiet ev hi (TLSDial (MailNet C) a h skip)"
      "quiet ev hi (SmtpGreeting (MailNet C) c)" "quiet ev hi (SmtpHello (MailNet C) c)"
      "quiet ev hi (SmtpStartTLS (MailNet C) c h skip)" "quiet ev hi (SmtpAuth (MailNet C) sc u p)"
      "quiet ev hi (SmtpMail (MailNet C) c from)" "quiet ev hi (SmtpRcpt (MailNet C) c to)"
      "quiet ev hi (SmtpData (MailNet C) c)" "quiet ev hi (SmtpWrite (MailNet C) c msg)"
      "quiet ev hi (SmtpCloseData (MailNet C) c)" "quiet ev hi (SmtpQuit (MailNet C) c)"
      "quiet ev hi (SmtpClose (MailNet C) c)"
begin

lemma postExpecting_quiet [intro!]: "quiet ev hi (postExpecting (DefaultClient C) req ok c s)"
  by (auto simp: postExpecting_def split: option.splits)

lemma slackSend_quiet: "quiet ev hi (slackSend (DefaultClient C) s n)"
proof -
  have look: "quiet ev hi (lookupUserByEmail (DefaultClient C) s e)" for e
    by (auto simp: lookupUserByEmail_def split: option.splits)
  have "quiet ev hi (resolveChannel (DefaultClient C) s owner)" for owner
    by (auto simp: resolveChannel_def intro!: look quiet_bind split: sum.splits list.splits)
  then show ?thesis by (auto simp: slackSend_def intro!: quiet_bind split: sum.splits option.splits)
qed

lemma teamsSend_quiet: "quiet ev hi (teamsSend (DefaultClient C) t n)"
proof -
  have "quiet ev hi (getAccessToken (DefaultClient C) t)"
    by (auto simp: getAccessToken_def split: option.splits)
  moreover have "quiet ev hi (lookupUser (DefaultClient C) token u)" for token u
    by (auto simp: lookupUser_def split: option.splits)
  moreover have "quiet ev hi (postChat (DefaultClient C) token chat n)" for token chat
    by (auto simp: postChat_def split: option.splits)
  moreover from this have "quiet ev hi (sendChatMessage (DefaultClient C) token u n)" for token u
    by (auto simp: sendChatMessage_def intro!: quiet_bind split: option.splits sum.splits)
  moreover have "quiet ev hi (webhookOr (DefaultClient C) t n e)" for e
    by (auto simp: webhookOr_def sendViaWebhook_def)
  ultimately show ?thesis
    by (auto simp: teamsSend_def Let_def intro!: quiet_bind split: sum.splits)
qed

lemma serviceNowSend_quiet: "quiet ev hi (serviceNowSend auth (DefaultClient C) s n)"
  by (auto simp: serviceNowSend_def split: option.splits)

lemma inOrder_quiet: "list_all (\<lambda>c. quiet ev hi (snd c)) cmds \<Longrightarrow> quiet ev hi (inOrder cmds)"
  by (induction cmds rule: inOrder.induct) (auto intro!: quiet_bind split: option.splits)

lemma smtpSend_quiet: "quiet ev hi (smtpSend (MailNet C) s n)"
proof -
  have "quiet ev hi (clientAuth (MailNet C) c u p h)" for c u p h
    by (auto simp: clientAuth_def intro!: quiet_bind split: option.splits)
  then have deliver: "quiet ev hi (deliver (MailNet C) s c to msg)" for c to msg
    unfolding deliver_def by (intro inOrder_quiet) (auto simp: mailCommands_def)
  have close: "quiet ev hi m \<Longrightarrow> quiet ev hi (closing (MailNet C) c m)" for c and m :: "('w, string option) state"
    by (auto simp: closing_def intro!: quiet_bind)
  have dial: "quiet ev hi (smtpDialClient (MailNet C) s)"
    by (auto simp: smtpDialClient_def intro!: quiet_bind split: sum.splits option.splits)
  have "quiet ev hi (sendImplicitTLS (MailNet C) s to msg)" "quiet ev hi (sendPlain (MailNet C) s to msg)"
      "quiet ev hi (sendSTARTTLS (MailNet C) s to msg)" for to msg
    by (auto simp: sendImplicitTLS_def sendPlain_def sendSTARTTLS_def simp del: inOrder.simps
        intro!: quiet_bind close deliver dial inOrder_quiet split: sum.splits option.splits)
  then show ?thesis by (simp add: smtpSend_def Let_def)
qed

lemmas channel_quiet = slackSend_quiet teamsSend_quiet serviceNowSend_quiet smtpSend_quiet

lemma newForwarder_quiet: "newForwarder C G cfg = Some (Inr f) \<Longrightarrow> quiet ev hi (Send f n)"
  by (auto simp: newForwarder_def Let_def pagerDutySend_def rocketChatSend_def snmpSend_def
      intro!: channel_quiet split: if_splits sum.splits)

lemma newForwarders_quiet:
  "newForwarders C G cfgs = Inr fs \<Longrightarrow> f \<in> set fs \<Longrightarrow> quiet ev hi (Send f n)"
  by (induction cfgs arbitrary: fs) (auto dest: newForwarder_quiet split: if_splits option.splits sum.splits)

lemma NewDispatcher_notifying:
  assumes "NewDispatcher C G cfg = Inr d"
  shows "notifying (forwarders d) ev hi"
proof
  fix f n assume "f \<in> set (forwarders d)"
  then have "quiet ev hi (Send f n)" using assms newForwarders_quiet by (auto simp: NewDispatcher_def split: sum.splits)
  then show "emits ev hi (deliveries (FwdName f) n) (Send f n)"
    unfolding emits_def by (auto simp: deliveries_def elim!: quiet_wp intro!: exI[of _ "[]"])
qed

end

section \<open>The platform\<close>

locale platform_env =
  fixes P :: "('w, 'o, 'q, 'c) platform"
    and ev :: "'w \<Rightarrow> 'q event list"
    and hi :: "'w \<Rightarrow> 'q recommendation set"
  assumes store: "recommendation_store (PlClient P) ev hi"
    and vms: "vm_api (PlDynamic P) ev hi"
    and time: "clock (Now (PlLib P)) ev hi"
    and reviewing: "reviews (PlClientset P) ev hi"
    and networking: "network (PlChannels P) ev hi"
    and metrics: "quiet ev hi (PlMetricsHTTP P r)" "quiet ev hi (PlInsecureHTTP P r)"

text \<open>What every successful start gives, in demo mode or not.\<close>

lemma startOperator_parts:
  assumes "startOperator E P = Inr sys"
  shows "RecClient (Recommender sys) = PlClient P" "RecOwnerResolver (Recommender sys) = Some (PlClient P)"
    "RecApplier (Recommender sys) = Some \<lparr>dynamicClient = PlDynamic P\<rparr>"
    "PromClient (Recommender sys) = prometheusAdapter (Oor (PlLib P))
      (NewClient (ServiceAccountToken E) (PlMetricsHTTP P) (PlInsecureHTTP P) (FlagPrometheusURL E))"
    "Restarter sys = \<lparr>RstClient = PlClient P, RstApplier = \<lparr>dynamicClient = PlDynamic P\<rparr>\<rparr>"
    "K8sClient (ApiServer sys) = PlClient P" "Clientset (ApiServer sys) = Some (PlClientset P)"
    "DynamicClient (ApiServer sys) = Some (PlDynamic P)"
    "OwnerResolver (ApiServer sys) = None \<or> OwnerResolver (ApiServer sys) = Some (PlClient P)"
    "SrvNotifier (ApiServer sys) = RecNotifier (Recommender sys)"
    "RecNotifier (Recommender sys) = Some d \<Longrightarrow> \<exists>cfg. NewDispatcher (PlChannels P) (GetSecretData (PlGetSecret P)) cfg = Inr d"
  using assms
  by (auto simp: startOperator_def demoWorkflow_def keyWorkflow_def notificationWorkflow_def components_def NewServer_def
      option_defs Let_def split: if_splits sum.splits option.splits)

context platform_env
begin

lemma prometheusAdapter_quiet:
  "quiet ev hi (prometheusAdapter oor (NewClient token (PlMetricsHTTP P) (PlInsecureHTTP P) url) name ns days cores bytes)"
proof -
  have "quiet ev hi (QueryRange (NewClient token (PlMetricsHTTP P) (PlInsecureHTTP P) url) q)" for q
    using metrics by (auto simp: QueryRange_def NewClient_def split: option.splits)
  then have "quiet ev hi (GetVMMetrics (NewClient token (PlMetricsHTTP P) (PlInsecureHTTP P) url) name ns days)"
    by (auto simp: GetVMMetrics_def Let_def intro!: quiet_bind split: sum.splits)
  then show ?thesis by (auto simp: prometheusAdapter_def GetVMUtilization_def)
qed

lemma wired_notifying:
  "startOperator E P = Inr sys \<Longrightarrow> RecNotifier (Recommender sys) = Some d \<Longrightarrow> notifying (forwarders d) ev hi"
  using startOperator_parts(11) network.NewDispatcher_notifying[OF networking] by blast

lemma wired_reconciler: "startOperator E P = Inr sys \<Longrightarrow> reconciler_env (PlLib P) (Recommender sys) ev hi"
  by (rule reconciler_env.intro)
     (auto simp: startOperator_parts store vms time prometheusAdapter_quiet wired_notifying)

lemma wired_restart: "startOperator E P = Inr sys \<Longrightarrow> restart_env (PlLib P) (Restarter sys) ev hi"
  by (rule restart_env.intro) (auto simp: startOperator_parts store vms time)

lemma wired_server: "startOperator E P = Inr sys \<Longrightarrow> server_env (PlLib P) (ApiServer sys) ev hi"
  using startOperator_parts(9)[of E P sys]
  by (intro server_env.intro)
     (auto simp: startOperator_parts store vms time reviewing wired_notifying)

end

section \<open>Overlapping runs\<close>

text \<open>The laws of the platform do not say that a run has the cluster for itself. Let \<open>other\<close> be whatever the
  other processes do between two calls: it may change the world in any way, as long as it does not show
  in the view \<open>ev\<close> of what this run did, and the API server forgets no version. A lawful platform on
  which \<open>other\<close> happens before every call is lawful again.\<close>

definition after :: "('w, unit) state \<Rightarrow> ('w, 'a) state \<Rightarrow> ('w, 'a) state" where
  "after other m = do { _ \<leftarrow> other; m }"

lemma after_run:
  assumes "quiet ev hi other" and "run_state (after other m) w = (r, w')"
  obtains w1 where "trace ev hi w [] w1" "run_state m w1 = (r, w')"
  using assms by (auto simp: after_def quiet_def split: prod.splits) (metis snd_conv)

lemma after_quiet: "quiet ev hi other \<Longrightarrow> quiet ev hi m \<Longrightarrow> quiet ev hi (after other m)"
  unfolding after_def by (rule quiet_bind)

lemma trace_after: "trace ev hi w [] w1 \<Longrightarrow> trace ev hi w1 es w' \<Longrightarrow> trace ev hi w es w'"
  using trace_trans[of ev hi w "[]" w1 es w'] by simp

definition sharedClient :: "('w, unit) state \<Rightarrow> ('w, 'o, 'q) client \<Rightarrow> ('w, 'o, 'q) client" where
  "sharedClient other C = \<lparr>getPolicy = (\<lambda>n. after other (getPolicy C n)), updatePolicy = (\<lambda>p. after other (updatePolicy C p)),
     getRec = (\<lambda>ns n. after other (getRec C ns n)), listRecs = (\<lambda>ns. after other (listRecs C ns)),
     createRec = (\<lambda>x. after other (createRec C x)), updateRec = (\<lambda>x. after other (updateRec C x)),
     updateRecStatus = (\<lambda>x. after other (updateRecStatus C x)), deleteRec = (\<lambda>x. after other (deleteRec C x)),
     getVMObject = (\<lambda>ns n. after other (getVMObject C ns n)), getNamespaceLabels = (\<lambda>ns. after other (getNamespaceLabels C ns))\<rparr>"

definition sharedDynamic :: "('w, unit) state \<Rightarrow> ('w, 'o) dynamic \<Rightarrow> ('w, 'o) dynamic" where
  "sharedDynamic other D = \<lparr>dynGet = (\<lambda>ns n. after other (dynGet D ns n)), dynList = after other (dynList D),
     dynPatch = (\<lambda>ns n patch subs. after other (dynPatch D ns n patch subs))\<rparr>"

lemma sharedClient_simps:
  "getPolicy (sharedClient other C) n = after other (getPolicy C n)" "updatePolicy (sharedClient other C) p = after other (updatePolicy C p)"
  "getRec (sharedClient other C) ns n = after other (getRec C ns n)" "listRecs (sharedClient other C) o' = after other (listRecs C o')"
  "createRec (sharedClient other C) x = after other (createRec C x)" "updateRec (sharedClient other C) x = after other (updateRec C x)"
  "updateRecStatus (sharedClient other C) x = after other (updateRecStatus C x)"
  "deleteRec (sharedClient other C) x = after other (deleteRec C x)"
  "getVMObject (sharedClient other C) ns n = after other (getVMObject C ns n)"
  "getNamespaceLabels (sharedClient other C) ns = after other (getNamespaceLabels C ns)"
  by (simp_all add: sharedClient_def)

lemma shared_store:
  assumes store: "recommendation_store C ev hi" and other: "quiet ev hi other"
  shows "recommendation_store (sharedClient other C) ev hi"
proof (rule recommendation_store.intro, unfold sharedClient_simps, goal_cases)
  case (1 x w y)
  then show ?case using recommendation_store.versions[OF store] by blast
next
  case (3 ns n w x w')
  then show ?case using recommendation_store.getRec_stored[OF store] by (auto elim!: after_run[OF other])
next
  case (5 ons w xs w')
  then show ?case using recommendation_store.listRecs_stored[OF store] by (blast elim!: after_run[OF other])
next
  case (9 p w rp w')
  obtain w1 where "trace ev hi w [] w1" "run_state (updatePolicy C p) w1 = (rp, w')" by (rule after_run[OF other 9])
  then show ?case using recommendation_store.updatePolicy_law[OF store] by (blast intro: trace_after)
next
  case (10 x w r w')
  obtain w1 where "trace ev hi w [] w1" "run_state (createRec C x) w1 = (r, w')" by (rule after_run[OF other 10])
  then show ?case using recommendation_store.createRec_law[OF store] by (blast intro: trace_after)
next
  case (11 x w r w')
  obtain w1 where "trace ev hi w [] w1" "run_state (updateRec C x) w1 = (r, w')" by (rule after_run[OF other 11])
  then show ?case using recommendation_store.updateRec_law[OF store] by (blast intro: trace_after)
next
  case (12 x w r w')
  obtain w1 where "trace ev hi w [] w1" "run_state (updateRecStatus C x) w1 = (r, w')" by (rule after_run[OF other 12])
  then show ?case using recommendation_store.updateRecStatus_law[OF store] by (blast intro: trace_after)
next
  case (13 x w rd w')
  obtain w1 where "trace ev hi w [] w1" "run_state (deleteRec C x) w1 = (rd, w')" by (rule after_run[OF other 13])
  then show ?case using recommendation_store.deleteRec_law[OF store] by (blast intro: trace_after)
qed (intro after_quiet other recommendation_store.getRec_quiet[OF store] recommendation_store.listRecs_quiet[OF store]
    recommendation_store.getPolicy_quiet[OF store] recommendation_store.getVMObject_quiet[OF store]
    recommendation_store.getNamespaceLabels_quiet[OF store])+

lemma shared_vms:
  assumes "vm_api D ev hi" and other: "quiet ev hi other"
  shows "vm_api (sharedDynamic other D) ev hi"
proof (rule vm_api.intro)
  show "quiet ev hi (dynGet (sharedDynamic other D) ns n)" "quiet ev hi (dynList (sharedDynamic other D))" for ns n
    using assms by (auto simp: sharedDynamic_def vm_api_def intro!: after_quiet)
  fix ns n patch subs w r w' assume "run_state (dynPatch (sharedDynamic other D) ns n patch subs) w = (r, w')"
  then obtain w1 where w1: "trace ev hi w [] w1" "run_state (dynPatch D ns n patch subs) w1 = (r, w')"
    by (auto simp: sharedDynamic_def elim: after_run[OF other])
  show "trace ev hi w [] w' \<and> isl r \<or> trace ev hi w [VMPatched ns n patch subs] w'"
    using vm_api.dynPatch_law[OF assms(1) w1(2)] trace_after[OF w1(1)] by blast
qed

definition shared :: "('w, unit) state \<Rightarrow> ('w, 'o, 'q, 'c) platform \<Rightarrow> ('w, 'o, 'q, 'c) platform" where
  "shared other P = P\<lparr>PlClient := sharedClient other (PlClient P), PlDynamic := sharedDynamic other (PlDynamic P)\<rparr>"

lemma shared_platform:
  assumes P: "platform_env P ev hi" and "quiet ev hi other"
  shows "platform_env (shared other P) ev hi"
  using platform_env.store[OF P] platform_env.vms[OF P] platform_env.time[OF P] platform_env.reviewing[OF P]
    platform_env.networking[OF P] platform_env.metrics[OF P] assms(2)
  by (intro platform_env.intro) (simp_all add: shared_def shared_store shared_vms)

section \<open>The platform in memory\<close>

interpretation mem: network "PlChannels memPlatform" wEvents memHist
  by unfold_locales (simp_all add: memPlatform_def offlineMail_def Let_def)

interpretation mem: platform_env memPlatform wEvents memHist
  by (rule platform_env.intro)
     (simp_all add: memPlatform_def mem.recommendation_store_axioms mem.vm_api_axioms mem.clock_axioms mem.reviews_axioms
       mem.network_axioms[unfolded memPlatform_def, simplified] metricsServer_def)

text \<open>A cluster whose clock moves on between two calls.\<close>

definition tick :: "(memWorld, unit) state" where
  "tick = act (\<lambda>w. ((), w\<lparr>wNow := wNow w + Second\<rparr>))"

lemma tick_quiet: "quiet wEvents memHist tick"
  by (simp add: quiet_def trace_def tick_def memHist_def)

interpretation ticking: platform_env "shared tick memPlatform" wEvents memHist
  by (rule shared_platform[OF mem.platform_env_axioms tick_quiet])

end
