(* ===== verification/System.thy ===== *)
theory System
  imports Platform
begin

text \<open>
  The whole program on one cluster: runs of the operator's two controllers, of the API server and of
  the approval proxy in any order, and what holds of every recommendation along the way.

  The abstract specification is the life of a recommendation: its phases, and for each kind of write
  the steps between them that it may take. Every history that the program can produce is shown to
  refine it event by event.
\<close>

section \<open>The life of a recommendation\<close>

text \<open>\<open>Fresh\<close> is a recommendation whose first status has not been written, \<open>Stray\<close> any state that the
  program does not know.\<close>

datatype phase = Absent | Fresh | Pending | AwaitingApproval | PendingRestart | Applied | Reverted | Failed | Stray

definition phaseOf :: "string \<Rightarrow> phase" where
  "phaseOf st = (if st = [] then Fresh else if st = StatePending then Pending
     else if st = StateAwaitingApproval then AwaitingApproval else if st = StateAppliedPendingRestart then PendingRestart
     else if st = StateApplied then Applied else if st = StateReverted then Reverted
     else if st = StateFailed then Failed else Stray)"

definition phase :: "'q recommendation option \<Rightarrow> phase" where
  "phase cur = (case cur of None \<Rightarrow> Absent | Some x \<Rightarrow> phaseOf (recState x))"

text \<open>What an event does to the recommendation stored under one name.\<close>

datatype action = Create | WriteSpec | WriteStatus | Remove | Elsewhere

fun actionOf :: "string \<times> string \<Rightarrow> 'q event \<Rightarrow> action" where
  "actionOf k (RecCreated new) = (if recKey new = k then Create else Elsewhere)"
| "actionOf k (RecUpdated old new) = (if recKey old = k then WriteSpec else Elsewhere)"
| "actionOf k (RecStatusUpdated old new) = (if recKey old = k then WriteStatus else Elsewhere)"
| "actionOf k (RecDeleted old) = (if recKey old = k then Remove else Elsewhere)"
| "actionOf k e = Elsewhere"

text \<open>The phases in which a recommendation is recalculated: nothing is asked of an owner and nothing has
  been applied that could still be reverted.\<close>

definition idle :: "phase \<Rightarrow> bool" where
  "idle p \<longleftrightarrow> p \<notin> {Absent, AwaitingApproval, PendingRestart, Applied}"

inductive life :: "action \<Rightarrow> phase \<Rightarrow> phase \<Rightarrow> bool" where
  created: "life Create Absent Fresh"
| removed: "p \<noteq> Absent \<Longrightarrow> life Remove p Absent"
| respecified: "idle p \<Longrightarrow> life WriteSpec p p"
| initialised: "life WriteStatus Fresh Pending"
| recalculated: "idle p \<Longrightarrow> life WriteStatus p p"
| approval_requested: "life WriteStatus Pending AwaitingApproval"
| reminded: "life WriteStatus AwaitingApproval AwaitingApproval"
| applied_at_once: "q \<in> {Applied, PendingRestart, Failed} \<Longrightarrow> life WriteStatus Pending q"
| approved: "q \<in> {Applied, PendingRestart} \<Longrightarrow> life WriteStatus AwaitingApproval q"
| turned_down: "life WriteStatus AwaitingApproval Pending"
| restart_done: "q \<in> {Applied, Failed} \<Longrightarrow> life WriteStatus PendingRestart q"
| rolled_back: "p \<in> {Applied, PendingRestart} \<Longrightarrow> life WriteStatus p Reverted"
| elsewhere: "life Elsewhere p p"

code_pred life .

inductive_simps life_final: "life a Failed q" "life a Reverted q"

lemma phaseOf_simps [simp]:
  "phaseOf [] = Fresh" "phaseOf StatePending = Pending" "phaseOf StateAwaitingApproval = AwaitingApproval"
  "phaseOf StateAppliedPendingRestart = PendingRestart" "phaseOf StateApplied = Applied"
  "phaseOf StateReverted = Reverted" "phaseOf StateFailed = Failed"
  by (simp_all add: phaseOf_def) (simp_all add: state_defs)

lemma phaseOf_known: "knownState st \<longleftrightarrow> phaseOf st \<noteq> Stray"
  by (auto simp: knownState_def phaseOf_def)

lemma phase_simps [simp]: "phase None = Absent" "phase (Some x) = phaseOf (recState x)"
  by (simp_all add: phase_def)

text \<open>A status transition is a step of the life.\<close>

lemma idle_phaseOf: "\<not> activeState st \<Longrightarrow> idle (phaseOf st)"
  by (auto simp: idle_def phaseOf_def)

lemma status_step_life:
  assumes "status_step sp s s'"
  shows "life WriteStatus (phaseOf (State s)) (phaseOf (State s'))"
  using assms
proof cases
  case (recalculate t)
  then show ?thesis using life.recalculated[OF idle_phaseOf] by simp
next
  case (apply_direct st a r)
  then show ?thesis by (elim disjE) (auto intro: applied_at_once)
next
  case (approve st a "by" t r)
  then show ?thesis by (elim disjE) (auto intro: approved)
next
  case revert
  then show ?thesis by (elim disjE) (auto intro: rolled_back)
qed (auto intro: life.intros)

lemma applyEvent_life:
  assumes "allowed e" and "applyEvent k e cur = Some cur'"
  shows "life (actionOf k e) (phase cur) (phase cur')"
proof (cases "actionOf k e")
  case Create
  then obtain new where "e = RecCreated new" "recKey new = k" by (cases e) (auto split: if_splits)
  then show ?thesis using assms by (auto intro: life.created split: if_splits)
next
  case WriteSpec
  then obtain old new where "e = RecUpdated old new" "recKey old = k" by (cases e) (auto split: if_splits)
  then show ?thesis using assms by (auto intro!: life.respecified idle_phaseOf split: if_splits)
next
  case WriteStatus
  then obtain old new where e: "e = RecStatusUpdated old new" "recKey old = k" by (cases e) (auto split: if_splits)
  then obtain s' where "status_step (Spec old) (Status old) s'" "Status new = serStatus s'" using assms(1) by auto
  moreover have "cur = Some old" "cur' = Some new" using assms(2) e by (simp_all split: if_splits)
  ultimately show ?thesis using status_step_life e by fastforce
next
  case Remove
  then obtain old where "e = RecDeleted old" "recKey old = k" by (cases e) (auto split: if_splits)
  then show ?thesis using assms(2) by (auto intro!: life.removed simp: phaseOf_def split: if_splits)
next
  case Elsewhere
  then have "cur' = cur" using assms(2) by (cases e) (auto split: if_splits)
  then show ?thesis using Elsewhere by (simp add: life.elsewhere)
qed

lemma replay_append: "replay k (es @ es') cur = Option.bind (replay k es cur) (replay k es')"
  by (induction es arbitrary: cur) (auto split: option.splits)

lemma replay_split:
  assumes "replay k (pre @ e # post) cur = Some cur'"
  obtains c c' where "replay k pre cur = Some c" "applyEvent k e c = Some c'" "replay k post c' = Some cur'"
  using assms by (auto simp: replay_append bind_eq_Some_conv split: option.splits)

text \<open>Failed and reverted are final: only deletion ends them.\<close>

lemma replay_final:
  assumes "allAllowed es" and "replay k es cur = Some cur'" and "phase cur \<in> {Failed, Reverted}" and "Remove \<notin> actionOf k ` set es"
  shows "phase cur' = phase cur"
  using assms
proof (induction es arbitrary: cur)
  case (Cons e es)
  then obtain c where c: "applyEvent k e cur = Some c" "replay k es c = Some cur'" by (auto split: option.splits)
  have "life (actionOf k e) (phase cur) (phase c)" using applyEvent_life[OF _ c(1)] Cons.prems(1) by simp
  then have "phase c = phase cur" using Cons.prems(3,4) by (auto simp: life_final)
  then show ?case using Cons.IH[OF _ c(2)] Cons.prems by auto
qed simp

section \<open>Runs\<close>

text \<open>One run of a component, from its call to its return: a reconciliation of either controller, a
  request to the API server, a request to the proxy.\<close>

inductive system_step :: "('w, 'o, 'q) lib \<Rightarrow> ('w, 'o, 'q) operator \<Rightarrow> 'w ApprovalProxy \<Rightarrow> 'w \<Rightarrow> 'w \<Rightarrow> bool"
  for L sys p where
  reconcile: "run_state (Reconcile L (Recommender sys) ns n) w = (res, w') \<Longrightarrow> system_step L sys p w w'"
| restart: "run_state (RestartReconcile L (Restarter sys) ns n) w = (res, w') \<Longrightarrow> system_step L sys p w w'"
| request: "run_state (ServeHTTP L (ApiServer sys) r) w = (resp, w') \<Longrightarrow> system_step L sys p w w'"
| approval: "run_state (proxyServeHTTP (Jwt L) (Now L) p r) w = (page, w') \<Longrightarrow> system_step L sys p w w'"

text \<open>A history is a list of events, in the order in which the API server took them. The program makes a
  history when each of its events comes from some run of some component. Nothing is said about the
  order of the runs, and they may overlap: what a run finds in the world may have been changed by
  another since its last call, and its events are those of its own view \<open>ev\<close> of the world.\<close>

definition madeBy :: "('w, 'o, 'q, 'c) platform \<Rightarrow> ('w, 'o, 'q) operator \<Rightarrow> 'w ApprovalProxy \<Rightarrow> 'q event \<Rightarrow> bool" where
  "madeBy P sys p e \<longleftrightarrow> (\<exists>ev hi w w' es. platform_env P ev hi \<and> system_step (PlLib P) sys p w w' \<and>
     ev w' = ev w @ es \<and> e \<in> set es)"

lemma isClock_allowed: "list_all isClock es \<Longrightarrow> allAllowed es"
  by (induction es) (auto elim: isClock.elims)

lemma startProxy_client: "startProxy E http = Inr p \<Longrightarrow> httpClient p = http"
  by (auto simp: startProxy_def NewProxy_def Let_def split: if_splits sum.splits)

context platform_env
begin

lemma step_okay:
  assumes sys: "startOperator E P = Inr sys" and "httpClient p = apiBackend enc (PlLib P) (ApiServer sys)" "plainBackend (backendURL p)"
    and "system_step (PlLib P) sys p w w'"
  shows "okay ev hi w w'"
  using assms(4)
proof (induction rule: system_step.induct)
  case (reconcile ns n w res w')
  then show ?case using wpD[OF reconciler_env.Reconcile_okay[OF wired_reconciler[OF sys]]] by blast
next
  case (restart ns n w res w')
  then show ?case using wpD[OF restart_env.RestartReconcile_wp[OF wired_restart[OF sys]]] restart_trace_allowed
    unfolding okay_def by blast
next
  case (request r w resp w')
  then show ?case using wpD[OF server_env.ServeHTTP_okay[OF wired_server[OF sys]]] by blast
next
  case (approval r w page w')
  then have "withinToken (PlLib P) p ev hi r w w'"
    using wpD[OF server_env.proxy_within[OF wired_server[OF sys] assms(2,3)]] by blast
  then show ?case unfolding withinToken_def emitted_def okay_def using isClock_allowed by blast
qed

end

lemma madeBy_allowed:
  assumes "startOperator E P = Inr sys" "startProxy E' (apiBackend enc (PlLib P) (ApiServer sys)) = Inr p" "plainBackend (backendURL p)"
    and "madeBy P sys p e"
  shows "allowed e"
proof -
  from assms(4) obtain ev hi w w' es where e: "platform_env P ev hi" "system_step (PlLib P) sys p w w'" "ev w' = ev w @ es" "e \<in> set es"
    by (auto simp: madeBy_def)
  have "okay ev hi w w'" by (rule platform_env.step_okay[OF e(1) assms(1) startProxy_client[OF assms(2)] assms(3) e(2)])
  then show ?thesis using e(3,4) by (auto simp: okay_def trace_def list_all_iff)
qed

lemma history_allowed:
  assumes "startOperator E P = Inr sys" "startProxy E' (apiBackend enc (PlLib P) (ApiServer sys)) = Inr p" "plainBackend (backendURL p)"
    and "list_all (madeBy P sys p) es"
  shows "allAllowed es"
  using assms(4) by (rule list.pred_mono_strong) (rule madeBy_allowed[OF assms(1-3)])

section \<open>Properties\<close>

text \<open>C2: the well-formedness of recommendations is an invariant of the whole program. Start the operator
  and the proxy on a lawful platform, let the controllers, the API server and the proxy run in any
  order and overlapping, and follow what the API server stores under one name. If the
  recommendation there is well-formed at the start (or there is none), it is at the end: its state is a
  known one; it carries the configuration to revert to whenever it awaits approval, is applied, reverted
  or failed; it names its owner and the time of the request while it awaits approval, and the time of
  application once applied; and it is named after its VM.\<close>

theorem system_keeps_well_formed:
  assumes "startOperator E P = Inr sys" "startProxy E' (apiBackend enc (PlLib P) (ApiServer sys)) = Inr p" "plainBackend (backendURL p)"
    and "list_all (madeBy P sys p) es" and "wf_cur k cur" and "replay k es cur = Some cur'"
  shows "wf_cur k cur'"
  using replay_wf[OF history_allowed[OF assms(1-4)] assms(5,6)] .

text \<open>C7: the program refines the life of a recommendation, event by event: in every history that the
  components make, each event takes what is stored under a name from the phase it has after the events
  before it to the next one by a step of \<open>life\<close> for that kind of event. So a spec is written only
  in an idle phase, a status moves only along the workflow, and a recommendation that is reverted or
  has failed stays so until it is deleted and is never applied again.\<close>

theorem system_refines_life:
  assumes "startOperator E P = Inr sys" "startProxy E' (apiBackend enc (PlLib P) (ApiServer sys)) = Inr p" "plainBackend (backendURL p)"
    and "list_all (madeBy P sys p) es" and "replay k es cur = Some cur'"
  shows "(\<forall>pre e post. es = pre @ e # post \<longrightarrow> (\<exists>c c'. replay k pre cur = Some c \<and> applyEvent k e c = Some c' \<and>
      life (actionOf k e) (phase c) (phase c'))) \<and>
    (phase cur \<in> {Failed, Reverted} \<and> Remove \<notin> actionOf k ` set es \<longrightarrow> phase cur' = phase cur)"
proof -
  have ok: "allAllowed es" using history_allowed[OF assms(1-4)] .
  have "\<exists>c c'. replay k pre cur = Some c \<and> applyEvent k e c = Some c' \<and> life (actionOf k e) (phase c) (phase c')"
    if es: "es = pre @ e # post" for pre e post
  proof -
    obtain c c' where c: "replay k pre cur = Some c" "applyEvent k e c = Some c'"
      using assms(5) unfolding es by (rule replay_split)
    then show ?thesis using applyEvent_life ok unfolding es by fastforce
  qed
  then show ?thesis using replay_final[OF ok assms(5)] by blast
qed

section \<open>A system in memory\<close>

abbreviation dueWorld :: memWorld where
  "dueWorld \<equiv> sampleWorld dueStatus"

abbreviation restartedWorld :: memWorld where
  "restartedWorld \<equiv> snd (run_state (RestartReconcile memLib memRestart ''prod'' ''vm-web'') dueWorld)"

lemma dueWorld_events: "wEvents dueWorld = []"
  by (simp add: sampleWorld_def emptyWorld_def)

lemma restart_replayed:
  "\<exists>x. replay (''prod'', ''vm-web'') (wEvents restartedWorld) (Some (sampleRec dueStatus)) = Some (Some x) \<and> recState x = StateApplied"
  by (simp add: RestartReconcile_def restartNow_def RestartVM_def mem_run dueStatus_def sampleSpec_def)

lemma due_wf: "wf_cur (''prod'', ''vm-web'') (Some (sampleRec dueStatus))"
  by (simp add: wf_rec_def wf_status_def knownState_def memRec_def dueStatus_def sampleSpec_def)

lemma memSystem:
  obtains sys p where "startOperator memEnvironment memPlatform = Inr sys"
    and "startProxy memEnvironment (apiBackend (\<lambda>_. None) (PlLib memPlatform) (ApiServer sys)) = Inr p"
    and "plainBackend (backendURL p)" and "list_all (madeBy memPlatform sys p) (wEvents restartedWorld)"
proof -
  obtain sys where sys: "startOperator memEnvironment memPlatform = Inr sys" using memOperator by blast
  let ?http = "apiBackend (\<lambda>_. None) (PlLib memPlatform) (ApiServer sys)"
  obtain p where p: "startProxy memEnvironment ?http = Inr p" "backendURL p = ''https://ovro-api:8443''"
    by (simp add: startProxy_def NewProxy_def TrimRight_def memEnvironment_def override_def)
  have "''https://ovro-api:8443'' = ''https'' @ ''://'' @ ''ovro-api:8443''" by simp
  then have plain: "plainBackend ''https://ovro-api:8443''" unfolding plainBackend_def
    by (intro exI[of _ "''https''"] exI[of _ "''ovro-api:8443''"]) (simp add: isAlnum_def)
  have "Restarter sys = memRestart" using startOperator_parts(5)[OF sys] by (simp add: memPlatform_def memRestart_def memApplier_def)
  then have "system_step (PlLib memPlatform) sys p dueWorld restartedWorld"
    by (intro system_step.restart[where ns = "''prod''" and n = "''vm-web''"]) (simp add: memPlatform_def prod_eq_iff)
  then have "list_all (madeBy memPlatform sys p) (wEvents restartedWorld)"
    using mem.platform_env_axioms dueWorld_events by (fastforce simp: madeBy_def list_all_iff)
  with that sys p plain show ?thesis by metis
qed

theorem system_keeps_well_formed_witness:
  "\<exists>x. replay (''prod'', ''vm-web'') (wEvents restartedWorld) (Some (sampleRec dueStatus)) = Some (Some x) \<and>
    recState x = StateApplied \<and> wf_rec x"
proof -
  obtain x where x: "replay (''prod'', ''vm-web'') (wEvents restartedWorld) (Some (sampleRec dueStatus)) = Some (Some x)"
    "recState x = StateApplied" using restart_replayed by blast
  have "wf_cur (''prod'', ''vm-web'') (Some x)"
    by (rule memSystem) (rule system_keeps_well_formed[OF _ _ _ _ due_wf x(1)])
  with x show ?thesis by simp
qed

lemma restart_events:
  "\<exists>pre new. wEvents restartedWorld = pre @ [RecStatusUpdated (sampleRec dueStatus) new] \<and> recState new = StateApplied \<and>
    replay (''prod'', ''vm-web'') pre (Some (sampleRec dueStatus)) = Some (Some (sampleRec dueStatus))"
  by (simp add: RestartReconcile_def restartNow_def RestartVM_def mem_run dueStatus_def sampleSpec_def)

theorem system_refines_life_witness:
  "\<exists>pre old new. wEvents restartedWorld = pre @ [RecStatusUpdated old new] \<and> phase (Some old) = PendingRestart \<and>
    phase (Some new) = Applied \<and> life (actionOf (''prod'', ''vm-web'') (RecStatusUpdated old new)) (phase (Some old)) (phase (Some new))"
proof -
  let ?k = "(''prod'', ''vm-web'')" and ?old = "sampleRec dueStatus"
  obtain x where x: "replay ?k (wEvents restartedWorld) (Some ?old) = Some (Some x)" using restart_replayed by blast
  obtain pre new where e: "wEvents restartedWorld = pre @ [RecStatusUpdated ?old new]" "recState new = StateApplied"
    and pre: "replay ?k pre (Some ?old) = Some (Some ?old)" using restart_events by blast
  have "\<exists>c c'. replay ?k pre (Some ?old) = Some c \<and> applyEvent ?k (RecStatusUpdated ?old new) c = Some c' \<and>
      life (actionOf ?k (RecStatusUpdated ?old new)) (phase c) (phase c')"
    by (rule memSystem) (use system_refines_life[OF _ _ _ _ x] e(1) in blast)
  moreover have "recState ?old = StateAppliedPendingRestart" "recKey ?old = ?k" by (simp_all add: memRec_def dueStatus_def sampleSpec_def)
  ultimately show ?thesis using e pre by (intro exI[of _ pre] exI[of _ ?old] exI[of _ new]) auto
qed

section \<open>An owner's schedule is obeyed\<close>

text \<open>C17: an approval is what the owner asked for, from the form to the VM. When the success page is shown for a
  scheduled restart, the recommendation that the token names has been stored as approved by the token's
  owner and waiting for a restart at the minute that was entered, in UTC, and the token is cleared. Any run of
  the restart controller that reads this version leaves the VM alone before that minute and asks to be
  called then; from that minute on it restarts the VM, unless the API server refuses.\<close>

theorem scheduled_approval_obeyed:
  assumes "server_env L S ev hi" and "restart_env L R ev hi" and "httpClient p = apiBackend enc L S" and "plainBackend (backendURL p)"
    and "Form r = Some f" and "f ''token'' \<noteq> []" and "f ''action'' = ''approve''" and "f ''restartOption'' = ''schedule''"
    and "ParseMinute (f ''scheduledAt'') = Some mt"
    and "run_state (ValidateToken (Jwt L) (Now L) (tokenManager p) (f ''token'')) w = (Inr c, w1)"
    and "plainName (ClmNamespace c)" "plainName (RecName c)" and "validHeaderValue (ClmOwner c)" "trimHeader (ClmOwner c) = ClmOwner c"
    and "run_state (getRec (K8sClient S) (ClmNamespace c) (RecName c)) w1 = (Inr rec, w2)"
    and "recState rec = StateAwaitingApproval" and "\<not> HotplugCapable (Spec rec)"
    and "run_state (handlePostApprove (Jwt L) (Now L) p r) w = ((200, pg), w')"
  shows "\<exists>t t' new. trace ev hi w [ClockRead t, ClockRead t', RecStatusUpdated rec new] w' \<and>
    recState new = StateAppliedPendingRestart \<and> ApprovedBy (Status new) = ClmOwner c \<and> ApprovalToken (Status new) = [] \<and>
    ScheduledRestartAt (Status new) = Some (unixNano mt 0 0 0) \<and>
    (\<forall>v res v'. fst (run_state (getRec (RstClient R) (ClmNamespace c) (RecName c)) v) = Inr new \<and>
       run_state (RestartReconcile L R (ClmNamespace c) (RecName c)) v = (res, v') \<longrightarrow>
       (\<exists>now rest. trace ev hi v (ClockRead now # rest) v' \<and>
         (if now < unixNano mt 0 0 0 then \<exists>u. rest = [ClockRead u] \<and> res = Requeue (timeSub (unixNano mt 0 0 0) u)
          else restart_done R new res rest v' \<or> restart_refused R new res rest v')))"
proof -
  obtain t t' new where new: "trace ev hi w [ClockRead t, ClockRead t', RecStatusUpdated rec new] w'"
      "recState new = StateAppliedPendingRestart" "ApprovedBy (Status new) = ClmOwner c" "ApprovalToken (Status new) = []"
      "ScheduledRestartAt (Status new) = Some (unixNano mt 0 0 0)"
    using scheduled_approval_stored[OF assms(1,3-18)] by blast
  have "\<exists>now rest. trace ev hi v (ClockRead now # rest) v' \<and>
         (if now < unixNano mt 0 0 0 then \<exists>u. rest = [ClockRead u] \<and> res = Requeue (timeSub (unixNano mt 0 0 0) u)
          else restart_done R new res rest v' \<or> restart_refused R new res rest v')"
    if read: "fst (run_state (getRec (RstClient R) (ClmNamespace c) (RecName c)) v) = Inr new"
      and run: "run_state (RestartReconcile L R (ClmNamespace c) (RecName c)) v = (res, v')" for v res v'
  proof -
    obtain es where es: "trace ev hi v es v'" "restart_outcome R (Inr new) res es v'"
      using wpD[OF restart_env.RestartReconcile_outcome[OF assms(2)] run] unfolding read by blast
    have "\<exists>now rest. es = ClockRead now # rest \<and>
         (if now < unixNano mt 0 0 0 then \<exists>u. rest = [ClockRead u] \<and> res = Requeue (timeSub (unixNano mt 0 0 0) u)
          else restart_done R new res rest v' \<or> restart_refused R new res rest v')"
      using es(2) new(2,5) unfolding restart_outcome_def by simp
    then show ?thesis using es(1) by blast
  qed
  with new show ?thesis by blast
qed

theorem scheduled_approval_obeyed_witness:
  "\<exists>tok t t' new pg w'. trace wEvents memHist linkWorld [ClockRead t, ClockRead t', RecStatusUpdated (sampleRec awaitingSample) new] w' \<and>
    run_state (handlePostApprove memJwt memNow memProxy (linkRequest tok scheduleForm)) linkWorld = ((200, pg), w') \<and>
    ScheduledRestartAt (Status new) = Some (unixNano (2026, 3, 2, 5, 4) 0 0 0) \<and> ApprovedBy (Status new) = ''alice''"
proof -
  obtain tok where tok: "tok \<noteq> []" "run_state (ValidateToken memJwt memNow \<lparr>signingKey = ''k''\<rparr> tok) linkWorld = (Inr linkClaims, linkWorld')"
    using linkToken linkWorld_now by metis
  obtain pg w' where run: "run_state (handlePostApprove memJwt memNow memProxy (linkRequest tok scheduleForm)) linkWorld = ((200, pg), w')"
    using schedule_run[OF tok] by blast
  from scheduled_approval_obeyed[OF mem.server_env_axioms[of False] mem.restart_env_axioms memProxy_simps(2) memProxy_plain
      memProxy_simps(3)[of tok scheduleForm], where c = linkClaims and ?w1.0 = linkWorld' and ?w2.0 = linkWorld' and mt = "(2026, 3, 2, 5, 4)" and pg = pg and w' = w' and w = linkWorld and rec = "sampleRec awaitingSample"]
  have "\<exists>t t' new. trace wEvents memHist linkWorld [ClockRead t, ClockRead t', RecStatusUpdated (sampleRec awaitingSample) new] w' \<and>
    recState new = StateAppliedPendingRestart \<and> ApprovedBy (Status new) = ClmOwner linkClaims \<and>
    ScheduledRestartAt (Status new) = Some (unixNano (2026, 3, 2, 5, 4) 0 0 0)"
    using tok run linkWorld_get
    by (simp add: linkForm_def scheduleForm_def schedule_minute linkClaims_plain
          linkClaims_plain[unfolded linkClaims_names] linkClaims_names awaiting_facts) blast
  then show ?thesis using run unfolding linkClaims_names by blast
qed

end
