(* ===== verification/Startup.thy ===== *)
theory Startup
  imports Wiring
begin

text \<open>
  The rest of \<open>cmd/main.go\<close> and of \<open>cmd/approval-proxy/main.go\<close>: the TLS options of the webhook and the
  metrics server, the options of the manager, what is registered with it and in which order, and the
  listeners of the API server and of the proxy.

  controller-runtime and client-go are the record \<open>runtime_lib\<close>: each call succeeds or fails. The TLS
  options are Go slices that share a backing array and that the two servers read only when they
  start, so slices are modelled with their array and capacity; \<open>grow n\<close> is the capacity that \<open>append\<close>
  gives a full slice of \<open>n\<close> elements, which the language leaves open.
\<close>

section \<open>Paths\<close>

text \<open>\<open>filepath.Join\<close>: the elements that are not empty, with a slash between them, cleaned.\<close>

fun joinSlash :: "string list \<Rightarrow> string" where
  "joinSlash [] = []"
| "joinSlash [p] = p"
| "joinSlash (p # q # ps) = p @ ''/'' @ joinSlash (q # ps)"

text \<open>One element of the path; the cleaned elements so far are in reverse order.\<close>

definition cleanStep :: "bool \<Rightarrow> string \<Rightarrow> string list \<Rightarrow> string list" where
  "cleanStep rooted p out =
    (if p = [] \<or> p = ''.'' then out
     else if p = ''..'' then
       (case out of
          [] \<Rightarrow> if rooted then [] else [p]
        | q # qs \<Rightarrow> if q = ''..'' then p # out else qs)
     else p # out)"

definition Clean :: "string \<Rightarrow> string" where
  "Clean path =
    (if path = [] then ''.''
     else let rooted = (hd path = CHR ''/'');
              out = (if rooted then ''/'' else []) @ joinSlash (rev (fold (cleanStep rooted) (Split (CHR ''/'') path) []))
          in if out = [] then ''.'' else out)"

definition Join :: "string list \<Rightarrow> string" where
  "Join elems = (let es = filter (\<lambda>e. e \<noteq> []) elems in if es = [] then [] else Clean (joinSlash es))"

section \<open>Slices\<close>

record slice =
  SlBase :: nat
  SlLen :: nat
  SlCap :: nat

definition nilSlice :: slice where
  "nilSlice = \<lparr>SlBase = 0, SlLen = 0, SlCap = 0\<rparr>"

definition sliceElems :: "'a list list \<Rightarrow> slice \<Rightarrow> 'a list" where
  "sliceElems h s = (if SlLen s = 0 then [] else take (SlLen s) (h ! SlBase s))"

text \<open>\<open>append\<close> of one element: in place where the array has room, into a new array otherwise.\<close>

definition sliceAppend :: "(nat \<Rightarrow> nat) \<Rightarrow> 'a list list \<Rightarrow> slice \<Rightarrow> 'a \<Rightarrow> 'a list list \<times> slice" where
  "sliceAppend grow h s x =
    (if SlLen s < SlCap s
     then (let a = h ! SlBase s in
       (h[SlBase s := take (SlLen s) a @ [x] @ drop (Suc (SlLen s)) a], s\<lparr>SlLen := Suc (SlLen s)\<rparr>))
     else (h @ [sliceElems h s @ [x]],
       \<lparr>SlBase = length h, SlLen = Suc (SlLen s), SlCap = max (Suc (SlLen s)) (grow (SlLen s))\<rparr>))"

section \<open>Flags and environment of the process\<close>

record operator_flags =
  FlagMetricsAddr :: string
  FlagMetricsCertPath :: string
  FlagMetricsCertName :: string
  FlagMetricsCertKey :: string
  FlagWebhookCertPath :: string
  FlagWebhookCertName :: string
  FlagWebhookCertKey :: string
  FlagLeaderElect :: bool
  FlagProbeAddr :: string
  FlagMetricsSecure :: bool
  FlagEnableHTTP2 :: bool
  FlagApiAddr :: string

definition operatorDefaults :: operator_flags where
  "operatorDefaults = \<lparr>FlagMetricsAddr = ''0'', FlagMetricsCertPath = [], FlagMetricsCertName = ''tls.crt'',
     FlagMetricsCertKey = ''tls.key'', FlagWebhookCertPath = [], FlagWebhookCertName = ''tls.crt'',
     FlagWebhookCertKey = ''tls.key'', FlagLeaderElect = False, FlagProbeAddr = '':8081'', FlagMetricsSecure = True,
     FlagEnableHTTP2 = False, FlagApiAddr = '':8443''\<rparr>"

text \<open>The environment variables \<open>TLS_CERT_FILE\<close> and \<open>TLS_KEY_FILE\<close>.\<close>

record tls_env =
  EnvCertFile :: string
  EnvKeyFile :: string

section \<open>TLS options\<close>

record 'c tls_config =
  MinVersion :: nat
  NextProtos :: "string list"
  GetCertificate :: "'c option"

definition VersionTLS12 :: nat where "VersionTLS12 = 771"

type_synonym 'c tls_option = "'c tls_config \<Rightarrow> 'c tls_config"

definition disableHTTP2 :: "'c tls_option" where
  "disableHTTP2 c = c\<lparr>NextProtos := [''http/1.1'']\<rparr>"

definition useWatcher :: "'c \<Rightarrow> 'c tls_option" where
  "useWatcher w c = c\<lparr>GetCertificate := Some w\<rparr>"

text \<open>A server applies its options in order to its own configuration when it starts.\<close>

definition effectiveTLS :: "'c tls_option list list \<Rightarrow> slice \<Rightarrow> 'c tls_config \<Rightarrow> 'c tls_config" where
  "effectiveTLS h s cfg = fold (\<lambda>f c. f c) (sliceElems h s) cfg"

record manager_options =
  MetricsBindAddress :: string
  MetricsSecureServing :: bool
  MetricsAuthFilter :: bool
  MetricsTLSOpts :: slice
  WebhookTLSOpts :: slice
  HealthProbeBindAddress :: string
  LeaderElection :: bool
  LeaderElectionID :: string

record apiServerRunnable =
  RunAddr :: string
  RunCertFile :: string
  RunKeyFile :: string

datatype 'c registration =
    Controller string string
  | AddWatcher 'c
  | AddHealthzCheck string
  | AddReadyzCheck string
  | AddRunnable apiServerRunnable

text \<open>controller-runtime and client-go: a certificate watcher for a file pair, the manager, the two
  clients, a registration. \<open>Some\<close> and \<open>Inl\<close> are errors.\<close>

record 'c runtime_lib =
  NewCertWatcher :: "string \<Rightarrow> string \<Rightarrow> string + 'c"
  NewManager :: "manager_options \<Rightarrow> string option"
  NewClientset :: "string option"
  NewDynamic :: "string option"
  Register :: "'c registration \<Rightarrow> string option"

text \<open>The watcher for the certificate of one server, where a directory is given, as one more option.\<close>

definition watchCertificate :: "(nat \<Rightarrow> nat) \<Rightarrow> 'c runtime_lib \<Rightarrow> string \<Rightarrow> string \<Rightarrow> string \<Rightarrow> string \<Rightarrow>
    'c tls_option list list \<Rightarrow> slice \<Rightarrow> string + ('c tls_option list list \<times> slice \<times> 'c option)" where
  "watchCertificate grow lib msg path name key h s =
    (if path = [] then Inr (h, s, None)
     else (case NewCertWatcher lib (Join [path, name]) (Join [path, key]) of
         Inl err \<Rightarrow> Inl msg
       | Inr w \<Rightarrow> (case sliceAppend grow h s (useWatcher w) of (h', s') \<Rightarrow> Inr (h', s', Some w))))"

record 'c tls_setup =
  TlsArrays :: "'c tls_option list list"
  WebhookOpts :: slice
  MetricsOpts :: slice
  WebhookWatcher :: "'c option"
  MetricsWatcher :: "'c option"

text \<open>Both servers start from \<open>tlsOpts\<close>.\<close>

definition tlsSetup :: "(nat \<Rightarrow> nat) \<Rightarrow> 'c runtime_lib \<Rightarrow> operator_flags \<Rightarrow> string + 'c tls_setup" where
  "tlsSetup grow lib F =
    (case (if FlagEnableHTTP2 F then ([], nilSlice) else sliceAppend grow [] nilSlice disableHTTP2) of (h, tlsOpts) \<Rightarrow>
     (case watchCertificate grow lib ''Failed to initialize webhook certificate watcher'' (FlagWebhookCertPath F)
         (FlagWebhookCertName F) (FlagWebhookCertKey F) h tlsOpts of
        Inl err \<Rightarrow> Inl err
      | Inr (h1, webhookTLSOpts, webhookCertWatcher) \<Rightarrow>
          (case watchCertificate grow lib ''to initialize metrics certificate watcher'' (FlagMetricsCertPath F)
              (FlagMetricsCertName F) (FlagMetricsCertKey F) h1 tlsOpts of
             Inl err \<Rightarrow> Inl err
           | Inr (h2, metricsTLSOpts, metricsCertWatcher) \<Rightarrow>
               Inr \<lparr>TlsArrays = h2, WebhookOpts = webhookTLSOpts, MetricsOpts = metricsTLSOpts,
                 WebhookWatcher = webhookCertWatcher, MetricsWatcher = metricsCertWatcher\<rparr>)))"

definition managerOptions :: "operator_flags \<Rightarrow> 'c tls_setup \<Rightarrow> manager_options" where
  "managerOptions F t = \<lparr>MetricsBindAddress = FlagMetricsAddr F, MetricsSecureServing = FlagMetricsSecure F,
     MetricsAuthFilter = FlagMetricsSecure F, MetricsTLSOpts = MetricsOpts t, WebhookTLSOpts = WebhookOpts t,
     HealthProbeBindAddress = FlagProbeAddr F, LeaderElection = FlagLeaderElect F,
     LeaderElectionID = ''1d6cd375.redhatconsulting.io''\<rparr>"

section \<open>Registrations\<close>

text \<open>The recommendation controller is called for every virtual machine, the restart controller for
  every recommendation.\<close>

definition RecommendationSetup :: "'c registration" where
  "RecommendationSetup = Controller ''rightsizingrecommendation'' ''VirtualMachine''"

definition RestartSetup :: "'c registration" where
  "RestartSetup = Controller ''restart'' ''RightsizingRecommendation''"

text \<open>What \<open>main\<close> registers, in order, with the message of its failure.\<close>

definition registrations :: "operator_flags \<Rightarrow> tls_env \<Rightarrow> 'c tls_setup \<Rightarrow> ('c registration \<times> string) list" where
  "registrations F V t =
    [(RecommendationSetup, ''unable to create controller''), (RestartSetup, ''unable to create controller'')] @
    (case MetricsWatcher t of None \<Rightarrow> [] | Some w \<Rightarrow> [(AddWatcher w, ''unable to add metrics certificate watcher to manager'')]) @
    (case WebhookWatcher t of None \<Rightarrow> [] | Some w \<Rightarrow> [(AddWatcher w, ''unable to add webhook certificate watcher to manager'')]) @
    [(AddHealthzCheck ''healthz'', ''unable to set up health check''), (AddReadyzCheck ''readyz'', ''unable to set up ready check''),
     (AddRunnable \<lparr>RunAddr = FlagApiAddr F, RunCertFile = EnvCertFile V, RunKeyFile = EnvKeyFile V\<rparr>,
      ''unable to add API server to manager'')]"

fun registerAll :: "'c runtime_lib \<Rightarrow> ('c registration \<times> string) list \<Rightarrow> string + 'c registration list" where
  "registerAll lib [] = Inr []"
| "registerAll lib ((r, msg) # rs) = (case Register lib r of
      Some err \<Rightarrow> Inl msg
    | None \<Rightarrow> (case registerAll lib rs of Inl msg' \<Rightarrow> Inl msg' | Inr done \<Rightarrow> Inr (r # done)))"

text \<open>A process whose manager is started.\<close>

record ('w, 'o, 'q, 'c) process =
  ProcOperator :: "('w, 'o, 'q) operator"
  ProcOptions :: manager_options
  ProcArrays :: "'c tls_option list list"
  ProcRegistered :: "'c registration list"

definition operatorMain :: "(nat \<Rightarrow> nat) \<Rightarrow> 'c runtime_lib \<Rightarrow> environment \<Rightarrow> operator_flags \<Rightarrow> tls_env \<Rightarrow>
    ('w, 'o, 'q, 'n) platform \<Rightarrow> string + ('w, 'o, 'q, 'c) process" where
  "operatorMain grow lib E F V P = (case tlsSetup grow lib F of
      Inl err \<Rightarrow> Inl err
    | Inr t \<Rightarrow>
        if NewManager lib (managerOptions F t) \<noteq> None then Inl ''unable to start manager''
        else if NewClientset lib \<noteq> None then Inl ''unable to create clientset''
        else if NewDynamic lib \<noteq> None then Inl ''unable to create dynamic client''
        else (case startOperator E P of
            Inl err \<Rightarrow> Inl err
          | Inr sys \<Rightarrow> (case registerAll lib (registrations F V t) of
              Inl err \<Rightarrow> Inl err
            | Inr rs \<Rightarrow> Inr \<lparr>ProcOperator = sys, ProcOptions = managerOptions F t, ProcArrays = TlsArrays t,
                ProcRegistered = rs\<rparr>)))"

section \<open>Listeners\<close>

datatype listener = PlainHTTP string | HTTPS string string string nat "string list"

text \<open>\<open>Start\<close> and \<open>StartTLS\<close> of the API server, \<open>ListenAndServe\<close> and \<open>ListenAndServeTLS\<close> of the proxy.\<close>

definition Start :: "string \<Rightarrow> listener" where
  "Start addr = PlainHTTP addr"

definition StartTLS :: "string \<Rightarrow> string \<Rightarrow> string \<Rightarrow> listener" where
  "StartTLS addr certFile keyFile = HTTPS addr certFile keyFile VersionTLS12 [''http/1.1'']"

definition ListenAndServe :: "string \<Rightarrow> listener" where
  "ListenAndServe addr = PlainHTTP addr"

definition ListenAndServeTLS :: "string \<Rightarrow> string \<Rightarrow> string \<Rightarrow> listener" where
  "ListenAndServeTLS addr certFile keyFile = HTTPS addr certFile keyFile VersionTLS12 [''http/1.1'']"

definition runnableListener :: "apiServerRunnable \<Rightarrow> listener" where
  "runnableListener r = (if RunCertFile r \<noteq> [] \<and> RunKeyFile r \<noteq> []
     then StartTLS (RunAddr r) (RunCertFile r) (RunKeyFile r) else Start (RunAddr r))"

text \<open>The \<open>select\<close> of \<open>apiServerRunnable.Start\<close>: what has happened, and the error (\<open>None\<close> for \<open>nil\<close>) that may
  be returned. Where both have happened, either branch may be taken.\<close>

datatype start_event = ServerReturned "string option" | ContextDone

fun startResult :: "start_event \<Rightarrow> string option" where
  "startResult (ServerReturned err) = err"
| "startResult ContextDone = None"

definition startResults :: "start_event list \<Rightarrow> string option list" where
  "startResults happened = map startResult happened"

record proxy_flags =
  FlagProxyAddr :: string
  FlagTlsCert :: string
  FlagTlsKey :: string

definition proxyListener :: "proxy_flags \<Rightarrow> tls_env \<Rightarrow> listener" where
  "proxyListener F V =
    (let certFile = override (FlagTlsCert F) (EnvCertFile V); keyFile = override (FlagTlsKey F) (EnvKeyFile V)
     in if certFile \<noteq> [] \<and> keyFile \<noteq> [] then ListenAndServeTLS (FlagProxyAddr F) certFile keyFile
        else ListenAndServe (FlagProxyAddr F))"

section \<open>What the servers get\<close>

lemma registerAll_Inr:
  "registerAll lib rs = Inr done \<Longrightarrow> done = map fst rs \<and> (\<forall>r \<in> set done. Register lib r = None)"
  by (induction rs arbitrary: "done" rule: registerAll.induct) (auto split: option.splits sum.splits)

text \<open>The watcher that a certificate directory asks for.\<close>

definition watcherFor :: "'c runtime_lib \<Rightarrow> string \<Rightarrow> string \<Rightarrow> string \<Rightarrow> 'c option \<Rightarrow> bool" where
  "watcherFor lib path name key w \<longleftrightarrow>
    (if path = [] then w = None else \<exists>c. NewCertWatcher lib (Join [path, name]) (Join [path, key]) = Inr c \<and> w = Some c)"

text \<open>A configuration with the protocols and the certificate source that the flags ask for.\<close>

definition configured :: "operator_flags \<Rightarrow> 'c option \<Rightarrow> 'c tls_config \<Rightarrow> 'c tls_config" where
  "configured F w cfg = cfg\<lparr>NextProtos := (if FlagEnableHTTP2 F then NextProtos cfg else [''http/1.1'']),
     GetCertificate := (case w of None \<Rightarrow> GetCertificate cfg | Some c \<Rightarrow> Some c)\<rparr>"

lemmas tls_defs = sliceAppend_def sliceElems_def nilSlice_def effectiveTLS_def disableHTTP2_def useWatcher_def configured_def

text \<open>Whether the two appends to \<open>tlsOpts\<close> write the same array cell.\<close>

definition mixes :: "(nat \<Rightarrow> nat) \<Rightarrow> operator_flags \<Rightarrow> bool" where
  "mixes grow F \<longleftrightarrow> 1 < grow 0 \<and> \<not> FlagEnableHTTP2 F \<and> FlagMetricsCertPath F \<noteq> [] \<and> FlagWebhookCertPath F \<noteq> []"

lemma tlsSetup_effective:
  assumes "tlsSetup grow lib F = Inr t"
  shows "watcherFor lib (FlagWebhookCertPath F) (FlagWebhookCertName F) (FlagWebhookCertKey F) (WebhookWatcher t)"
    and "watcherFor lib (FlagMetricsCertPath F) (FlagMetricsCertName F) (FlagMetricsCertKey F) (MetricsWatcher t)"
    and "effectiveTLS (TlsArrays t) (MetricsOpts t) cfg = configured F (MetricsWatcher t) cfg"
    and "effectiveTLS (TlsArrays t) (WebhookOpts t) cfg =
      configured F (if mixes grow F then MetricsWatcher t else WebhookWatcher t) cfg"
  using assms
  by (auto simp: tlsSetup_def watchCertificate_def watcherFor_def mixes_def tls_defs nth_append list_update_append
      split: if_splits sum.splits prod.splits)

text \<open>C33: an operator process that starts is complete, and each of its TLS servers gets its own certificate.
  Both controllers, both probes and the API server are registered, and exactly the watchers of the
  given certificate directories run. HTTP/2 is off unless the flag asks for it. The metrics server uses the watcher
  of its directory; so does the webhook server, as long as \<open>append\<close> gives the slice of one option no
  spare room: otherwise the option of the metrics server overwrites that of the webhook server.\<close>

theorem operator_process_complete:
  assumes "operatorMain grow lib E F V P = Inr proc"
  shows "startOperator E P = Inr (ProcOperator proc) \<and>
    (\<exists>webhook metrics. watcherFor lib (FlagWebhookCertPath F) (FlagWebhookCertName F) (FlagWebhookCertKey F) webhook \<and>
      watcherFor lib (FlagMetricsCertPath F) (FlagMetricsCertName F) (FlagMetricsCertKey F) metrics \<and>
      effectiveTLS (ProcArrays proc) (MetricsTLSOpts (ProcOptions proc)) cfg = configured F metrics cfg \<and>
      effectiveTLS (ProcArrays proc) (WebhookTLSOpts (ProcOptions proc)) cfg =
        configured F (if mixes grow F then metrics else webhook) cfg \<and>
      set (ProcRegistered proc) = {RecommendationSetup, RestartSetup, AddHealthzCheck ''healthz'', AddReadyzCheck ''readyz'',
        AddRunnable \<lparr>RunAddr = FlagApiAddr F, RunCertFile = EnvCertFile V, RunKeyFile = EnvKeyFile V\<rparr>} \<union>
        AddWatcher ` (set_option webhook \<union> set_option metrics)) \<and>
    (\<forall>r \<in> set (ProcRegistered proc). Register lib r = None)"
proof -
  obtain t where t: "tlsSetup grow lib F = Inr t" and sys: "startOperator E P = Inr (ProcOperator proc)"
    and reg: "registerAll lib (registrations F V t) = Inr (ProcRegistered proc)"
    and opts: "ProcOptions proc = managerOptions F t" "ProcArrays proc = TlsArrays t"
    using assms by (auto simp: operatorMain_def split: sum.splits if_splits)
  have "set (map fst (registrations F V t)) = {RecommendationSetup, RestartSetup, AddHealthzCheck ''healthz'', AddReadyzCheck ''readyz'',
        AddRunnable \<lparr>RunAddr = FlagApiAddr F, RunCertFile = EnvCertFile V, RunKeyFile = EnvKeyFile V\<rparr>} \<union>
        AddWatcher ` (set_option (WebhookWatcher t) \<union> set_option (MetricsWatcher t))"
    by (auto simp: registrations_def split: option.splits)
  then show ?thesis
    using tlsSetup_effective(1,2)[OF t] tlsSetup_effective(3,4)[OF t, of cfg] registerAll_Inr[OF reg] sys by (auto simp: opts managerOptions_def)
qed

definition memRuntime :: "string runtime_lib" where
  "memRuntime = \<lparr>NewCertWatcher = (\<lambda>cert key. Inr cert), NewManager = (\<lambda>_. None), NewClientset = None, NewDynamic = None,
     Register = (\<lambda>_. None)\<rparr>"

definition certFlags :: operator_flags where
  "certFlags = operatorDefaults\<lparr>FlagWebhookCertPath := ''/webhook/'', FlagMetricsCertPath := ''/metrics''\<rparr>"

lemma registerAll_mem: "registerAll memRuntime rs = Inr (map fst rs)"
  by (induction rs) (auto simp: memRuntime_def)

theorem operator_process_complete_witness:
  "\<exists>proc. operatorMain Suc memRuntime memEnvironment certFlags \<lparr>EnvCertFile = [], EnvKeyFile = []\<rparr> memPlatform = Inr proc \<and>
    AddWatcher ''/webhook/tls.crt'' \<in> set (ProcRegistered proc) \<and>
    GetCertificate (effectiveTLS (ProcArrays proc) (WebhookTLSOpts (ProcOptions proc))
      \<lparr>MinVersion = 0, NextProtos = [''h2''], GetCertificate = None\<rparr>) = Some ''/webhook/tls.crt''"
proof -
  obtain sys where "startOperator memEnvironment memPlatform = Inr sys" using memOperator by blast
  then obtain proc where run: "operatorMain Suc memRuntime memEnvironment certFlags \<lparr>EnvCertFile = [], EnvKeyFile = []\<rparr> memPlatform = Inr proc"
    by (simp add: operatorMain_def tlsSetup_def watchCertificate_def certFlags_def operatorDefaults_def registerAll_mem
        memRuntime_def[THEN arg_cong[of _ _ NewManager]] memRuntime_def[THEN arg_cong[of _ _ NewClientset]]
        memRuntime_def[THEN arg_cong[of _ _ NewDynamic]] memRuntime_def[THEN arg_cong[of _ _ NewCertWatcher]] sliceAppend_def nilSlice_def)
  have "Join [''/webhook/'', ''tls.crt''] = ''/webhook/tls.crt''"
    by (simp add: Join_def Clean_def cleanStep_def Let_def)
  with operator_process_complete[OF run, of "\<lparr>MinVersion = 0, NextProtos = [''h2''], GetCertificate = None\<rparr>"] run
  show ?thesis
    by (auto simp: watcherFor_def configured_def mixes_def certFlags_def operatorDefaults_def memRuntime_def)
qed

end
