(* ===== verification/Deep_Copy.thy ===== *)
theory Deep_Copy
  imports Prelude API_Types
begin

text \<open>
  \<open>api/v1alpha1/zz_generated.deepcopy.go\<close>: the copies behind every object that the cached client hands
  out. Everywhere else the resources are values; here they are structs in memory, with the pointers that
  Go has in them, so that sharing between a copy and its original can be seen.

  The memory is a store of typed cells. \<open>Quantity\<close>, \<open>ObjectMeta\<close> and \<open>ListMeta\<close> are structs of the Kubernetes
  libraries with memory of their own: the types \<open>'r\<close>, \<open>'m\<close> and \<open>'l\<close>, with their copy functions in \<open>copy_lib\<close>.
\<close>

section \<open>Structs and memory\<close>

type_synonym addr = nat

text \<open>The structs without pointers of their own are the records of \<open>API_Types\<close>, with \<open>Quantity\<close> structs for
  the quantities. The status has pointers.\<close>

record statusStruct =
  stState :: string
  stLastCalculated :: "addr option"
  stAppliedAt :: "addr option"
  stScheduledRestartAt :: "addr option"
  stRevertBefore :: "addr option"
  stRevertConfig :: "addr option"
  stMessage :: string
  stOwner :: string
  stApprovalToken :: string
  stNotifiedAt :: "addr option"
  stApprovedBy :: string
  stApprovedAt :: "addr option"
  stRejectedBy :: string
  stRejectedAt :: "addr option"
  stRejectionReason :: string
  stServiceNowIncident :: string
  stReminderSentAt :: "addr option"

record ('r, 'm) recStruct =
  rcTypeMeta :: "string \<times> string"
  rcObjectMeta :: 'm
  rcSpec :: "'r RightsizingRecommendationSpec"
  rcStatus :: statusStruct

record ('r, 'm) policyStruct =
  plTypeMeta :: "string \<times> string"
  plObjectMeta :: 'm
  plSpec :: "'r RightsizingPolicySpec"

text \<open>Both lists: \<open>Items\<close> is nil or a slice with its array.\<close>

record 'l listStruct =
  lsTypeMeta :: "string \<times> string"
  lsListMeta :: 'l
  lsItems :: "addr option"

datatype ('r, 'm, 'l, 'x) cell =
    TimeCell time
  | AlgorithmCell AlgorithmSpec
  | AutoModeCell AutoModeSpec
  | CPUCell CPUSpec
  | MetricsCell MetricsSnapshot
  | RefCell ObjectRef
  | ResourceCell "'r ResourceSpec"
  | SavingsCell "'r SavingsSpec"
  | ThresholdsCell "'r ThresholdsSpec"
  | PolicySpecCell "'r RightsizingPolicySpec"
  | PolicyCell "('r, 'm) policyStruct"
  | PolicyItems "('r, 'm) policyStruct list"
  | PolicyListCell "'l listStruct"
  | RecSpecCell "'r RightsizingRecommendationSpec"
  | StatusCell statusStruct
  | RecCell "('r, 'm) recStruct"
  | RecItems "('r, 'm) recStruct list"
  | RecListCell "'l listStruct"
  | External 'x

record ('r, 'm, 'l, 'x) memory =
  Cells :: "addr \<rightharpoonup> ('r, 'm, 'l, 'x) cell"
  Limit :: addr

definition alloc :: "('r, 'm, 'l, 'x) cell \<Rightarrow> (('r, 'm, 'l, 'x) memory, addr) state" where
  "alloc c = act (\<lambda>h. (Limit h, h\<lparr>Cells := (Cells h)(Limit h \<mapsto> c), Limit := Suc (Limit h)\<rparr>))"

definition load :: "addr \<Rightarrow> (('r, 'm, 'l, 'x) memory, ('r, 'm, 'l, 'x) cell option) state" where
  "load a = act (\<lambda>h. (Cells h a, h))"

text \<open>What the Kubernetes libraries copy.\<close>

record ('r, 'm, 'l, 'x) copy_lib =
  QuantityDeepCopy :: "'r \<Rightarrow> (('r, 'm, 'l, 'x) memory, 'r) state"
  TimeDeepCopy :: "addr option \<Rightarrow> (('r, 'm, 'l, 'x) memory, addr option) state"
  ObjectMetaDeepCopyInto :: "'m \<Rightarrow> (('r, 'm, 'l, 'x) memory, 'm) state"
  ListMetaDeepCopyInto :: "'l \<Rightarrow> (('r, 'm, 'l, 'x) memory, 'l) state"

section \<open>The copy functions\<close>

text \<open>\<open>x.DeepCopyInto(out)\<close> is a function from the struct \<open>*x\<close> to the struct that it leaves in \<open>*out\<close>. A new
  struct or array gets its address when it is filled, and not just before: nothing reads it in between.\<close>

type_synonym ('r, 'm, 'l, 'x, 'a) copier = "'a \<Rightarrow> (('r, 'm, 'l, 'x) memory, 'a) state"

text \<open>The common body of the \<open>DeepCopy\<close> methods: nil for nil, a new struct otherwise. A pointer that is not nil
  points to a struct of its type in Go; the last case does not occur.\<close>

definition newCopy :: "('a \<Rightarrow> ('r, 'm, 'l, 'x) cell) \<Rightarrow> (('r, 'm, 'l, 'x) cell \<Rightarrow> 'a option) \<Rightarrow> ('r, 'm, 'l, 'x, 'a) copier \<Rightarrow>
    ('r, 'm, 'l, 'x, addr option) copier" where
  "newCopy mk get into p = (case p of
      None \<Rightarrow> ret None
    | Some a \<Rightarrow> do {
        c \<leftarrow> load a;
        case Option.bind c get of
          Some x \<Rightarrow> do { y \<leftarrow> into x; b \<leftarrow> alloc (mk y); ret (Some b) }
        | None \<Rightarrow> ret None
      })"

definition AlgorithmSpec_DeepCopyInto :: "('r, 'm, 'l, 'x, AlgorithmSpec) copier" where
  "AlgorithmSpec_DeepCopyInto x = ret x"

definition AlgorithmSpec_DeepCopy :: "('r, 'm, 'l, 'x, addr option) copier" where
  "AlgorithmSpec_DeepCopy = newCopy AlgorithmCell (\<lambda>c. case c of AlgorithmCell x \<Rightarrow> Some x | _ \<Rightarrow> None) AlgorithmSpec_DeepCopyInto"

definition AutoModeSpec_DeepCopyInto :: "('r, 'm, 'l, 'x, AutoModeSpec) copier" where
  "AutoModeSpec_DeepCopyInto x = ret x"

definition AutoModeSpec_DeepCopy :: "('r, 'm, 'l, 'x, addr option) copier" where
  "AutoModeSpec_DeepCopy = newCopy AutoModeCell (\<lambda>c. case c of AutoModeCell x \<Rightarrow> Some x | _ \<Rightarrow> None) AutoModeSpec_DeepCopyInto"

definition CPUSpec_DeepCopyInto :: "('r, 'm, 'l, 'x, CPUSpec) copier" where
  "CPUSpec_DeepCopyInto x = ret x"

definition CPUSpec_DeepCopy :: "('r, 'm, 'l, 'x, addr option) copier" where
  "CPUSpec_DeepCopy = newCopy CPUCell (\<lambda>c. case c of CPUCell x \<Rightarrow> Some x | _ \<Rightarrow> None) CPUSpec_DeepCopyInto"

definition MetricsSnapshot_DeepCopyInto :: "('r, 'm, 'l, 'x, MetricsSnapshot) copier" where
  "MetricsSnapshot_DeepCopyInto x = ret x"

definition MetricsSnapshot_DeepCopy :: "('r, 'm, 'l, 'x, addr option) copier" where
  "MetricsSnapshot_DeepCopy = newCopy MetricsCell (\<lambda>c. case c of MetricsCell x \<Rightarrow> Some x | _ \<Rightarrow> None) MetricsSnapshot_DeepCopyInto"

definition ObjectRef_DeepCopyInto :: "('r, 'm, 'l, 'x, ObjectRef) copier" where
  "ObjectRef_DeepCopyInto x = ret x"

definition ObjectRef_DeepCopy :: "('r, 'm, 'l, 'x, addr option) copier" where
  "ObjectRef_DeepCopy = newCopy RefCell (\<lambda>c. case c of RefCell x \<Rightarrow> Some x | _ \<Rightarrow> None) ObjectRef_DeepCopyInto"

definition ResourceSpec_DeepCopyInto :: "('r, 'm, 'l, 'x) copy_lib \<Rightarrow> ('r, 'm, 'l, 'x, 'r ResourceSpec) copier" where
  "ResourceSpec_DeepCopyInto lib x = do {
     q \<leftarrow> QuantityDeepCopy lib (Memory x);
     ret (x\<lparr>CPU := CPU x, Memory := q\<rparr>)
   }"

abbreviation "unResource \<equiv> \<lambda>c. case c of ResourceCell x \<Rightarrow> Some x | _ \<Rightarrow> None"

definition ResourceSpec_DeepCopy :: "('r, 'm, 'l, 'x) copy_lib \<Rightarrow> ('r, 'm, 'l, 'x, addr option) copier" where
  "ResourceSpec_DeepCopy lib = newCopy ResourceCell unResource (ResourceSpec_DeepCopyInto lib)"

definition SavingsSpec_DeepCopyInto :: "('r, 'm, 'l, 'x) copy_lib \<Rightarrow> ('r, 'm, 'l, 'x, 'r SavingsSpec) copier" where
  "SavingsSpec_DeepCopyInto lib x = do {
     q \<leftarrow> QuantityDeepCopy lib (SavingsMemory x);
     ret (x\<lparr>SavingsMemory := q\<rparr>)
   }"

definition SavingsSpec_DeepCopy :: "('r, 'm, 'l, 'x) copy_lib \<Rightarrow> ('r, 'm, 'l, 'x, addr option) copier" where
  "SavingsSpec_DeepCopy lib = newCopy SavingsCell (\<lambda>c. case c of SavingsCell x \<Rightarrow> Some x | _ \<Rightarrow> None) (SavingsSpec_DeepCopyInto lib)"

definition ThresholdsSpec_DeepCopyInto :: "('r, 'm, 'l, 'x) copy_lib \<Rightarrow> ('r, 'm, 'l, 'x, 'r ThresholdsSpec) copier" where
  "ThresholdsSpec_DeepCopyInto lib x = do {
     q \<leftarrow> QuantityDeepCopy lib (MinMemorySavings x);
     ret (x\<lparr>MinMemorySavings := q\<rparr>)
   }"

definition ThresholdsSpec_DeepCopy :: "('r, 'm, 'l, 'x) copy_lib \<Rightarrow> ('r, 'm, 'l, 'x, addr option) copier" where
  "ThresholdsSpec_DeepCopy lib = newCopy ThresholdsCell (\<lambda>c. case c of ThresholdsCell x \<Rightarrow> Some x | _ \<Rightarrow> None)
     (ThresholdsSpec_DeepCopyInto lib)"

text \<open>The spec of the policy. Its \<open>MetricsStorage\<close> is copied by \<open>*out = *in\<close> only.\<close>

definition RightsizingPolicySpec_DeepCopyInto :: "('r, 'm, 'l, 'x) copy_lib \<Rightarrow> ('r, 'm, 'l, 'x, 'r RightsizingPolicySpec) copier" where
  "RightsizingPolicySpec_DeepCopyInto lib x = do {
     t \<leftarrow> ThresholdsSpec_DeepCopyInto lib (Thresholds x);
     ret (x\<lparr>Algorithm := Algorithm x, Thresholds := t, AutoMode := AutoMode x\<rparr>)
   }"

definition RightsizingPolicySpec_DeepCopy :: "('r, 'm, 'l, 'x) copy_lib \<Rightarrow> ('r, 'm, 'l, 'x, addr option) copier" where
  "RightsizingPolicySpec_DeepCopy lib = newCopy PolicySpecCell (\<lambda>c. case c of PolicySpecCell x \<Rightarrow> Some x | _ \<Rightarrow> None)
     (RightsizingPolicySpec_DeepCopyInto lib)"

definition RightsizingPolicy_DeepCopyInto :: "('r, 'm, 'l, 'x) copy_lib \<Rightarrow> ('r, 'm, 'l, 'x, ('r, 'm) policyStruct) copier" where
  "RightsizingPolicy_DeepCopyInto lib x = do {
     m \<leftarrow> ObjectMetaDeepCopyInto lib (plObjectMeta x);
     s \<leftarrow> RightsizingPolicySpec_DeepCopyInto lib (plSpec x);
     ret (x\<lparr>plTypeMeta := plTypeMeta x, plObjectMeta := m, plSpec := s\<rparr>)
   }"

abbreviation "unPolicy \<equiv> \<lambda>c. case c of PolicyCell x \<Rightarrow> Some x | _ \<Rightarrow> None"

definition RightsizingPolicy_DeepCopy :: "('r, 'm, 'l, 'x) copy_lib \<Rightarrow> ('r, 'm, 'l, 'x, addr option) copier" where
  "RightsizingPolicy_DeepCopy lib = newCopy PolicyCell unPolicy (RightsizingPolicy_DeepCopyInto lib)"

text \<open>The loop over the items of a list.\<close>

fun copyItems :: "('r, 'm, 'l, 'x, 'a) copier \<Rightarrow> ('r, 'm, 'l, 'x, 'a list) copier" where
  "copyItems into [] = ret []"
| "copyItems into (x # xs) = do { y \<leftarrow> into x; ys \<leftarrow> copyItems into xs; ret (y # ys) }"

abbreviation "unPolicyItems \<equiv> \<lambda>c. case c of PolicyItems x \<Rightarrow> Some x | _ \<Rightarrow> None"
abbreviation "unPolicyList \<equiv> \<lambda>c. case c of PolicyListCell x \<Rightarrow> Some x | _ \<Rightarrow> None"

definition RightsizingPolicyList_DeepCopyInto :: "('r, 'm, 'l, 'x) copy_lib \<Rightarrow> ('r, 'm, 'l, 'x, 'l listStruct) copier" where
  "RightsizingPolicyList_DeepCopyInto lib x = do {
     m \<leftarrow> ListMetaDeepCopyInto lib (lsListMeta x);
     items \<leftarrow> newCopy PolicyItems unPolicyItems (copyItems (RightsizingPolicy_DeepCopyInto lib)) (lsItems x);
     ret (x\<lparr>lsTypeMeta := lsTypeMeta x, lsListMeta := m, lsItems := items\<rparr>)
   }"

definition RightsizingPolicyList_DeepCopy :: "('r, 'm, 'l, 'x) copy_lib \<Rightarrow> ('r, 'm, 'l, 'x, addr option) copier" where
  "RightsizingPolicyList_DeepCopy lib = newCopy PolicyListCell unPolicyList (RightsizingPolicyList_DeepCopyInto lib)"

definition RightsizingRecommendationSpec_DeepCopyInto ::
    "('r, 'm, 'l, 'x) copy_lib \<Rightarrow> ('r, 'm, 'l, 'x, 'r RightsizingRecommendationSpec) copier" where
  "RightsizingRecommendationSpec_DeepCopyInto lib x = do {
     cur \<leftarrow> ResourceSpec_DeepCopyInto lib (Current x);
     rec \<leftarrow> ResourceSpec_DeepCopyInto lib (Recommended x);
     sav \<leftarrow> SavingsSpec_DeepCopyInto lib (Savings x);
     ret (x\<lparr>VirtualMachineRef := VirtualMachineRef x, Current := cur, Recommended := rec, Savings := sav, Metrics := Metrics x\<rparr>)
   }"

definition RightsizingRecommendationSpec_DeepCopy :: "('r, 'm, 'l, 'x) copy_lib \<Rightarrow> ('r, 'm, 'l, 'x, addr option) copier" where
  "RightsizingRecommendationSpec_DeepCopy lib = newCopy RecSpecCell (\<lambda>c. case c of RecSpecCell x \<Rightarrow> Some x | _ \<Rightarrow> None)
     (RightsizingRecommendationSpec_DeepCopyInto lib)"

text \<open>A pointer to a time: \<open>if in.X != nil { *out = (*in).DeepCopy() }\<close>.\<close>

definition copyTime :: "('r, 'm, 'l, 'x) copy_lib \<Rightarrow> ('r, 'm, 'l, 'x, addr option) copier" where
  "copyTime lib p = (if p \<noteq> None then TimeDeepCopy lib p else ret None)"

definition RightsizingRecommendationStatus_DeepCopyInto :: "('r, 'm, 'l, 'x) copy_lib \<Rightarrow> ('r, 'm, 'l, 'x, statusStruct) copier" where
  "RightsizingRecommendationStatus_DeepCopyInto lib x = do {
     lastCalculated \<leftarrow> copyTime lib (stLastCalculated x);
     appliedAt \<leftarrow> copyTime lib (stAppliedAt x);
     scheduledRestartAt \<leftarrow> copyTime lib (stScheduledRestartAt x);
     revertBefore \<leftarrow> copyTime lib (stRevertBefore x);
     revertConfig \<leftarrow> newCopy ResourceCell unResource (ResourceSpec_DeepCopyInto lib) (stRevertConfig x);
     notifiedAt \<leftarrow> copyTime lib (stNotifiedAt x);
     approvedAt \<leftarrow> copyTime lib (stApprovedAt x);
     rejectedAt \<leftarrow> copyTime lib (stRejectedAt x);
     reminderSentAt \<leftarrow> copyTime lib (stReminderSentAt x);
     ret (x\<lparr>stLastCalculated := lastCalculated, stAppliedAt := appliedAt, stScheduledRestartAt := scheduledRestartAt,
       stRevertBefore := revertBefore, stRevertConfig := revertConfig, stNotifiedAt := notifiedAt,
       stApprovedAt := approvedAt, stRejectedAt := rejectedAt, stReminderSentAt := reminderSentAt\<rparr>)
   }"

definition RightsizingRecommendationStatus_DeepCopy :: "('r, 'm, 'l, 'x) copy_lib \<Rightarrow> ('r, 'm, 'l, 'x, addr option) copier" where
  "RightsizingRecommendationStatus_DeepCopy lib = newCopy StatusCell (\<lambda>c. case c of StatusCell x \<Rightarrow> Some x | _ \<Rightarrow> None)
     (RightsizingRecommendationStatus_DeepCopyInto lib)"

definition RightsizingRecommendation_DeepCopyInto :: "('r, 'm, 'l, 'x) copy_lib \<Rightarrow> ('r, 'm, 'l, 'x, ('r, 'm) recStruct) copier" where
  "RightsizingRecommendation_DeepCopyInto lib x = do {
     m \<leftarrow> ObjectMetaDeepCopyInto lib (rcObjectMeta x);
     sp \<leftarrow> RightsizingRecommendationSpec_DeepCopyInto lib (rcSpec x);
     st \<leftarrow> RightsizingRecommendationStatus_DeepCopyInto lib (rcStatus x);
     ret (x\<lparr>rcTypeMeta := rcTypeMeta x, rcObjectMeta := m, rcSpec := sp, rcStatus := st\<rparr>)
   }"

abbreviation "unRec \<equiv> \<lambda>c. case c of RecCell x \<Rightarrow> Some x | _ \<Rightarrow> None"
abbreviation "unRecItems \<equiv> \<lambda>c. case c of RecItems x \<Rightarrow> Some x | _ \<Rightarrow> None"
abbreviation "unRecList \<equiv> \<lambda>c. case c of RecListCell x \<Rightarrow> Some x | _ \<Rightarrow> None"

definition RightsizingRecommendation_DeepCopy :: "('r, 'm, 'l, 'x) copy_lib \<Rightarrow> ('r, 'm, 'l, 'x, addr option) copier" where
  "RightsizingRecommendation_DeepCopy lib = newCopy RecCell unRec (RightsizingRecommendation_DeepCopyInto lib)"

definition RightsizingRecommendationList_DeepCopyInto :: "('r, 'm, 'l, 'x) copy_lib \<Rightarrow> ('r, 'm, 'l, 'x, 'l listStruct) copier" where
  "RightsizingRecommendationList_DeepCopyInto lib x = do {
     m \<leftarrow> ListMetaDeepCopyInto lib (lsListMeta x);
     items \<leftarrow> newCopy RecItems unRecItems (copyItems (RightsizingRecommendation_DeepCopyInto lib)) (lsItems x);
     ret (x\<lparr>lsTypeMeta := lsTypeMeta x, lsListMeta := m, lsItems := items\<rparr>)
   }"

definition RightsizingRecommendationList_DeepCopy :: "('r, 'm, 'l, 'x) copy_lib \<Rightarrow> ('r, 'm, 'l, 'x, addr option) copier" where
  "RightsizingRecommendationList_DeepCopy lib = newCopy RecListCell unRecList (RightsizingRecommendationList_DeepCopyInto lib)"

text \<open>\<open>DeepCopyObject\<close>: an interface value, nil and not a nil pointer in an interface where there is no copy.\<close>

datatype runtime_object = RecObject addr | RecListObject addr | PolicyObject addr | PolicyListObject addr

definition objectOf :: "(addr \<Rightarrow> runtime_object) \<Rightarrow> addr option \<Rightarrow> runtime_object option" where
  "objectOf mk c = (case c of Some a \<Rightarrow> Some (mk a) | None \<Rightarrow> None)"

definition RightsizingPolicy_DeepCopyObject :: "('r, 'm, 'l, 'x) copy_lib \<Rightarrow> addr option \<Rightarrow> (('r, 'm, 'l, 'x) memory, runtime_object option) state" where
  "RightsizingPolicy_DeepCopyObject lib p = do { c \<leftarrow> RightsizingPolicy_DeepCopy lib p; ret (objectOf PolicyObject c) }"

definition RightsizingPolicyList_DeepCopyObject :: "('r, 'm, 'l, 'x) copy_lib \<Rightarrow> addr option \<Rightarrow> (('r, 'm, 'l, 'x) memory, runtime_object option) state" where
  "RightsizingPolicyList_DeepCopyObject lib p = do { c \<leftarrow> RightsizingPolicyList_DeepCopy lib p; ret (objectOf PolicyListObject c) }"

definition RightsizingRecommendation_DeepCopyObject :: "('r, 'm, 'l, 'x) copy_lib \<Rightarrow> addr option \<Rightarrow> (('r, 'm, 'l, 'x) memory, runtime_object option) state" where
  "RightsizingRecommendation_DeepCopyObject lib p = do { c \<leftarrow> RightsizingRecommendation_DeepCopy lib p; ret (objectOf RecObject c) }"

definition RightsizingRecommendationList_DeepCopyObject :: "('r, 'm, 'l, 'x) copy_lib \<Rightarrow> addr option \<Rightarrow> (('r, 'm, 'l, 'x) memory, runtime_object option) state" where
  "RightsizingRecommendationList_DeepCopyObject lib p = do { c \<leftarrow> RightsizingRecommendationList_DeepCopy lib p; ret (objectOf RecListObject c) }"

section \<open>Shapes\<close>

text \<open>A shape says of the structs of a type, in a memory: which are well-formed (pointers lead to structs of their
  type), which cells they reach (the footprint), which value they hold, and which cells of the footprint a
  copy keeps using.\<close>

record ('h, 'a, 'v) shape =
  Good :: "'h \<Rightarrow> 'a \<Rightarrow> bool"
  Foot :: "'h \<Rightarrow> 'a \<Rightarrow> addr set"
  View :: "'h \<Rightarrow> 'a \<Rightarrow> 'v"
  Shared :: "'h \<Rightarrow> 'a \<Rightarrow> addr set"

definition plain :: "('h, 'a, 'a) shape" where
  "plain = \<lparr>Good = (\<lambda>h x. True), Foot = (\<lambda>h x. {}), View = (\<lambda>h x. x), Shared = (\<lambda>h x. {})\<rparr>"

definition both :: "('h, 'a, 'v) shape \<Rightarrow> ('h, 'b, 'w) shape \<Rightarrow> ('h, 'a \<times> 'b, 'v \<times> 'w) shape" where
  "both S T = \<lparr>Good = (\<lambda>h (x, y). Good S h x \<and> Good T h y), Foot = (\<lambda>h (x, y). Foot S h x \<union> Foot T h y),
     View = (\<lambda>h (x, y). (View S h x, View T h y)), Shared = (\<lambda>h (x, y). Shared S h x \<union> Shared T h y)\<rparr>"

text \<open>A struct with the fields \<open>f\<close>, whose value is made from their values by \<open>mk\<close>.\<close>

definition struct :: "('x \<Rightarrow> 'a) \<Rightarrow> ('x \<Rightarrow> 'v \<Rightarrow> 'w) \<Rightarrow> ('h, 'a, 'v) shape \<Rightarrow> ('h, 'x, 'w) shape" where
  "struct f mk S = \<lparr>Good = (\<lambda>h x. Good S h (f x)), Foot = (\<lambda>h x. Foot S h (f x)),
     View = (\<lambda>h x. mk x (View S h (f x))), Shared = (\<lambda>h x. Shared S h (f x))\<rparr>"

definition target :: "(('r, 'm, 'l, 'x) cell \<Rightarrow> 'a option) \<Rightarrow> ('r, 'm, 'l, 'x) memory \<Rightarrow> addr \<Rightarrow> 'a option" where
  "target get h a = Option.bind (Cells h a) get"

definition ptr :: "(('r, 'm, 'l, 'x) cell \<Rightarrow> 'a option) \<Rightarrow> (('r, 'm, 'l, 'x) memory, 'a, 'v) shape \<Rightarrow>
    (('r, 'm, 'l, 'x) memory, addr option, 'v option) shape" where
  "ptr get S = \<lparr>
     Good = (\<lambda>h p. case p of None \<Rightarrow> True | Some a \<Rightarrow> (case target get h a of None \<Rightarrow> False | Some x \<Rightarrow> Good S h x)),
     Foot = (\<lambda>h p. case p of None \<Rightarrow> {} | Some a \<Rightarrow> insert a (case target get h a of None \<Rightarrow> {} | Some x \<Rightarrow> Foot S h x)),
     View = (\<lambda>h p. Option.bind p (\<lambda>a. map_option (View S h) (target get h a))),
     Shared = (\<lambda>h p. case Option.bind p (target get h) of None \<Rightarrow> {} | Some x \<Rightarrow> Shared S h x)\<rparr>"

definition items :: "('h, 'a, 'v) shape \<Rightarrow> ('h, 'a list, 'v list) shape" where
  "items S = \<lparr>Good = (\<lambda>h. list_all (Good S h)), Foot = (\<lambda>h xs. \<Union> (Foot S h ` set xs)),
     View = (\<lambda>h. map (View S h)), Shared = (\<lambda>h xs. \<Union> (Shared S h ` set xs))\<rparr>"

text \<open>A struct that is copied by assignment.\<close>

definition shallow :: "('h, 'a, 'v) shape \<Rightarrow> ('h, 'a, 'v) shape" where
  "shallow S = S\<lparr>Shared := Foot S\<rparr>"

named_theorems shape_defs "the shapes"

declare plain_def [shape_defs] both_def [shape_defs] struct_def [shape_defs] ptr_def [shape_defs]
  items_def [shape_defs] shallow_def [shape_defs]

definition heap_ok :: "('r, 'm, 'l, 'x) memory \<Rightarrow> bool" where
  "heap_ok h \<longleftrightarrow> dom (Cells h) \<subseteq> {..<Limit h}"

definition agree :: "addr set \<Rightarrow> ('r, 'm, 'l, 'x) memory \<Rightarrow> ('r, 'm, 'l, 'x) memory \<Rightarrow> bool" where
  "agree A h h' \<longleftrightarrow> (\<forall>a \<in> A. Cells h' a = Cells h a)"

text \<open>What a copy function does to the memory: new cells only.\<close>

definition grows :: "('r, 'm, 'l, 'x) memory \<Rightarrow> ('r, 'm, 'l, 'x) memory \<Rightarrow> bool" where
  "grows h h' \<longleftrightarrow> heap_ok h' \<and> agree (dom (Cells h)) h h'"

text \<open>\<open>y\<close> in \<open>h'\<close> is a copy of \<open>x\<close> in \<open>h\<close>: the same value, and of the old cells only the shared ones.\<close>

definition copied :: "(('r, 'm, 'l, 'x) memory, 'a, 'v) shape \<Rightarrow> ('r, 'm, 'l, 'x) memory \<Rightarrow> 'a \<Rightarrow>
    ('r, 'm, 'l, 'x) memory \<Rightarrow> 'a \<Rightarrow> bool" where
  "copied S h x h' y \<longleftrightarrow> Good S h' y \<and> View S h' y = View S h x \<and> Foot S h' y \<inter> dom (Cells h) = Shared S h x"

lemma agree_mono: "agree A h h' \<Longrightarrow> B \<subseteq> A \<Longrightarrow> agree B h h'"
  by (auto simp: agree_def)

lemma agree_Un [simp]: "agree (A \<union> B) h h' \<longleftrightarrow> agree A h h' \<and> agree B h h'"
  by (auto simp: agree_def)

lemma grows_refl [simp]: "grows h h \<longleftrightarrow> heap_ok h"
  by (simp add: grows_def agree_def)

lemma grows_heap_ok: "grows h h' \<Longrightarrow> heap_ok h'"
  by (simp add: grows_def)

lemma grows_dom: "grows h h' \<Longrightarrow> dom (Cells h) \<subseteq> dom (Cells h')"
  by (auto simp: grows_def agree_def dom_def)

lemma grows_trans [trans]: "grows h h' \<Longrightarrow> grows h' h'' \<Longrightarrow> grows h h''"
  using grows_dom[of h h'] by (auto simp: grows_def agree_def subset_iff)

lemma alloc_wp [wp]:
  assumes "heap_ok h"
    and "\<And>h' a. grows h h' \<Longrightarrow> a \<notin> dom (Cells h) \<Longrightarrow> dom (Cells h') = insert a (dom (Cells h)) \<Longrightarrow> Cells h' a = Some c \<Longrightarrow> Q a h'"
  shows "wp (alloc c) Q h"
proof -
  let ?h = "h\<lparr>Cells := (Cells h)(Limit h \<mapsto> c), Limit := Suc (Limit h)\<rparr>"
  have fresh: "Limit h \<notin> dom (Cells h)" using assms(1) by (auto simp: heap_ok_def)
  then have "grows h ?h" using assms(1) by (auto simp: grows_def heap_ok_def agree_def less_Suc_eq)
  then have "Q (Limit h) ?h" using fresh by (intro assms(2)) auto
  then show ?thesis by (simp add: alloc_def wp_def)
qed

lemma wp_load [wp, simp]: "wp (load a) Q h = Q (Cells h a) h"
  by (simp add: load_def wp_def)

section \<open>The contract of a copy function\<close>

locale shape_ok =
  fixes S :: "(('r, 'm, 'l, 'x) memory, 'a, 'v) shape"
  assumes foot_dom: "Good S h x \<Longrightarrow> Foot S h x \<subseteq> dom (Cells h)"
    and local: "Good S h x \<Longrightarrow> agree (Foot S h x) h h' \<Longrightarrow>
      Good S h' x \<and> Foot S h' x = Foot S h x \<and> View S h' x = View S h x \<and> Shared S h' x = Shared S h x"
    and shared_foot: "Good S h x \<Longrightarrow> Shared S h x \<subseteq> Foot S h x"
begin

lemma grown:
  assumes "Good S h x" "grows h h'"
  shows "Good S h' x" "Foot S h' x = Foot S h x" "View S h' x = View S h x" "Shared S h' x = Shared S h x"
proof -
  have "agree (Foot S h x) h h'" using foot_dom[OF assms(1)] assms(2) by (auto simp: grows_def intro: agree_mono)
  from local[OF assms(1) this] show "Good S h' x" "Foot S h' x = Foot S h x" "View S h' x = View S h x" "Shared S h' x = Shared S h x"
    by simp_all
qed

lemma copied_later: "copied S h x h' y \<Longrightarrow> grows h' h'' \<Longrightarrow> copied S h x h'' y"
  using grown[of h' y h''] by (simp add: copied_def)

lemma copied_earlier:
  assumes "Good S h x" "grows h h1" "grows h1 h'" "copied S h1 x h' y"
  shows "copied S h x h' y"
proof -
  have "Foot S h' y \<inter> dom (Cells h1) = Shared S h x"
    using assms(4) grown[OF assms(1,2)] by (simp add: copied_def)
  then have "Foot S h' y \<inter> dom (Cells h) = Shared S h x"
    using shared_foot[OF assms(1)] foot_dom[OF assms(1)] grows_dom[OF assms(2)] by blast
  then show ?thesis using assms(4) grown[OF assms(1,2)] by (simp add: copied_def)
qed

lemma copied_self: "Good S h x \<Longrightarrow> Shared S h x = Foot S h x \<Longrightarrow> copied S h x h x"
  using foot_dom[of h x] by (auto simp: copied_def)

text \<open>After the copy, what the copy and the original have in common is the shared part.\<close>

lemma copied_meet:
  assumes "Good S h x" "grows h h'" "copied S h x h' y"
  shows "Foot S h' y \<inter> Foot S h' x = Shared S h x"
  using assms grown[OF assms(1,2)] shared_foot[OF assms(1)] foot_dom[OF assms(1)] by (auto simp: copied_def)

end

text \<open>\<open>separate S K h x h' y\<close>: the copy \<open>y\<close> holds the value of \<open>x\<close>, which is unchanged, they have only the cells
  \<open>K\<close> in common, and a later write to other cells of the one does not show in the other.\<close>

definition separate :: "(('r, 'm, 'l, 'x) memory, 'a, 'v) shape \<Rightarrow> addr set \<Rightarrow> ('r, 'm, 'l, 'x) memory \<Rightarrow> 'a \<Rightarrow>
    ('r, 'm, 'l, 'x) memory \<Rightarrow> 'a \<Rightarrow> bool" where
  "separate S K h x h' y \<longleftrightarrow> View S h' y = View S h x \<and> View S h' x = View S h x \<and> Foot S h' y \<inter> Foot S h' x = K \<and>
     (\<forall>h2. agree (- (Foot S h' y - K)) h' h2 \<longrightarrow> View S h2 x = View S h x) \<and>
     (\<forall>h2. agree (- (Foot S h' x - K)) h' h2 \<longrightarrow> View S h2 y = View S h x)"

locale deep_copy = shape_ok S
  for S :: "(('r, 'm, 'l, 'x) memory, 'a, 'v) shape" +
  fixes copy :: "('r, 'm, 'l, 'x, 'a) copier"
  assumes copies: "heap_ok h \<Longrightarrow> Good S h x \<Longrightarrow> wp (copy x) (\<lambda>y h'. grows h h' \<and> copied S h x h' y) h"
begin

lemma copy_wp:
  assumes "heap_ok h" "Good S h x" "\<And>y h'. grows h h' \<Longrightarrow> copied S h x h' y \<Longrightarrow> Q y h'"
  shows "wp (copy x) Q h"
  by (rule wp_conseq[OF copies[OF assms(1,2)]]) (auto intro: assms(3))

theorem copy_separate:
  assumes "heap_ok h" "Good S h x"
  shows "wp (copy x) (\<lambda>y h'. separate S (Shared S h x) h x h' y) h"
proof (rule copy_wp[OF assms])
  fix y h' assume g: "grows h h'" and c: "copied S h x h' y"
  note old = grown[OF assms(2) g] and meet = copied_meet[OF assms(2) g c]
  have y: "Good S h' y" "View S h' y = View S h x" using c by (simp_all add: copied_def)
  have "View S h2 x = View S h x" if "agree (- (Foot S h' y - Shared S h x)) h' h2" for h2
  proof -
    have "Foot S h' x \<subseteq> - (Foot S h' y - Shared S h x)" using meet by auto
    then show ?thesis using local[OF old(1) agree_mono[OF that]] old(3) by simp
  qed
  moreover have "View S h2 y = View S h x" if "agree (- (Foot S h' x - Shared S h x)) h' h2" for h2
  proof -
    have "Foot S h' y \<subseteq> - (Foot S h' x - Shared S h x)" using meet by auto
    then show ?thesis using local[OF y(1) agree_mono[OF that]] y(2) by simp
  qed
  ultimately show "separate S (Shared S h x) h x h' y" using old(3) y(2) meet by (simp add: separate_def)
qed

end

section \<open>Copies of composed structs\<close>

text \<open>The contract follows the structure of the types: fields, pointers and slices.\<close>

lemma plain_ok [simp]: "shape_ok plain"
  by unfold_locales (simp_all add: plain_def)

lemma both_ok:
  fixes S :: "(('r, 'm, 'l, 'x) memory, 'a, 'v) shape" and T :: "(('r, 'm, 'l, 'x) memory, 'b, 'w) shape"
  assumes S: "shape_ok S" and T: "shape_ok T"
  shows "shape_ok (both S T)"
proof
  fix h h' :: "('r, 'm, 'l, 'x) memory" and x :: "'a \<times> 'b"
  obtain a b where x: "x = (a, b)" by (cases x)
  assume "Good (both S T) h x"
  then have g: "Good S h a" "Good T h b" by (simp_all add: both_def x)
  show "Foot (both S T) h x \<subseteq> dom (Cells h)"
    using shape_ok.foot_dom[OF S g(1)] shape_ok.foot_dom[OF T g(2)] by (simp add: both_def x)
  show "Shared (both S T) h x \<subseteq> Foot (both S T) h x"
    using shape_ok.shared_foot[OF S g(1)] shape_ok.shared_foot[OF T g(2)] by (auto simp: both_def x)
  assume "agree (Foot (both S T) h x) h h'"
  then show "Good (both S T) h' x \<and> Foot (both S T) h' x = Foot (both S T) h x \<and>
      View (both S T) h' x = View (both S T) h x \<and> Shared (both S T) h' x = Shared (both S T) h x"
    using shape_ok.local[OF S g(1)] shape_ok.local[OF T g(2)] by (simp add: both_def x)
qed

lemma struct_ok:
  assumes S: "shape_ok S"
  shows "shape_ok (struct f mk S)"
proof (rule shape_ok.intro, goal_cases)
  case (1 h x)
  then show ?case using shape_ok.foot_dom[OF S, of h "f x"] by (simp add: struct_def)
next
  case (2 h x h')
  then show ?case using shape_ok.local[OF S, of h "f x" h'] by (simp add: struct_def)
next
  case (3 h x)
  then show ?case using shape_ok.shared_foot[OF S, of h "f x"] by (simp add: struct_def)
qed

lemma shallow_ok:
  assumes S: "shape_ok S"
  shows "shape_ok (shallow S)"
proof (rule shape_ok.intro, goal_cases)
  case (1 h x)
  then show ?case using shape_ok.foot_dom[OF S, of h x] by (simp add: shallow_def)
next
  case (2 h x h')
  then show ?case using shape_ok.local[OF S, of h x h'] by (simp add: shallow_def)
qed (simp add: shallow_def)

lemma ptr_ok:
  fixes S :: "(('r, 'm, 'l, 'x) memory, 'a, 'v) shape"
  assumes S: "shape_ok S"
  shows "shape_ok (ptr get S)"
proof
  fix h h' :: "('r, 'm, 'l, 'x) memory" and p
  assume good: "Good (ptr get S) h p"
  then consider "p = None" | a x where "p = Some a" "target get h a = Some x" "Good S h x"
    by (auto simp: ptr_def split: option.splits)
  note cs = this
  show "Foot (ptr get S) h p \<subseteq> dom (Cells h)"
    by (cases rule: cs) (use shape_ok.foot_dom[OF S, of h] in \<open>force simp: ptr_def target_def bind_eq_Some_conv\<close>)+
  show "Shared (ptr get S) h p \<subseteq> Foot (ptr get S) h p"
    by (cases rule: cs) (use shape_ok.shared_foot[OF S, of h] in \<open>force simp: ptr_def\<close>)+
  assume ag: "agree (Foot (ptr get S) h p) h h'"
  show "Good (ptr get S) h' p \<and> Foot (ptr get S) h' p = Foot (ptr get S) h p \<and>
      View (ptr get S) h' p = View (ptr get S) h p \<and> Shared (ptr get S) h' p = Shared (ptr get S) h p"
  proof (cases rule: cs)
    case (2 a x)
    then have "target get h' a = Some x" and "agree (Foot S h x) h h'" using ag by (simp_all add: ptr_def agree_def target_def)
    then show ?thesis using 2 shape_ok.local[OF S 2(3), of h'] by (simp add: ptr_def)
  qed (simp add: ptr_def)
qed

lemma items_ok:
  fixes S :: "(('r, 'm, 'l, 'x) memory, 'a, 'v) shape"
  assumes S: "shape_ok S"
  shows "shape_ok (items S)"
proof
  fix h h' :: "('r, 'm, 'l, 'x) memory" and xs
  assume "Good (items S) h xs"
  then have good: "Good S h x" if "x \<in> set xs" for x using that by (simp add: items_def list_all_iff)
  show "Foot (items S) h xs \<subseteq> dom (Cells h)" using shape_ok.foot_dom[OF S good] by (auto simp: items_def)
  show "Shared (items S) h xs \<subseteq> Foot (items S) h xs" using shape_ok.shared_foot[OF S good] by (auto simp: items_def)
  assume "agree (Foot (items S) h xs) h h'"
  then have "agree (Foot S h x) h h'" if "x \<in> set xs" for x using that by (auto simp: items_def elim!: agree_mono)
  from shape_ok.local[OF S good this] show "Good (items S) h' xs \<and> Foot (items S) h' xs = Foot (items S) h xs \<and>
      View (items S) h' xs = View (items S) h xs \<and> Shared (items S) h' xs = Shared (items S) h xs"
    by (simp add: items_def list_all_iff)
qed

text \<open>Two fields are copied one after the other.\<close>

definition copyBoth :: "('r, 'm, 'l, 'x, 'a) copier \<Rightarrow> ('r, 'm, 'l, 'x, 'b) copier \<Rightarrow> ('r, 'm, 'l, 'x, 'a \<times> 'b) copier" where
  "copyBoth c d xy = do { x \<leftarrow> c (fst xy); y \<leftarrow> d (snd xy); ret (x, y) }"

lemma deep_copyI:
  assumes "shape_ok S"
    and "\<And>h x. heap_ok h \<Longrightarrow> Good S h x \<Longrightarrow> wp (copy x) (\<lambda>y h'. grows h h' \<and> copied S h x h' y) h"
  shows "deep_copy S copy"
  using assms by (simp add: deep_copy_def deep_copy_axioms_def)

lemma copied_both:
  "copied S h a h' a' \<Longrightarrow> copied T h b h' b' \<Longrightarrow> copied (both S T) h (a, b) h' (a', b')"
  by (auto simp: copied_def both_def)

lemma both_copy:
  fixes S :: "(('r, 'm, 'l, 'x) memory, 'a, 'v) shape"
  assumes c: "deep_copy S c" and d: "deep_copy T d"
  shows "deep_copy (both S T) (copyBoth c d)"
proof (rule deep_copyI)
  have S: "shape_ok S" and T: "shape_ok T" using c d by (simp_all add: deep_copy_def)
  then show "shape_ok (both S T)" by (rule both_ok)
  fix h :: "('r, 'm, 'l, 'x) memory" and xy assume h: "heap_ok h" and "Good (both S T) h xy"
  then have good: "Good S h (fst xy)" "Good T h (snd xy)" by (simp_all add: both_def split: prod.splits)
  show "wp (copyBoth c d xy) (\<lambda>y h'. grows h h' \<and> copied (both S T) h xy h' y) h"
    unfolding copyBoth_def wp_bind wp_return
  proof (rule deep_copy.copy_wp[OF c h good(1)])
    fix x h1 assume g1: "grows h h1" and x: "copied S h (fst xy) h1 x"
    show "wp (d (snd xy)) (\<lambda>y h'. grows h h' \<and> copied (both S T) h xy h' (x, y)) h1"
    proof (rule deep_copy.copy_wp[OF d grows_heap_ok[OF g1] shape_ok.grown(1)[OF T good(2) g1]])
      fix y h2 assume g2: "grows h1 h2" and y: "copied T h1 (snd xy) h2 y"
      have "copied T h (snd xy) h2 y" by (rule shape_ok.copied_earlier[OF T good(2) g1 g2 y])
      with shape_ok.copied_later[OF S x g2] have "copied (both S T) h (fst xy, snd xy) h2 (x, y)" by (rule copied_both)
      then show "grows h h2 \<and> copied (both S T) h xy h2 (x, y)" using grows_trans[OF g1 g2] by simp
    qed
  qed
qed

lemma struct_copy:
  fixes S :: "(('r, 'm, 'l, 'x) memory, 'a, 'v) shape"
  assumes c: "deep_copy S c" and copy: "\<And>x. copy x = do { y \<leftarrow> c (f x); ret (upd x y) }"
    and upd: "\<And>x y. f (upd x y) = y" "\<And>x y v. mk (upd x y) v = mk x v"
  shows "deep_copy (struct f mk S) copy"
proof (rule deep_copyI)
  show "shape_ok (struct f mk S)" using c by (simp add: deep_copy_def struct_ok)
  fix h :: "('r, 'm, 'l, 'x) memory" and x assume h: "heap_ok h" and "Good (struct f mk S) h x"
  then have "Good S h (f x)" by (simp add: struct_def)
  then show "wp (copy x) (\<lambda>y h'. grows h h' \<and> copied (struct f mk S) h x h' y) h"
    unfolding copy wp_bind wp_return
    by (rule deep_copy.copy_wp[OF c h]) (simp add: copied_def struct_def upd)
qed

lemma ret_copy: "shape_ok S \<Longrightarrow> deep_copy (shallow S) ret"
proof (rule deep_copyI)
  assume S: "shape_ok S"
  show "shape_ok (shallow S)" using S by (rule shallow_ok)
  fix h x assume "heap_ok h" "Good (shallow S) h x"
  then show "wp (ret x) (\<lambda>y h'. grows h h' \<and> copied (shallow S) h x h' y) h"
    using shape_ok.copied_self[OF shallow_ok[OF S], of h x] by (simp add: shallow_def)
qed

lemma plain_copy: "deep_copy plain ret"
  by (rule deep_copyI[OF plain_ok]) (simp add: copied_def plain_def)

lemma items_copy:
  fixes S :: "(('r, 'm, 'l, 'x) memory, 'a, 'v) shape"
  assumes c: "deep_copy S c"
  shows "deep_copy (items S) (copyItems c)"
proof (rule deep_copyI)
  have S: "shape_ok S" using c by (simp add: deep_copy_def)
  then show "shape_ok (items S)" by (rule items_ok)
  fix h :: "('r, 'm, 'l, 'x) memory" and xs assume "heap_ok h" and "Good (items S) h xs"
  then show "wp (copyItems c xs) (\<lambda>ys h'. grows h h' \<and> copied (items S) h xs h' ys) h"
  proof (induction xs arbitrary: h)
    case Nil
    then show ?case by (simp add: copied_def items_def)
  next
    case (Cons x xs)
    have S': "shape_ok (items S)" using S by (rule items_ok)
    have good: "Good S h x" "Good (items S) h xs" using Cons.prems(2) by (simp_all add: items_def)
    show ?case unfolding copyItems.simps wp_bind wp_return
    proof (rule deep_copy.copy_wp[OF c Cons.prems(1) good(1)])
      fix y h1 assume g1: "grows h h1" and y: "copied S h x h1 y"
      show "wp (copyItems c xs) (\<lambda>ys h'. grows h h' \<and> copied (items S) h (x # xs) h' (y # ys)) h1"
      proof (rule wp_conseq[OF Cons.IH[OF grows_heap_ok[OF g1] shape_ok.grown(1)[OF S' good(2) g1]]])
        fix ys h2 assume a: "grows h1 h2 \<and> copied (items S) h1 xs h2 ys"
        then have "copied (items S) h xs h2 ys" by (intro shape_ok.copied_earlier[OF S' good(2) g1]) auto
        moreover have "copied S h x h2 y" using a by (intro shape_ok.copied_later[OF S y]) simp
        ultimately have "copied (items S) h (x # xs) h2 (y # ys)" by (auto simp: copied_def items_def)
        then show "grows h h2 \<and> copied (items S) h (x # xs) h2 (y # ys)" using a grows_trans[OF g1] by simp
      qed
    qed
  qed
qed

lemma ptr_copy:
  fixes S :: "(('r, 'm, 'l, 'x) memory, 'a, 'v) shape"
  assumes c: "deep_copy S c" and mk: "\<And>x. get (mk x) = Some x"
  shows "deep_copy (ptr get S) (newCopy mk get c)"
proof (rule deep_copyI)
  have S: "shape_ok S" using c by (simp add: deep_copy_def)
  then show "shape_ok (ptr get S)" by (rule ptr_ok)
  fix h :: "('r, 'm, 'l, 'x) memory" and p assume h: "heap_ok h" and good: "Good (ptr get S) h p"
  show "wp (newCopy mk get c p) (\<lambda>q h'. grows h h' \<and> copied (ptr get S) h p h' q) h"
  proof (cases p)
    case None
    then show ?thesis using h by (simp add: newCopy_def copied_def ptr_def)
  next
    case (Some a)
    then obtain x where x: "target get h a = Some x" "Good S h x" using good by (auto simp: ptr_def split: option.splits)
    have "wp (c x) (\<lambda>y. wp (alloc (mk y)) (\<lambda>b h'. grows h h' \<and> copied (ptr get S) h p h' (Some b))) h"
    proof (rule deep_copy.copy_wp[OF c h x(2)])
      fix y h1 assume g1: "grows h h1" and y: "copied S h x h1 y"
      show "wp (alloc (mk y)) (\<lambda>b h'. grows h h' \<and> copied (ptr get S) h p h' (Some b)) h1"
      proof (rule alloc_wp[OF grows_heap_ok[OF g1]])
        fix h2 b assume g2: "grows h1 h2" and b: "b \<notin> dom (Cells h1)" and Hb: "Cells h2 b = Some (mk y)"
        have "copied S h x h2 y" by (rule shape_ok.copied_later[OF S y g2])
        moreover have "b \<notin> dom (Cells h)" using b grows_dom[OF g1] by auto
        moreover have "target get h2 b = Some y" using Hb by (simp add: target_def mk)
        ultimately have "copied (ptr get S) h p h2 (Some b)" using Some x by (simp add: copied_def ptr_def)
        then show "grows h h2 \<and> copied (ptr get S) h p h2 (Some b)" using grows_trans[OF g1 g2] by simp
      qed
    qed
    then show ?thesis using Some x by (simp add: newCopy_def target_def)
  qed
qed

section \<open>The shapes of the resources\<close>

text \<open>Given the shapes \<open>Q\<close>, \<open>M\<close> and \<open>L\<close> of quantities, object and list metadata. The values are the records of
  \<open>API_Types\<close>, which the rest of the development works with.\<close>

definition resourceShape :: "('h, 'r, 'q) shape \<Rightarrow> ('h, 'r ResourceSpec, 'q ResourceSpec) shape" where
  "resourceShape Q = struct Memory (\<lambda>x q. \<lparr>CPU = CPU x, Memory = q\<rparr>) Q"

definition savingsShape :: "('h, 'r, 'q) shape \<Rightarrow> ('h, 'r SavingsSpec, 'q SavingsSpec) shape" where
  "savingsShape Q = struct SavingsMemory (\<lambda>x q. \<lparr>SavingsCPU = SavingsCPU x, SavingsMemory = q\<rparr>) Q"

definition thresholdsShape :: "('h, 'r, 'q) shape \<Rightarrow> ('h, 'r ThresholdsSpec, 'q ThresholdsSpec) shape" where
  "thresholdsShape Q = struct MinMemorySavings (\<lambda>x q. \<lparr>MinCPUSavings = MinCPUSavings x, MinMemorySavings = q,
     UpsizeUtilizationPercent = UpsizeUtilizationPercent x\<rparr>) Q"

definition storageShape :: "('h, 'r, 'q) shape \<Rightarrow> ('h, 'r MetricsStorageSpec, 'q MetricsStorageSpec) shape" where
  "storageShape Q = struct StorageSize (\<lambda>x q. \<lparr>RetentionDays = RetentionDays x, StorageSize = q\<rparr>) Q"

definition policySpecShape :: "('h, 'r, 'q) shape \<Rightarrow> ('h, 'r RightsizingPolicySpec, 'q RightsizingPolicySpec) shape" where
  "policySpecShape Q = struct (\<lambda>x. (Thresholds x, MetricsStorage x))
     (\<lambda>x (t, m). \<lparr>LookbackDays = LookbackDays x, Algorithm = Algorithm x, Thresholds = t,
        RevertRetentionDays = RevertRetentionDays x, AutoMode = AutoMode x,
        ReconcileIntervalMinutes = ReconcileIntervalMinutes x, MetricsStorage = m\<rparr>)
     (both (thresholdsShape Q) (shallow (storageShape Q)))"

definition policyShape :: "('h, 'r, 'q) shape \<Rightarrow> ('h, 'm, 'n) shape \<Rightarrow>
    ('h, ('r, 'm) policyStruct, (string \<times> string) \<times> 'n \<times> 'q RightsizingPolicySpec) shape" where
  "policyShape Q M = struct (\<lambda>x. (plObjectMeta x, plSpec x)) (\<lambda>x ms. (plTypeMeta x, ms)) (both M (policySpecShape Q))"

definition listShape :: "('h, 'l, 'k) shape \<Rightarrow> ('h, addr option, 'v) shape \<Rightarrow>
    ('h, 'l listStruct, (string \<times> string) \<times> 'k \<times> 'v) shape" where
  "listShape L I = struct (\<lambda>x. (lsListMeta x, lsItems x)) (\<lambda>x mi. (lsTypeMeta x, mi)) (both L I)"

definition specShape :: "('h, 'r, 'q) shape \<Rightarrow>
    ('h, 'r RightsizingRecommendationSpec, 'q RightsizingRecommendationSpec) shape" where
  "specShape Q = struct (\<lambda>x. (Current x, Recommended x, Savings x))
     (\<lambda>x (c, r, s). \<lparr>VirtualMachineRef = VirtualMachineRef x, Direction = Direction x, Current = c, Recommended = r,
        Savings = s, Metrics = Metrics x, HotplugCapable = HotplugCapable x, Reason = Reason x\<rparr>)
     (both (resourceShape Q) (both (resourceShape Q) (savingsShape Q)))"

abbreviation "unTime \<equiv> \<lambda>c. case c of TimeCell t \<Rightarrow> Some t | _ \<Rightarrow> None"

definition timeShape :: "(('r, 'm, 'l, 'x) memory, addr option, time option) shape" where
  "timeShape = ptr unTime plain"

definition statusShape :: "(('r, 'm, 'l, 'x) memory, 'r, 'q) shape \<Rightarrow>
    (('r, 'm, 'l, 'x) memory, statusStruct, 'q RightsizingRecommendationStatus) shape" where
  "statusShape Q = struct
     (\<lambda>x. (stLastCalculated x, stAppliedAt x, stScheduledRestartAt x, stRevertBefore x, stRevertConfig x, stNotifiedAt x,
        stApprovedAt x, stRejectedAt x, stReminderSentAt x))
     (\<lambda>x (lc, aa, sr, rb, rc, na, ap, rj, rs). \<lparr>State = stState x, LastCalculated = lc, AppliedAt = aa,
        ScheduledRestartAt = sr, RevertBefore = rb, RevertConfig = rc, Message = stMessage x, Owner = stOwner x,
        ApprovalToken = stApprovalToken x, NotifiedAt = na, ApprovedBy = stApprovedBy x, ApprovedAt = ap,
        RejectedBy = stRejectedBy x, RejectedAt = rj, RejectionReason = stRejectionReason x,
        ServiceNowIncident = stServiceNowIncident x, ReminderSentAt = rs\<rparr>)
     (both timeShape (both timeShape (both timeShape (both timeShape (both (ptr unResource (resourceShape Q))
       (both timeShape (both timeShape (both timeShape timeShape))))))))"

definition recShape :: "(('r, 'm, 'l, 'x) memory, 'r, 'q) shape \<Rightarrow> (('r, 'm, 'l, 'x) memory, 'm, 'n) shape \<Rightarrow>
    (('r, 'm, 'l, 'x) memory, ('r, 'm) recStruct,
     (string \<times> string) \<times> 'n \<times> 'q RightsizingRecommendationSpec \<times> 'q RightsizingRecommendationStatus) shape" where
  "recShape Q M = struct (\<lambda>x. (rcObjectMeta x, rcSpec x, rcStatus x)) (\<lambda>x ms. (rcTypeMeta x, ms))
     (both M (both (specShape Q) (statusShape Q)))"

abbreviation "recObjectShape Q M \<equiv> ptr unRec (recShape Q M)"
abbreviation "recListShape Q M L \<equiv> ptr unRecList (listShape L (ptr unRecItems (items (recShape Q M))))"
abbreviation "policyObjectShape Q M \<equiv> ptr unPolicy (policyShape Q M)"
abbreviation "policyListShape Q M L \<equiv> ptr unPolicyList (listShape L (ptr unPolicyItems (items (policyShape Q M))))"

text \<open>What the generated code relies on: the libraries copy quantities, times and metadata in full.\<close>

definition unshared :: "('h, 'a, 'v) shape \<Rightarrow> bool" where
  "unshared S \<longleftrightarrow> (\<forall>h x. Shared S h x = {})"

locale copy_env =
  fixes lib :: "('r, 'm, 'l, 'x) copy_lib"
    and Q :: "(('r, 'm, 'l, 'x) memory, 'r, 'q) shape" and M :: "(('r, 'm, 'l, 'x) memory, 'm, 'n) shape"
    and L :: "(('r, 'm, 'l, 'x) memory, 'l, 'k) shape"
  assumes quantity: "deep_copy Q (QuantityDeepCopy lib)" and quantity_unshared: "unshared Q"
    and object_meta: "deep_copy M (ObjectMetaDeepCopyInto lib)" and object_meta_unshared: "unshared M"
    and list_meta: "deep_copy L (ListMetaDeepCopyInto lib)" and list_meta_unshared: "unshared L"
    and time: "deep_copy timeShape (TimeDeepCopy lib)"
begin

lemma resource: "deep_copy (resourceShape Q) (ResourceSpec_DeepCopyInto lib)"
  unfolding resourceShape_def
  by (rule struct_copy[OF quantity, where upd = "\<lambda>x q. x\<lparr>CPU := CPU x, Memory := q\<rparr>"])
     (simp_all add: ResourceSpec_DeepCopyInto_def)

lemma savings: "deep_copy (savingsShape Q) (SavingsSpec_DeepCopyInto lib)"
  unfolding savingsShape_def
  by (rule struct_copy[OF quantity, where upd = "\<lambda>x q. x\<lparr>SavingsMemory := q\<rparr>"])
     (simp_all add: SavingsSpec_DeepCopyInto_def)

lemma thresholds: "deep_copy (thresholdsShape Q) (ThresholdsSpec_DeepCopyInto lib)"
  unfolding thresholdsShape_def
  by (rule struct_copy[OF quantity, where upd = "\<lambda>x q. x\<lparr>MinMemorySavings := q\<rparr>"])
     (simp_all add: ThresholdsSpec_DeepCopyInto_def)

lemma storage: "deep_copy (shallow (storageShape Q)) ret"
  using quantity by (intro ret_copy) (simp add: storageShape_def deep_copy_def struct_ok)

lemma policy_spec: "deep_copy (policySpecShape Q) (RightsizingPolicySpec_DeepCopyInto lib)"
  unfolding policySpecShape_def
  by (rule struct_copy[OF both_copy[OF thresholds storage],
        where upd = "\<lambda>x tm. x\<lparr>Algorithm := Algorithm x, Thresholds := fst tm, AutoMode := AutoMode x, MetricsStorage := snd tm\<rparr>"])
     (simp_all add: RightsizingPolicySpec_DeepCopyInto_def copyBoth_def)

lemma policy: "deep_copy (policyShape Q M) (RightsizingPolicy_DeepCopyInto lib)"
  unfolding policyShape_def
  by (rule struct_copy[OF both_copy[OF object_meta policy_spec],
        where upd = "\<lambda>x ms. x\<lparr>plTypeMeta := plTypeMeta x, plObjectMeta := fst ms, plSpec := snd ms\<rparr>"])
     (simp_all add: RightsizingPolicy_DeepCopyInto_def copyBoth_def)

lemma spec: "deep_copy (specShape Q) (RightsizingRecommendationSpec_DeepCopyInto lib)"
  unfolding specShape_def
  by (rule struct_copy[OF both_copy[OF resource both_copy[OF resource savings]],
        where upd = "\<lambda>x crs. x\<lparr>VirtualMachineRef := VirtualMachineRef x, Current := fst crs, Recommended := fst (snd crs),
          Savings := snd (snd crs), Metrics := Metrics x\<rparr>"])
     (simp_all add: RightsizingRecommendationSpec_DeepCopyInto_def copyBoth_def)

lemma copy_time: "deep_copy timeShape (copyTime lib)"
proof (rule deep_copyI)
  show "shape_ok (timeShape :: (('r, 'm, 'l, 'x) memory, addr option, time option) shape)" using time by (simp add: deep_copy_def)
  fix h :: "('r, 'm, 'l, 'x) memory" and p assume "heap_ok h" "Good timeShape h p"
  then show "wp (copyTime lib p) (\<lambda>q h'. grows h h' \<and> copied timeShape h p h' q) h"
    using deep_copy.copies[OF time, of h p] by (auto simp: copyTime_def copied_def timeShape_def ptr_def)
qed

lemma revert_config: "deep_copy (ptr unResource (resourceShape Q)) (newCopy ResourceCell unResource (ResourceSpec_DeepCopyInto lib))"
  by (rule ptr_copy[OF resource]) simp

lemma status: "deep_copy (statusShape Q) (RightsizingRecommendationStatus_DeepCopyInto lib)"
  unfolding statusShape_def
  by (rule struct_copy[OF both_copy[OF copy_time both_copy[OF copy_time both_copy[OF copy_time both_copy[OF copy_time
          both_copy[OF revert_config both_copy[OF copy_time both_copy[OF copy_time both_copy[OF copy_time copy_time]]]]]]]],
        where upd = "\<lambda>x (lc, aa, sr, rb, rc, na, ap, rj, rs). x\<lparr>stLastCalculated := lc, stAppliedAt := aa, stScheduledRestartAt := sr,
          stRevertBefore := rb, stRevertConfig := rc, stNotifiedAt := na, stApprovedAt := ap, stRejectedAt := rj, stReminderSentAt := rs\<rparr>"])
     (auto simp: RightsizingRecommendationStatus_DeepCopyInto_def copyBoth_def)

lemma recommendation: "deep_copy (recShape Q M) (RightsizingRecommendation_DeepCopyInto lib)"
  unfolding recShape_def
  by (rule struct_copy[OF both_copy[OF object_meta both_copy[OF spec status]],
        where upd = "\<lambda>x mss. x\<lparr>rcTypeMeta := rcTypeMeta x, rcObjectMeta := fst mss, rcSpec := fst (snd mss), rcStatus := snd (snd mss)\<rparr>"])
     (simp_all add: RightsizingRecommendation_DeepCopyInto_def copyBoth_def)

lemma rec_list: "deep_copy (listShape L (ptr unRecItems (items (recShape Q M)))) (RightsizingRecommendationList_DeepCopyInto lib)"
  unfolding listShape_def
  by (rule struct_copy[OF both_copy[OF list_meta ptr_copy[OF items_copy[OF recommendation], where mk = RecItems]],
        where upd = "\<lambda>x mi. x\<lparr>lsTypeMeta := lsTypeMeta x, lsListMeta := fst mi, lsItems := snd mi\<rparr>"])
     (simp_all add: RightsizingRecommendationList_DeepCopyInto_def copyBoth_def)

lemma policy_list: "deep_copy (listShape L (ptr unPolicyItems (items (policyShape Q M)))) (RightsizingPolicyList_DeepCopyInto lib)"
  unfolding listShape_def
  by (rule struct_copy[OF both_copy[OF list_meta ptr_copy[OF items_copy[OF policy], where mk = PolicyItems]],
        where upd = "\<lambda>x mi. x\<lparr>lsTypeMeta := lsTypeMeta x, lsListMeta := fst mi, lsItems := snd mi\<rparr>"])
     (simp_all add: RightsizingPolicyList_DeepCopyInto_def copyBoth_def)

end

sublocale copy_env \<subseteq> recObject: deep_copy "recObjectShape Q M" "RightsizingRecommendation_DeepCopy lib"
  unfolding RightsizingRecommendation_DeepCopy_def by (rule ptr_copy[OF recommendation]) simp

sublocale copy_env \<subseteq> recList: deep_copy "recListShape Q M L" "RightsizingRecommendationList_DeepCopy lib"
  unfolding RightsizingRecommendationList_DeepCopy_def by (rule ptr_copy[OF rec_list]) simp

sublocale copy_env \<subseteq> policyObject: deep_copy "policyObjectShape Q M" "RightsizingPolicy_DeepCopy lib"
  unfolding RightsizingPolicy_DeepCopy_def by (rule ptr_copy[OF policy]) simp

sublocale copy_env \<subseteq> policyList: deep_copy "policyListShape Q M L" "RightsizingPolicyList_DeepCopy lib"
  unfolding RightsizingPolicyList_DeepCopy_def by (rule ptr_copy[OF policy_list]) simp

lemma unshared_plain: "unshared plain"
  by (simp add: unshared_def plain_def)

lemma unshared_both: "unshared S \<Longrightarrow> unshared T \<Longrightarrow> unshared (both S T)"
  by (simp add: unshared_def both_def)

lemma unshared_struct: "unshared S \<Longrightarrow> unshared (struct f mk S)"
  by (simp add: unshared_def struct_def)

lemma unshared_ptr: "unshared S \<Longrightarrow> unshared (ptr get S)"
  by (simp add: unshared_def ptr_def split: option.splits)

lemma unshared_items: "unshared S \<Longrightarrow> unshared (items S)"
  by (simp add: unshared_def items_def)

lemmas unshared_intros = unshared_plain unshared_both unshared_struct unshared_ptr unshared_items

lemma unshared_rec: "unshared Q \<Longrightarrow> unshared M \<Longrightarrow> unshared (recShape Q M)"
  unfolding recShape_def specShape_def statusShape_def resourceShape_def savingsShape_def timeShape_def
  by (intro unshared_intros)

lemma shared_policy:
  "unshared Q \<Longrightarrow> unshared M \<Longrightarrow> Shared (policyShape Q M) h x = Foot Q h (StorageSize (MetricsStorage (plSpec x)))"
  by (simp add: policyShape_def policySpecShape_def thresholdsShape_def storageShape_def struct_def both_def shallow_def unshared_def)

text \<open>A \<open>DeepCopyObject\<close> is nil for nil, and otherwise a separate copy in an interface.\<close>

definition object_copy :: "(('r, 'm, 'l, 'x) memory, addr option, 'v) shape \<Rightarrow> addr set \<Rightarrow> (addr \<Rightarrow> runtime_object) \<Rightarrow>
    (addr option \<Rightarrow> (('r, 'm, 'l, 'x) memory, runtime_object option) state) \<Rightarrow> ('r, 'm, 'l, 'x) memory \<Rightarrow> addr option \<Rightarrow> bool" where
  "object_copy S K mk copy h p \<longleftrightarrow> (case run_state (copy p) h of (r, h') \<Rightarrow>
     case p of None \<Rightarrow> r = None \<and> h' = h | Some a \<Rightarrow> \<exists>b. r = Some (mk b) \<and> separate S K h p h' (Some b))"

lemma object_copyI:
  assumes c: "deep_copy (ptr get S) (newCopy mk get into)"
    and ok: "heap_ok h" "Good (ptr get S) h p" and K: "Shared (ptr get S) h p = K"
  shows "object_copy (ptr get S) K obj (\<lambda>p. do { c \<leftarrow> newCopy mk get into p; ret (objectOf obj c) }) h p"
proof (cases p)
  case None
  then show ?thesis by (simp add: object_copy_def newCopy_def objectOf_def)
next
  case (Some a)
  then obtain x where x: "target get h a = Some x" using ok(2) by (auto simp: ptr_def split: option.splits)
  obtain q h' where run: "run_state (newCopy mk get into p) h = (q, h')" by (cases "run_state (newCopy mk get into p) h")
  then obtain b where b: "q = Some b" using Some x by (auto simp: newCopy_def load_def target_def split: prod.splits)
  have "separate (ptr get S) K h p h' q" using wpD[OF deep_copy.copy_separate[OF c ok] run] K by simp
  then show ?thesis using Some run b by (auto simp: object_copy_def objectOf_def)
qed

text \<open>The cells of the storage sizes of policies, and the policies of a list.\<close>

definition storageCells :: "('h, 'r, 'q) shape \<Rightarrow> 'h \<Rightarrow> ('r, 'm) policyStruct list \<Rightarrow> addr set" where
  "storageCells Q h xs = (\<Union>x \<in> set xs. Foot Q h (StorageSize (MetricsStorage (plSpec x))))"

definition listedPolicies :: "('r, 'm, 'l, 'x) memory \<Rightarrow> 'l listStruct \<Rightarrow> ('r, 'm) policyStruct list" where
  "listedPolicies h l = (case Option.bind (lsItems l) (target unPolicyItems h) of None \<Rightarrow> [] | Some xs \<Rightarrow> xs)"

text \<open>The copy of a policy has the storage size of the original as it is, pointers included.\<close>

lemma newCopy_field:
  assumes "target get h a = Some x" "\<And>x. get (mk x) = Some x" "wp (into x) (\<lambda>y _. f y = f x) h"
  shows "wp (newCopy mk get into (Some a)) (\<lambda>q h'. map_option f (Option.bind q (target get h')) = Some (f x)) h"
  using assms by (simp add: newCopy_def target_def) (simp add: alloc_def wp_def split: prod.splits)

lemma policy_storage_kept:
  assumes "target unPolicy h a = Some x"
  shows "wp (RightsizingPolicy_DeepCopy lib (Some a))
    (\<lambda>q h'. map_option (MetricsStorage \<circ> plSpec) (Option.bind q (target unPolicy h')) = Some (MetricsStorage (plSpec x))) h"
proof -
  have "wp (RightsizingPolicy_DeepCopyInto lib x) (\<lambda>y _. (MetricsStorage \<circ> plSpec) y = (MetricsStorage \<circ> plSpec) x) h"
    by (simp add: RightsizingPolicy_DeepCopyInto_def RightsizingPolicySpec_DeepCopyInto_def wp_any)
  then have "wp (newCopy PolicyCell unPolicy (RightsizingPolicy_DeepCopyInto lib) (Some a))
      (\<lambda>q h'. map_option (MetricsStorage \<circ> plSpec) (Option.bind q (target unPolicy h')) = Some ((MetricsStorage \<circ> plSpec) x)) h"
    by (intro newCopy_field[where f = "MetricsStorage \<circ> plSpec", OF assms]) simp_all
  then show ?thesis by (simp add: RightsizingPolicy_DeepCopy_def)
qed

context copy_env
begin

lemma rec_object_copy:
  assumes "heap_ok h" "Good (recObjectShape Q M) h p"
  shows "object_copy (recObjectShape Q M) {} RecObject (RightsizingRecommendation_DeepCopyObject lib) h p"
proof -
  have "Shared (recObjectShape Q M) h p = {}"
    using unshared_ptr[OF unshared_rec[OF quantity_unshared object_meta_unshared]] by (simp add: unshared_def)
  then show ?thesis
    using object_copyI[OF recObject.deep_copy_axioms[unfolded RightsizingRecommendation_DeepCopy_def] assms]
    by (simp add: RightsizingRecommendation_DeepCopyObject_def RightsizingRecommendation_DeepCopy_def object_copy_def)
qed

lemma rec_list_copy:
  assumes "heap_ok h" "Good (recListShape Q M L) h p"
  shows "object_copy (recListShape Q M L) {} RecListObject (RightsizingRecommendationList_DeepCopyObject lib) h p"
proof -
  have "unshared (recListShape Q M L)" unfolding listShape_def
    by (intro unshared_intros unshared_rec quantity_unshared object_meta_unshared list_meta_unshared)
  then show ?thesis
    using object_copyI[OF recList.deep_copy_axioms[unfolded RightsizingRecommendationList_DeepCopy_def] assms]
    by (simp add: RightsizingRecommendationList_DeepCopyObject_def RightsizingRecommendationList_DeepCopy_def object_copy_def unshared_def)
qed

lemma policy_object_copy:
  assumes "heap_ok h" "target unPolicy h a = Some x" "Good (policyShape Q M) h x"
  shows "object_copy (policyObjectShape Q M) (storageCells Q h [x]) PolicyObject (RightsizingPolicy_DeepCopyObject lib) h (Some a)"
proof -
  have "Good (policyObjectShape Q M) h (Some a)" "Shared (policyObjectShape Q M) h (Some a) = storageCells Q h [x]"
    using assms(2,3) by (simp_all add: ptr_def shared_policy[OF quantity_unshared object_meta_unshared] storageCells_def)
  from object_copyI[OF policyObject.deep_copy_axioms[unfolded RightsizingPolicy_DeepCopy_def] assms(1) this]
  show ?thesis by (simp add: RightsizingPolicy_DeepCopyObject_def RightsizingPolicy_DeepCopy_def object_copy_def)
qed

lemma policy_list_copy:
  assumes "heap_ok h" "target unPolicyList h a = Some l" "Good (listShape L (ptr unPolicyItems (items (policyShape Q M)))) h l"
  shows "object_copy (policyListShape Q M L) (storageCells Q h (listedPolicies h l)) PolicyListObject
    (RightsizingPolicyList_DeepCopyObject lib) h (Some a)"
proof -
  have "Shared L h (lsListMeta l) = {}" using list_meta_unshared by (simp add: unshared_def)
  then have "Good (policyListShape Q M L) h (Some a)"
    "Shared (policyListShape Q M L) h (Some a) = storageCells Q h (listedPolicies h l)"
    using assms(2,3)
    by (simp_all add: ptr_def listShape_def struct_def both_def items_def storageCells_def listedPolicies_def
        shared_policy[OF quantity_unshared object_meta_unshared] split: option.split)
  from object_copyI[OF policyList.deep_copy_axioms[unfolded RightsizingPolicyList_DeepCopy_def] assms(1) this]
  show ?thesis by (simp add: RightsizingPolicyList_DeepCopyObject_def RightsizingPolicyList_DeepCopy_def object_copy_def)
qed

end

section \<open>The flat types\<close>

interpretation algorithm: deep_copy "ptr (\<lambda>c. case c of AlgorithmCell x \<Rightarrow> Some x | _ \<Rightarrow> None) plain" AlgorithmSpec_DeepCopy
  unfolding AlgorithmSpec_DeepCopy_def AlgorithmSpec_DeepCopyInto_def by (rule ptr_copy[OF plain_copy]) simp

interpretation autoMode: deep_copy "ptr (\<lambda>c. case c of AutoModeCell x \<Rightarrow> Some x | _ \<Rightarrow> None) plain" AutoModeSpec_DeepCopy
  unfolding AutoModeSpec_DeepCopy_def AutoModeSpec_DeepCopyInto_def by (rule ptr_copy[OF plain_copy]) simp

interpretation cpu: deep_copy "ptr (\<lambda>c. case c of CPUCell x \<Rightarrow> Some x | _ \<Rightarrow> None) plain" CPUSpec_DeepCopy
  unfolding CPUSpec_DeepCopy_def CPUSpec_DeepCopyInto_def by (rule ptr_copy[OF plain_copy]) simp

interpretation snapshot: deep_copy "ptr (\<lambda>c. case c of MetricsCell x \<Rightarrow> Some x | _ \<Rightarrow> None) plain" MetricsSnapshot_DeepCopy
  unfolding MetricsSnapshot_DeepCopy_def MetricsSnapshot_DeepCopyInto_def by (rule ptr_copy[OF plain_copy]) simp

interpretation objectRef: deep_copy "ptr (\<lambda>c. case c of RefCell x \<Rightarrow> Some x | _ \<Rightarrow> None) plain" ObjectRef_DeepCopy
  unfolding ObjectRef_DeepCopy_def ObjectRef_DeepCopyInto_def by (rule ptr_copy[OF plain_copy]) simp

section \<open>An instance of the libraries\<close>

text \<open>A quantity is a number and, for large ones, a pointer to a decimal; metadata has a pointer to a timestamp.\<close>

type_synonym exMem = "(int \<times> addr option, string \<times> addr option, string, int) memory"

abbreviation "unExternal \<equiv> \<lambda>c. case c of External x \<Rightarrow> Some x | _ \<Rightarrow> None"

definition exLib :: "(int \<times> addr option, string \<times> addr option, string, int) copy_lib" where
  "exLib = \<lparr>QuantityDeepCopy = copyBoth ret (newCopy External unExternal ret), TimeDeepCopy = newCopy TimeCell unTime ret,
     ObjectMetaDeepCopyInto = copyBoth ret (newCopy TimeCell unTime ret), ListMetaDeepCopyInto = ret\<rparr>"

definition exQuantity :: "(exMem, int \<times> addr option, int \<times> int option) shape" where
  "exQuantity = both plain (ptr unExternal plain)"

definition exMeta :: "(exMem, string \<times> addr option, string \<times> time option) shape" where
  "exMeta = both plain timeShape"

lemma exQuantity_copy: "deep_copy exQuantity (QuantityDeepCopy exLib)"
  unfolding exQuantity_def exLib_def copy_lib.simps by (rule both_copy[OF plain_copy ptr_copy[OF plain_copy]]) simp

lemma exMeta_copy: "deep_copy exMeta (ObjectMetaDeepCopyInto exLib)"
  unfolding exMeta_def timeShape_def exLib_def copy_lib.simps by (rule both_copy[OF plain_copy ptr_copy[OF plain_copy]]) simp

lemma exTime_copy: "deep_copy timeShape (TimeDeepCopy exLib)"
  unfolding timeShape_def exLib_def copy_lib.simps by (rule ptr_copy[OF plain_copy]) simp

lemma exListMeta_copy: "deep_copy plain (ListMetaDeepCopyInto exLib)"
  unfolding exLib_def copy_lib.simps by (rule plain_copy)

lemma ex_unshared: "unshared exQuantity" "unshared exMeta"
  unfolding exQuantity_def exMeta_def timeShape_def by (intro unshared_intros)+

interpretation exCopy: copy_env exLib exQuantity exMeta plain
  by (rule copy_env.intro) (rule exQuantity_copy exMeta_copy exTime_copy exListMeta_copy ex_unshared unshared_plain)+

text \<open>A memory with a recommendation that has been applied, a policy, and a list of each.\<close>

definition exRec :: "(int \<times> addr option, string \<times> addr option) recStruct" where
  "exRec = \<lparr>rcTypeMeta = (''RightsizingRecommendation'', ''v1alpha1''), rcObjectMeta = (''rs-web'', Some 9),
     rcSpec = \<lparr>VirtualMachineRef = \<lparr>RefName = ''web'', RefNamespace = ''shop''\<rparr>, Direction = DirectionDownsize,
       Current = \<lparr>CPU = \<lparr>Cores = 8, Sockets = 1, Threads = 1\<rparr>, Memory = (0, Some 0)\<rparr>,
       Recommended = \<lparr>CPU = \<lparr>Cores = 4, Sockets = 1, Threads = 1\<rparr>, Memory = (8, None)\<rparr>,
       Savings = \<lparr>SavingsCPU = 4, SavingsMemory = (8, None)\<rparr>,
       Metrics = \<lparr>SnapLookbackDays = 30, CPUP95Percent = Fin 20, MemoryP95Percent = Fin 20, CPUMaxPercent = Fin 30, MemoryMaxPercent = Fin 30\<rparr>,
       HotplugCapable = False, Reason = ''idle''\<rparr>,
     rcStatus = \<lparr>stState = StateApplied, stLastCalculated = Some 9, stAppliedAt = Some 9, stScheduledRestartAt = None,
       stRevertBefore = Some 9, stRevertConfig = Some 2, stMessage = [], stOwner = [], stApprovalToken = [], stNotifiedAt = None,
       stApprovedBy = [], stApprovedAt = None, stRejectedBy = [], stRejectedAt = None, stRejectionReason = [],
       stServiceNowIncident = [], stReminderSentAt = None\<rparr>\<rparr>"

definition exPolicy :: "(int \<times> addr option, string \<times> addr option) policyStruct" where
  "exPolicy = \<lparr>plTypeMeta = (''RightsizingPolicy'', ''v1alpha1''), plObjectMeta = (''default'', Some 9),
     plSpec = \<lparr>LookbackDays = 30, Algorithm = \<lparr>Percentile = 95, HeadroomPercent = 20\<rparr>,
       Thresholds = \<lparr>MinCPUSavings = 1, MinMemorySavings = (1, None), UpsizeUtilizationPercent = 90\<rparr>,
       RevertRetentionDays = 30, AutoMode = \<lparr>Enabled = False, Schedule = ''0 2 * * *''\<rparr>, ReconcileIntervalMinutes = 60,
       MetricsStorage = \<lparr>RetentionDays = 90, StorageSize = (0, Some 0)\<rparr>\<rparr>\<rparr>"

definition exMemory :: exMem where
  "exMemory = \<lparr>Cells = [0 \<mapsto> External 50, 9 \<mapsto> TimeCell 7,
       2 \<mapsto> ResourceCell \<lparr>CPU = \<lparr>Cores = 8, Sockets = 1, Threads = 1\<rparr>, Memory = (0, Some 0)\<rparr>,
       3 \<mapsto> RecCell exRec, 4 \<mapsto> RecItems [exRec, exRec], 5 \<mapsto> RecListCell \<lparr>lsTypeMeta = ([], []), lsListMeta = ''1'', lsItems = Some 4\<rparr>,
       6 \<mapsto> PolicyCell exPolicy, 7 \<mapsto> PolicyItems [exPolicy],
       8 \<mapsto> PolicyListCell \<lparr>lsTypeMeta = ([], []), lsListMeta = ''1'', lsItems = Some 7\<rparr>], Limit = 10\<rparr>"

lemma exMemory_ok: "heap_ok exMemory"
  by (auto simp: heap_ok_def exMemory_def dom_def)

lemma ex_targets:
  "target unRec exMemory 3 = Some exRec" "target unRecItems exMemory 4 = Some [exRec, exRec]"
  "target unRecList exMemory 5 = Some \<lparr>lsTypeMeta = ([], []), lsListMeta = ''1'', lsItems = Some 4\<rparr>"
  "target unPolicy exMemory 6 = Some exPolicy" "target unPolicyItems exMemory 7 = Some [exPolicy]"
  "target unPolicyList exMemory 8 = Some \<lparr>lsTypeMeta = ([], []), lsListMeta = ''1'', lsItems = Some 7\<rparr>"
  "target unExternal exMemory 0 = Some 50" "target unTime exMemory 9 = Some 7"
  "target unResource exMemory 2 = Some \<lparr>CPU = \<lparr>Cores = 8, Sockets = 1, Threads = 1\<rparr>, Memory = (0, Some 0)\<rparr>"
  by (simp_all add: target_def exMemory_def)

lemmas rec_shapes = recShape_def specShape_def statusShape_def resourceShape_def savingsShape_def timeShape_def exQuantity_def exMeta_def
lemmas policy_shapes = policyShape_def policySpecShape_def thresholdsShape_def storageShape_def timeShape_def exQuantity_def exMeta_def

lemma exRec_good: "Good (recShape exQuantity exMeta) exMemory exRec"
  by (simp add: rec_shapes shape_defs exRec_def ex_targets)

lemma exPolicy_good: "Good (policyShape exQuantity exMeta) exMemory exPolicy"
  by (simp add: policy_shapes shape_defs exPolicy_def ex_targets)

section \<open>Properties\<close>

text \<open>C24: the copy of a recommendation, or of a list of them, is complete and independent. \<open>DeepCopyObject\<close> returns nil for nil and
  otherwise a new object with the same value, all fields and timestamps and the configuration to revert
  to included; no memory is reachable from both, so whatever is later written through the one, the other keeps its value: a reconciler may
  change what it got from the cache.\<close>

theorem recommendation_copies_isolated:
  assumes "copy_env lib Q M L" and "heap_ok h"
  shows "(Good (recObjectShape Q M) h p \<longrightarrow>
      object_copy (recObjectShape Q M) {} RecObject (RightsizingRecommendation_DeepCopyObject lib) h p) \<and>
    (Good (recListShape Q M L) h q \<longrightarrow>
      object_copy (recListShape Q M L) {} RecListObject (RightsizingRecommendationList_DeepCopyObject lib) h q)"
  using copy_env.rec_object_copy[OF assms] copy_env.rec_list_copy[OF assms] by blast

theorem recommendation_copies_isolated_witness:
  "heap_ok exMemory \<and>
   object_copy (recObjectShape exQuantity exMeta) {} RecObject (RightsizingRecommendation_DeepCopyObject exLib) exMemory (Some 3) \<and>
   object_copy (recListShape exQuantity exMeta plain) {} RecListObject (RightsizingRecommendationList_DeepCopyObject exLib) exMemory (Some 5)"
proof -
  have "Good (recObjectShape exQuantity exMeta) exMemory (Some 3)" by (simp add: ptr_def ex_targets exRec_good)
  moreover have "Good (recListShape exQuantity exMeta plain) exMemory (Some 5)"
    by (simp add: ptr_def ex_targets exRec_good listShape_def struct_def both_def items_def plain_def)
  ultimately show ?thesis
    using recommendation_copies_isolated[OF exCopy.copy_env_axioms exMemory_ok, of "Some 3" "Some 5"] exMemory_ok by blast
qed

text \<open>C25: the copy of a policy, or of a list of them, has the same value but is not independent: the quantity
  \<open>MetricsStorage.StorageSize\<close> is copied by assignment, pointers included, and the copy and the original have exactly the memory of that quantity
  in common: a change of it through the one shows in the other. Whatever else is written through the one does not show in the other.\<close>

theorem policy_copies_share_storage:
  assumes "copy_env lib Q M L" and "heap_ok h"
  shows "(target unPolicy h a = Some x \<and> Good (policyShape Q M) h x \<longrightarrow>
      object_copy (policyObjectShape Q M) (storageCells Q h [x]) PolicyObject (RightsizingPolicy_DeepCopyObject lib) h (Some a) \<and>
      (case run_state (RightsizingPolicy_DeepCopy lib (Some a)) h of (c, h') \<Rightarrow>
        map_option (MetricsStorage \<circ> plSpec) (Option.bind c (target unPolicy h')) = Some (MetricsStorage (plSpec x)))) \<and>
    (target unPolicyList h b = Some l \<and> Good (listShape L (ptr unPolicyItems (items (policyShape Q M)))) h l \<longrightarrow>
      object_copy (policyListShape Q M L) (storageCells Q h (listedPolicies h l)) PolicyListObject
        (RightsizingPolicyList_DeepCopyObject lib) h (Some b))"
  by (intro conjI impI; elim conjE;
    rule copy_env.policy_object_copy[OF assms] copy_env.policy_list_copy[OF assms] policy_storage_kept[unfolded wp_def])

theorem policy_copies_share_storage_witness:
  "heap_ok exMemory \<and>
   object_copy (policyObjectShape exQuantity exMeta) {0} PolicyObject (RightsizingPolicy_DeepCopyObject exLib) exMemory (Some 6) \<and>
   object_copy (policyListShape exQuantity exMeta plain) {0} PolicyListObject (RightsizingPolicyList_DeepCopyObject exLib) exMemory (Some 8) \<and>
   (case run_state (RightsizingPolicy_DeepCopy exLib (Some 6)) exMemory of (q, h') \<Rightarrow>
     map_option (StorageSize \<circ> MetricsStorage \<circ> snd \<circ> snd) (View (policyObjectShape exQuantity exMeta)
       (h'\<lparr>Cells := (Cells h')(0 \<mapsto> External 60)\<rparr>) q) = Some (0, Some 60))"
proof -
  have run: "run_state (RightsizingPolicy_DeepCopy exLib (Some 6)) exMemory = (q, h') \<Longrightarrow>
    map_option (StorageSize \<circ> MetricsStorage \<circ> snd \<circ> snd) (View (policyObjectShape exQuantity exMeta)
      (h'\<lparr>Cells := (Cells h')(0 \<mapsto> External 60)\<rparr>) q) = Some (0, Some 60)" for q h'
    by (auto simp: RightsizingPolicy_DeepCopy_def newCopy_def load_def alloc_def exMemory_def RightsizingPolicy_DeepCopyInto_def
        exLib_def copyBoth_def exPolicy_def RightsizingPolicySpec_DeepCopyInto_def ThresholdsSpec_DeepCopyInto_def
        policy_shapes shape_defs target_def)
  have K: "storageCells exQuantity exMemory [exPolicy] = {0}"
    by (simp add: storageCells_def exPolicy_def exQuantity_def shape_defs ex_targets)
  show ?thesis
    using policy_copies_share_storage[OF exCopy.copy_env_axioms exMemory_ok, of 6 exPolicy 8
        "\<lparr>lsTypeMeta = ([], []), lsListMeta = ''1'', lsItems = Some 7\<rparr>"] exMemory_ok K exPolicy_good run
    by (simp split: prod.split add: ex_targets ptr_def listShape_def struct_def both_def items_def plain_def listedPolicies_def)
qed

end
