(* ===== verification/Spec2Isabelle.thy ===== *)
theory Spec2Isabelle
  imports System Startup Deep_Copy
begin

text \<open>
  A verification development for OVRO, the OpenShift virtualization rightsizing operator.

  \<^bold>\<open>The program.\<close> Two Go processes share one Kubernetes cluster.

  \<^item> The \<^emph>\<open>operator\<close> (\<open>cmd/main.go\<close>) runs three components. The recommendation controller reads the
    utilization of a virtual machine from a Prometheus-compatible server, lets the calculator
    propose a size, and stores the proposal as a custom resource, a recommendation; if the policy says so
    it applies the proposal at once, or asks the owner of the VM where it has one. The restart
    controller restarts VMs whose recommendation was applied with a scheduled restart. The API server
    lets users list, apply, reject and revert recommendations, exclude VMs and edit the policy; each
    request passes a token review and an access review.
  \<^item> The \<^emph>\<open>approval proxy\<close> (\<open>cmd/approval-proxy/main.go\<close>) is public. It serves the page behind an
    approval link: it validates the signed token of the link and passes the owner's decision to
    internal endpoints of the API server, which trust it.

  They interact through the cluster (the stored recommendations, the policy, the VMs), through HTTP
  (proxy to API server), and through the links in notifications sent over mail, chat, paging
  or incident channels.

  \<^bold>\<open>Style.\<close> A handler or reconciler is a function in the state monad over a world \<open>'w\<close> that it does not
  look into; what it can do to the world is the record of client functions it is given. Errors are
  values: \<open>Inl\<close> with the text, a response with its status code, \<open>Panicked\<close> or \<open>None\<close> for a Go panic.
  \<open>int32\<close> and \<open>int64\<close> are integers with explicit wrap-around (\<open>i32\<close>, \<open>i64\<close>), \<open>float64\<close> is an executable
  binary64. A long Go function is cut into named parts in the order of its body. Loops over slices are
  structural recursion, so every function of the model is total and no fuel is used.

  \<^bold>\<open>Theories and sources.\<close> All paths are below \<open>src/\<close>.

  \<^item> \<open>Prelude\<close>: fixed-width integers, the string functions of Go, the state monad and its weakest
    preconditions \<open>wp\<close>. \<open>Float64\<close>: binary64 arithmetic, rounding and conversion to integers, with its
    rounding laws as locales interpreted on \<open>round64\<close>. \<open>Go_Time\<close>, \<open>Go_URL\<close>, \<open>Go_Float\<close>: what the sources use
    of \<open>time.Parse\<close>, \<open>net/url\<close> and \<open>strconv.ParseFloat\<close>. \<open>JSON\<close>: values and merge patches.
  \<^item> \<open>API_Types\<close>: the custom resources and the default policy (\<open>api/v1alpha1\<close>).
  \<^item> \<open>Deep_Copy\<close>: \<open>api/v1alpha1/zz_generated.deepcopy.go\<close>, over a memory of structs and pointers. A \<open>shape\<close> says what value a struct
    in that memory holds and which cells it reaches; the values are the records of \<open>API_Types\<close>.
  \<^item> \<open>Calculator\<close>: \<open>internal/calculator/calculator.go\<close>.
  \<^item> \<open>Prometheus_Client\<close>: \<open>internal/prometheus/client.go\<close>, \<open>queries.go\<close> and the adapter in \<open>cmd/main.go\<close>.
  \<^item> \<open>Kube\<close>: the Kubernetes clients, quantities, clock and reviews as records of functions, and one locale
    for the documented behaviour of each (optimistic concurrency of the store, effects of a patch,
    monotone history). \<open>Mem_Cluster\<close>: a cluster in memory that satisfies them all.
  \<^item> \<open>Owner\<close>, \<open>Applier\<close>, \<open>Approval_Token\<close>: \<open>internal/owner/resolver.go\<close>, \<open>internal/applier/applier.go\<close>,
    \<open>internal/approval/token.go\<close>.
  \<^item> \<open>Workflow\<close>: a specification, not code: the status transitions \<open>status_step\<close>, the writes \<open>allowed\<close>, and
    the well-formedness that every history of allowed writes keeps.
  \<^item> \<open>Recommendation_Controller\<close>, \<open>Restart_Controller\<close>: the two reconcilers of \<open>internal/controller\<close>.
  \<^item> \<open>Notifier\<close>, \<open>Forwarders\<close>: the dispatcher, its construction from the configuration, and every channel of
    \<open>internal/notifier\<close> (Slack, Teams, mail, SNMP, PagerDuty, Rocket.Chat, ServiceNow).
  \<^item> \<open>Http\<close>, \<open>API_Server\<close>, \<open>API_Middleware\<close>: request decoding, the handlers (\<open>handlers.go\<close>), the routes and the
    authentication (\<open>server.go\<close>, \<open>middleware.go\<close>) of \<open>internal/apiserver\<close>.
  \<^item> \<open>Approval_Proxy\<close>, \<open>Approval_Flow\<close>: \<open>internal/approvalproxy/proxy.go\<close>, and the proxy with the API server
    as its backend.
  \<^item> \<open>Wiring\<close>: how both \<open>main\<close> functions build the components from flags, environment and files.
  \<^item> \<open>Startup\<close>: the rest of both \<open>main\<close> functions: TLS options as slices with their backing arrays, options of
    the manager, registrations (\<open>SetupWithManager\<close>, probes, certificate watchers, the API server) in their order,
    and the listeners of the two HTTP servers.
  \<^item> \<open>Platform\<close>: from the laws of the platform to the contracts of the components that \<open>main\<close> builds, and
    the same with other processes at work between any two calls.
  \<^item> \<open>System\<close>: all components on one cluster, in any order and overlapping.

  \<^bold>\<open>Interfaces.\<close> The locales \<open>recommendation_store\<close>, \<open>vm_api\<close>, \<open>clock\<close>, \<open>reviews\<close>, \<open>network\<close>, \<open>quantities\<close>,
  \<open>jwt\<close>, \<open>http_log\<close> and \<open>smtp_log\<close> state what the program relies on of code it only calls. An event view
  \<open>ev\<close> records what was done to the cluster; the laws of a locale say which event each call emits. The locales
  \<open>restart_env\<close>, \<open>reconciler_env\<close> and \<open>server_env\<close> put the interfaces of a component together, and its
  lemmas are proved there. \<open>notifying\<close> is the contract between the dispatcher and its clients: \<open>Platform\<close> shows it
  for every dispatcher that \<open>NewDispatcher\<close> makes, and \<open>notified\<close> is its strong form, in which each attempt
  shows. \<open>platform_env\<close> is what both processes need of the cluster; from it the contracts of the components
  that \<open>startOperator\<close> builds follow. Each locale is interpreted over the cluster in memory, and the
  witnesses run there. \<open>deep_copy\<close> is the contract of a copy function; it is shown for fields, pointers and slices, and for
  every copy function from \<open>copy_env\<close>, what the Kubernetes libraries promise of their own copies.

  \<^bold>\<open>What is shown.\<close>

  \<^item> \<^emph>\<open>The owner's consent.\<close> Both ways to apply a recommendation, automatic and through the API, only ask for
    approval where the VM has an owner; how the wiring turns these gates on. A token works until it expires
    and no other token works; a request to the public proxy touches only the recommendation of its token;
    a link of the operator opens at the proxy; the page shows what is stored; a scheduled approval is stored
    and obeyed.
  \<^item> \<^emph>\<open>The life of a recommendation.\<close> Every write of either controller and of the API server is allowed; over
    any history of runs every stored recommendation stays well-formed, and each event moves it by a step that the
    abstract \<open>life\<close> has for that kind of event, with failed and reverted final; what a run does about a pending
    approval request (reminder, expiry); what an owner's rejection does, with and without exclusion of the VM; a
    restart goes out exactly when it is due.
  \<^item> \<^emph>\<open>Sizes.\<close> A percentile is the exact linear interpolation, the reported utilization is that of the samples in percent of
    the size of the VM; sizes are
    those of exact arithmetic (P95 usage and headroom for a downsize, 70 percent of the size for an upsize) and
    a recommendation is missing only where they miss the thresholds, all up to bounded rounding; savings. The patch
    that applies a size changes the cores and the guest memory of the VM and nothing else. Queries select the VM
    they are meant for.
  \<^item> \<^emph>\<open>Access.\<close> A request from outside is refused without effect, or its writes are those that the cluster
    reviewed for its user; a list shows what its user may read; the policy stays in its bounds.
  \<^item> \<^emph>\<open>Notification.\<close> Which channels a configuration yields, excluded channels, delivery of the link, and
    protection of the mail password.
  \<^item> \<^emph>\<open>Startup.\<close> A process that starts has registered all its parts, and which certificate and protocols each of its
    TLS servers ends up with.
  \<^item> \<^emph>\<open>Copies.\<close> A copied recommendation has the value of the original and no memory in common with it, so that the handlers may
    work on values; a copied policy shares the memory of one quantity.
  \<^item> \<^emph>\<open>Errors.\<close> No reconciliation and no request panics. Some theorems pin down behaviour that surprises:
    applying through the API does not change the VM, the choice to exclude a VM on the approval page
    does not exclude it, with a missing memory metric every downsize is to one gibibyte, an unbounded headroom
    overflows.

  \<^bold>\<open>Choices.\<close> A history is the list of events that the API server took, each made by some run of some
  component; the runs may overlap. Other writers are covered by the store's check of the resource version:
  an update succeeds only on the version that was read, which is what \<open>status_step\<close> relates; deletion does
  not check it. A value of \<open>float64\<close> outside
  an integer type converts to \<open>Oor\<close>, an arbitrary function, since Go leaves it to the architecture. Names
  of Kubernetes objects are taken as \<open>plainName\<close> where a path is built of them. The encoding of answers as JSON
  text is a parameter where the proxy decodes it; \<open>encodeSpec\<close> writes out the members that are read. Idealised are:
  the zero time, which the API server would give back as no time (\<open>serStatus\<close> only drops the fractions of a second);
  fused multiplication and addition, which Go permits on some architectures (\<open>float64\<close> operations round one by
  one); the redirect of a path that is not clean, which the client of the proxy would follow (\<open>apiBackend\<close>); and the
  index panic of a percentile, \<open>NaN\<close> in \<open>percentile95\<close> and excluded below \<open>2 ^ 53\<close> samples.

  \<^bold>\<open>Not modelled.\<close> \<open>groupversion_info.go\<close> (registration of the types); what controller-runtime does with the manager's options and
  registrations (leader election, probes, caches, rate limits), the scheme, the parsing of flags; in the HTTP
  servers accepting connections, timeouts and the TLS protocol; log output; the HTML templates of the proxy beyond the values they show; the connection handling inside \<open>net/http\<close>
  and \<open>net/smtp\<close>; the console plugin (TypeScript), the manifests and \<open>test/utils\<close>.
\<close>

end
